theory Spec2Isabelle
  imports Complex_Main
begin

section \<open>Outcomes, arrays and the store\<close>

text \<open>
  The two flux routines of the repository, \<^verbatim>\<open>compressible/unsplitFluxes.py\<close> and
  \<^verbatim>\<open>compressible_rk/fluxes.py\<close>, work on numpy arrays of float64. An array is modelled
  by its shape and its element function; float64 is idealised to \<^typ>\<open>real\<close>, so rounding,
  infinities and NaN are outside the model of the arrays (the formulas of one cell are
  given in binary64 arithmetic too, in their own section, for the statement that rounding
  decides). Where a whole-array division meets a zero
  divisor numpy stores inf or nan in that cell and goes on; the model has no such value
  (the cell holds HOL's \<open>x / 0 = 0\<close>), so a statement about a cell is made for a non-zero
  divisor there. In scalar code the outcome \<open>FloatingPointError\<close> stands for a float that
  leaves the reals. Every exception of the source is an outcome value, and the store that
  a routine leaves behind is returned with the outcome, also when the routine raises.
\<close>

datatype error = IndexError | ValueError | ZeroDivisionError | FloatingPointError | Fail string

record ndarray =
  shape :: "int list"
  elts :: "int list \<Rightarrow> real"

datatype event = Begin string | End string

record heap =
  nxt :: nat
  arr :: "nat \<Rightarrow> ndarray"
  timers :: "event list"

type_synonym 'a prog = "heap \<Rightarrow> (error + 'a) \<times> heap"

definition ret :: "'a \<Rightarrow> 'a prog" where
  "ret x = (\<lambda>h. (Inr x, h))"

definition raise :: "error \<Rightarrow> 'a prog" where
  "raise e = (\<lambda>h. (Inl e, h))"

definition lift :: "error + 'a \<Rightarrow> 'a prog" where
  "lift r = (\<lambda>h. (r, h))"

definition and_then :: "'a prog \<Rightarrow> ('a \<Rightarrow> 'b prog) \<Rightarrow> 'b prog" where
  "and_then m f = (\<lambda>h. case m h of (Inl e, h') \<Rightarrow> (Inl e, h') | (Inr x, h') \<Rightarrow> f x h')"

text \<open>A counting \<^verbatim>\<open>while (i <= hi): body; i += 1\<close> loop; an exception in the body ends it.\<close>

function while_le :: "int \<Rightarrow> int \<Rightarrow> (int \<Rightarrow> unit prog) \<Rightarrow> unit prog" where
  "while_le i hi body h =
     (if i \<le> hi
      then (case body i h of
              (Inl e, h') \<Rightarrow> (Inl e, h')
            | (Inr _, h') \<Rightarrow> while_le (i + 1) hi body h')
      else (Inr (), h))"
  by pat_completeness auto
termination
  by (relation "measure (\<lambda>(i, hi, body, h). nat (hi + 1 - i))") auto

declare while_le.simps [simp del]

text \<open>\<^verbatim>\<open>while (n < m)\<close> over integers is \<^verbatim>\<open>while (n <= m - 1)\<close>.\<close>

definition while_lt :: "int \<Rightarrow> int \<Rightarrow> (int \<Rightarrow> unit prog) \<Rightarrow> unit prog" where
  "while_lt i m body = while_le i (m - 1) body"

subsection \<open>Subscripts\<close>

text \<open>
  An integer subscript \<open>i\<close> on an axis of length \<open>len\<close>: a negative subscript counts from
  the end, and a subscript outside \<open>-len .. len-1\<close> raises IndexError.
\<close>

definition py_index :: "int \<Rightarrow> int \<Rightarrow> error + int" where
  "py_index len i =
     (if i < - len \<or> len \<le> i then Inl IndexError
      else Inr (if i < 0 then i + len else i))"

text \<open>A full tuple of integer subscripts against a shape (one subscript per axis).\<close>

fun norm_idx :: "int list \<Rightarrow> int list \<Rightarrow> error + int list" where
  "norm_idx [] [] = Inr []"
| "norm_idx (l # ls) (k # ks) =
     (case py_index l k of
        Inl e \<Rightarrow> Inl e
      | Inr k' \<Rightarrow> (case norm_idx ls ks of Inl e \<Rightarrow> Inl e | Inr ks' \<Rightarrow> Inr (k' # ks')))"
| "norm_idx _ _ = Inl IndexError"

definition getitem :: "nat \<Rightarrow> int list \<Rightarrow> real prog" where
  "getitem a idx =
     (\<lambda>h. (case norm_idx (shape (arr h a)) idx of
              Inl e \<Rightarrow> Inl e
            | Inr k \<Rightarrow> Inr (elts (arr h a) k), h))"

text \<open>The store after element \<open>k\<close> of the object at \<open>a\<close> has been assigned.\<close>

definition put :: "nat \<Rightarrow> int list \<Rightarrow> real \<Rightarrow> heap \<Rightarrow> heap" where
  "put a k v h = h\<lparr>arr := (arr h)(a := (arr h a)\<lparr>elts := (elts (arr h a))(k := v)\<rparr>)\<rparr>"

definition setitem :: "nat \<Rightarrow> int list \<Rightarrow> real \<Rightarrow> unit prog" where
  "setitem a idx v =
     (\<lambda>h. case norm_idx (shape (arr h a)) idx of
             Inl e \<Rightarrow> (Inl e, h)
           | Inr k \<Rightarrow> (Inr (), put a k v h))"

text \<open>Division of two Python floats.\<close>

definition py_div :: "real \<Rightarrow> real \<Rightarrow> real prog" where
  "py_div x y = (if y = 0 then raise ZeroDivisionError else ret (x / y))"

subsection \<open>The grid\<close>

record grid2d =
  qx :: int
  qy :: int
  ng :: int
  ilo :: int
  ihi :: int
  jlo :: int
  jhi :: int
  dx :: real
  dy :: real

text \<open>
  Modelled from the spec: the grid module is not among the sources. Section 3 of the
  specification has cells \<open>0..qx-1\<close> by \<open>0..qy-1\<close>, \<open>ng\<close> ghost layers on each side, and
  \<open>ilo..ihi\<close>, \<open>jlo..jhi\<close> the interior; the spacing is uniform and positive.
\<close>

definition grid_ok :: "grid2d \<Rightarrow> bool" where
  "grid_ok g \<longleftrightarrow>
     0 \<le> ng g \<and> ilo g = ng g \<and> ihi g = qx g - ng g - 1 \<and> ilo g \<le> ihi g \<and>
     jlo g = ng g \<and> jhi g = qy g - ng g - 1 \<and> jlo g \<le> jhi g \<and> 0 < dx g \<and> 0 < dy g"

section \<open>The transverse correction of unsplitFluxes\<close>

text \<open>
  Lines 375-398 of \<^verbatim>\<open>unsplitFluxes.py\<close>. The four arrays of interface states and the two
  flux arrays are objects of the store; the records hold their addresses.
\<close>

record istates =
  U_xl :: nat
  U_xr :: nat
  U_yl :: nat
  U_yr :: nat

record fluxes2 =
  F_x :: nat
  F_y :: nat

text \<open>One assignment \<^verbatim>\<open>U[k] = U[k] - 0.5*dt/d * (F[k1] - F[k0])\<close> of the loop body.\<close>

definition correct_one ::
  "nat \<Rightarrow> nat \<Rightarrow> real \<Rightarrow> real \<Rightarrow> int list \<Rightarrow> int list \<Rightarrow> int list \<Rightarrow> unit prog" where
  "correct_one u f dt d k k1 k0 =
     and_then (getitem u k) (\<lambda>x.
     and_then (py_div (0.5 * dt) d) (\<lambda>c.
     and_then (getitem f k1) (\<lambda>a1.
     and_then (getitem f k0) (\<lambda>a0.
     setitem u k (x - c * (a1 - a0))))))"

definition correct_cell ::
  "grid2d \<Rightarrow> real \<Rightarrow> istates \<Rightarrow> fluxes2 \<Rightarrow> int \<Rightarrow> int \<Rightarrow> int \<Rightarrow> unit prog" where
  "correct_cell g dt A F j i n =
     and_then (correct_one (U_xl A) (F_y F) dt (dy g) [i, j, n] [i - 1, j + 1, n] [i - 1, j, n]) (\<lambda>_.
     and_then (correct_one (U_xr A) (F_y F) dt (dy g) [i, j, n] [i, j + 1, n] [i, j, n]) (\<lambda>_.
     and_then (correct_one (U_yl A) (F_x F) dt (dx g) [i, j, n] [i + 1, j - 1, n] [i, j - 1, n]) (\<lambda>_.
     correct_one (U_yr A) (F_x F) dt (dx g) [i, j, n] [i + 1, j, n] [i, j, n])))"

definition correct_row :: "grid2d \<Rightarrow> int \<Rightarrow> real \<Rightarrow> istates \<Rightarrow> fluxes2 \<Rightarrow> int \<Rightarrow> unit prog" where
  "correct_row g nv dt A F j =
     while_le (ilo g - 2) (ihi g + 2) (\<lambda>i. while_lt 0 nv (correct_cell g dt A F j i))"

definition transverse_correct :: "grid2d \<Rightarrow> int \<Rightarrow> real \<Rightarrow> istates \<Rightarrow> fluxes2 \<Rightarrow> unit prog" where
  "transverse_correct g nv dt A F =
     while_le (jlo g - 2) (jhi g + 2) (correct_row g nv dt A F)"


definition visited :: "grid2d \<Rightarrow> int \<Rightarrow> int \<Rightarrow> int \<Rightarrow> int \<Rightarrow> int \<Rightarrow> int \<Rightarrow> int \<Rightarrow> bool" where
  "visited g nv J I N i j n \<longleftrightarrow>
     jlo g - 2 \<le> j \<and> ilo g - 2 \<le> i \<and> i \<le> ihi g + 2 \<and> 0 \<le> n \<and> n < nv \<and>
     (j < J \<or> (j = J \<and> (i < I \<or> (i = I \<and> n < N))))"

text \<open>The corrected value of one element: \<open>U[k] - c * (F[k1] - F[k0])\<close>.\<close>

definition corrected :: "heap \<Rightarrow> nat \<Rightarrow> nat \<Rightarrow> real \<Rightarrow> int list \<Rightarrow> int list \<Rightarrow> int list \<Rightarrow> real" where
  "corrected h u f c k k1 k0 = elts (arr h u) k - c * (elts (arr h f) k1 - elts (arr h f) k0)"

definition corrected_upto ::
  "grid2d \<Rightarrow> int \<Rightarrow> real \<Rightarrow> istates \<Rightarrow> fluxes2 \<Rightarrow> heap \<Rightarrow> int \<Rightarrow> int \<Rightarrow> int \<Rightarrow> heap \<Rightarrow> bool" where
  "corrected_upto g nv dt A F h0 J I N h \<longleftrightarrow>
     nxt h = nxt h0 \<and> timers h = timers h0 \<and>
     (\<forall>a. a \<notin> {U_xl A, U_xr A, U_yl A, U_yr A} \<longrightarrow> arr h a = arr h0 a) \<and>
     (\<forall>a. shape (arr h a) = shape (arr h0 a)) \<and>
     (\<forall>i j n. elts (arr h (U_xl A)) [i, j, n] =
        (if visited g nv J I N i j n
         then corrected h0 (U_xl A) (F_y F) (0.5 * dt / dy g) [i, j, n] [i - 1, j + 1, n] [i - 1, j, n]
         else elts (arr h0 (U_xl A)) [i, j, n])) \<and>
     (\<forall>i j n. elts (arr h (U_xr A)) [i, j, n] =
        (if visited g nv J I N i j n
         then corrected h0 (U_xr A) (F_y F) (0.5 * dt / dy g) [i, j, n] [i, j + 1, n] [i, j, n]
         else elts (arr h0 (U_xr A)) [i, j, n])) \<and>
     (\<forall>i j n. elts (arr h (U_yl A)) [i, j, n] =
        (if visited g nv J I N i j n
         then corrected h0 (U_yl A) (F_x F) (0.5 * dt / dx g) [i, j, n] [i + 1, j - 1, n] [i, j - 1, n]
         else elts (arr h0 (U_yl A)) [i, j, n])) \<and>
     (\<forall>i j n. elts (arr h (U_yr A)) [i, j, n] =
        (if visited g nv J I N i j n
         then corrected h0 (U_yr A) (F_x F) (0.5 * dt / dx g) [i, j, n] [i + 1, j, n] [i, j, n]
         else elts (arr h0 (U_yr A)) [i, j, n]))"

text \<open>The six arrays of the correction have the padded grid's shape with \<open>nv\<close> components.\<close>

definition shaped :: "grid2d \<Rightarrow> int \<Rightarrow> istates \<Rightarrow> fluxes2 \<Rightarrow> heap \<Rightarrow> bool" where
  "shaped g nv A F h \<longleftrightarrow>
     shape (arr h (U_xl A)) = [qx g, qy g, nv] \<and> shape (arr h (U_xr A)) = [qx g, qy g, nv] \<and>
     shape (arr h (U_yl A)) = [qx g, qy g, nv] \<and> shape (arr h (U_yr A)) = [qx g, qy g, nv] \<and>
     shape (arr h (F_x F)) = [qx g, qy g, nv] \<and> shape (arr h (F_y F)) = [qx g, qy g, nv]"

text \<open>
  The subscripts of one pass of the loop body, in source order (lines 384-394): the
  element of each state array and the flux elements it reads. A subscript is within the
  array without wrapping when it is its own normal form.
\<close>

definition stencil :: "int \<Rightarrow> int \<Rightarrow> int \<Rightarrow> int list list" where
  "stencil i j n =
     [[i, j, n], [i - 1, j + 1, n], [i - 1, j, n],
      [i, j, n], [i, j + 1, n], [i, j, n],
      [i, j, n], [i + 1, j - 1, n], [i, j - 1, n],
      [i, j, n], [i + 1, j, n], [i, j, n]]"

definition in_bounds :: "int list \<Rightarrow> int list \<Rightarrow> bool" where
  "in_bounds shp k \<longleftrightarrow> norm_idx shp k = Inr k"

section \<open>numpy on array values\<close>

definition bindr :: "error + 'a \<Rightarrow> ('a \<Rightarrow> error + 'b) \<Rightarrow> error + 'b" where
  "bindr r f = (case r of Inl e \<Rightarrow> Inl e | Inr x \<Rightarrow> f x)"

definition zeros :: "int list \<Rightarrow> ndarray" where
  "zeros s = \<lparr>shape = s, elts = (\<lambda>_. 0)\<rparr>"

text \<open>
  Broadcasting: two shapes are aligned at their last axis; two lengths agree when they
  are equal or one of them is 1; otherwise the operation raises ValueError.
\<close>

fun bshape_rev :: "int list \<Rightarrow> int list \<Rightarrow> error + int list" where
  "bshape_rev [] ys = Inr ys"
| "bshape_rev xs [] = Inr xs"
| "bshape_rev (x # xs) (y # ys) =
     (if x = y \<or> y = 1
      then (case bshape_rev xs ys of Inl e \<Rightarrow> Inl e | Inr zs \<Rightarrow> Inr (x # zs))
      else if x = 1
      then (case bshape_rev xs ys of Inl e \<Rightarrow> Inl e | Inr zs \<Rightarrow> Inr (y # zs))
      else Inl ValueError)"

definition bshape :: "int list \<Rightarrow> int list \<Rightarrow> error + int list" where
  "bshape s t = (case bshape_rev (rev s) (rev t) of Inl e \<Rightarrow> Inl e | Inr zs \<Rightarrow> Inr (rev zs))"

text \<open>The element of an operand of shape \<open>s\<close> that the element \<open>k\<close> of the result reads.\<close>

definition proj :: "int list \<Rightarrow> int list \<Rightarrow> int list" where
  "proj s k = map2 (\<lambda>d i. if d = 1 then 0 else i) s (drop (length k - length s) k)"

definition np_binop :: "(real \<Rightarrow> real \<Rightarrow> real) \<Rightarrow> ndarray \<Rightarrow> ndarray \<Rightarrow> error + ndarray" where
  "np_binop f A B =
     (case bshape (shape A) (shape B) of
        Inl e \<Rightarrow> Inl e
      | Inr s \<Rightarrow> Inr \<lparr>shape = s, elts = (\<lambda>k. f (elts A (proj (shape A) k)) (elts B (proj (shape B) k)))\<rparr>)"

definition np_add :: "ndarray \<Rightarrow> ndarray \<Rightarrow> error + ndarray" where
  "np_add = np_binop (\<lambda>x y. x + y)"

definition np_sub :: "ndarray \<Rightarrow> ndarray \<Rightarrow> error + ndarray" where
  "np_sub = np_binop (\<lambda>x y. x - y)"

definition np_mul :: "ndarray \<Rightarrow> ndarray \<Rightarrow> error + ndarray" where
  "np_mul = np_binop (\<lambda>x y. x * y)"

definition np_div :: "ndarray \<Rightarrow> ndarray \<Rightarrow> error + ndarray" where
  "np_div = np_binop (\<lambda>x y. x / y)"

definition np_map :: "(real \<Rightarrow> real) \<Rightarrow> ndarray \<Rightarrow> ndarray" where
  "np_map f A = A\<lparr>elts := (\<lambda>k. f (elts A k))\<rparr>"

text \<open>\<^verbatim>\<open>c*A\<close>, \<^verbatim>\<open>A**2\<close> and \<^verbatim>\<open>A.clip(lo)\<close>.\<close>

definition np_scale :: "real \<Rightarrow> ndarray \<Rightarrow> ndarray" where
  "np_scale c = np_map (\<lambda>x. c * x)"

definition np_square :: "ndarray \<Rightarrow> ndarray" where
  "np_square = np_map (\<lambda>x. x ^ 2)"

definition np_clip_min :: "ndarray \<Rightarrow> real \<Rightarrow> ndarray" where
  "np_clip_min A lo = np_map (\<lambda>x. max x lo) A"

text \<open>\<^verbatim>\<open>A[:,:,n]\<close> of a three-dimensional array, as a value.\<close>

definition plane :: "ndarray \<Rightarrow> int \<Rightarrow> error + ndarray" where
  "plane A n =
     (if length (shape A) \<noteq> 3 then Inl IndexError
      else case py_index (shape A ! 2) n of
             Inl e \<Rightarrow> Inl e
           | Inr n' \<Rightarrow> Inr \<lparr>shape = take 2 (shape A), elts = (\<lambda>k. elts A (k @ [n']))\<rparr>)"

text \<open>A subscript tuple that lies in a shape.\<close>

definition in_shape :: "int list \<Rightarrow> int list \<Rightarrow> bool" where
  "in_shape s k \<longleftrightarrow> list_all2 (\<lambda>d i. 0 \<le> i \<and> i < d) s k"

subsection \<open>Objects of the store\<close>

definition alloc :: "ndarray \<Rightarrow> heap \<Rightarrow> heap" where
  "alloc A h = h\<lparr>nxt := Suc (nxt h), arr := (arr h)(nxt h := A)\<rparr>"

definition new :: "ndarray \<Rightarrow> nat prog" where
  "new A = (\<lambda>h. (Inr (nxt h), alloc A h))"

text \<open>\<^verbatim>\<open>numpy.zeros(shape)\<close>: a negative length raises ValueError.\<close>

definition np_zeros :: "int list \<Rightarrow> nat prog" where
  "np_zeros s = (if list_ex (\<lambda>d. d < 0) s then raise ValueError else new (zeros s))"

text \<open>
  A name of the program is bound to a whole object, or to the view \<^verbatim>\<open>A[:,:,n]\<close> of one
  component of a three-dimensional object. Reading through a name takes the value that
  the object has at that moment.
\<close>

datatype view = Whole nat | Comp nat int

fun load :: "view \<Rightarrow> ndarray prog" where
  "load (Whole a) = (\<lambda>h. (Inr (arr h a), h))"
| "load (Comp a n) = (\<lambda>h. (plane (arr h a) n, h))"

declare load.simps [simp del]

text \<open>The value of an expression over two names, stored as a new object.\<close>

definition eval2 :: "(ndarray \<Rightarrow> ndarray \<Rightarrow> error + ndarray) \<Rightarrow> view \<Rightarrow> view \<Rightarrow> nat prog" where
  "eval2 f x y = and_then (load x) (\<lambda>a. and_then (load y) (\<lambda>b. and_then (lift (f a b)) new))"

text \<open>The store with the object at \<open>a\<close> replaced.\<close>

definition store :: "nat \<Rightarrow> ndarray \<Rightarrow> heap \<Rightarrow> heap" where
  "store a A h = h\<lparr>arr := (arr h)(a := A)\<rparr>"

text \<open>
  \<^verbatim>\<open>U[:,:,n] = R\<close> on the object at \<open>a\<close>: the right-hand side must broadcast to the shape of
  the component. \<open>with_plane A n R\<close> is the array \<open>A\<close> after the assignment.
\<close>

definition with_plane :: "ndarray \<Rightarrow> int \<Rightarrow> ndarray \<Rightarrow> ndarray" where
  "with_plane A n R =
     A\<lparr>elts := (\<lambda>k. if length k = 3 \<and> k ! 2 = n \<and> in_shape (take 2 (shape A)) (take 2 k)
                     then elts R (proj (shape R) (take 2 k)) else elts A k)\<rparr>"

definition set_plane :: "nat \<Rightarrow> int \<Rightarrow> ndarray \<Rightarrow> unit prog" where
  "set_plane a n R =
     (\<lambda>h. let A = arr h a in
        if length (shape A) \<noteq> 3 then (Inl IndexError, h)
        else case py_index (shape A ! 2) n of
               Inl e \<Rightarrow> (Inl e, h)
             | Inr n' \<Rightarrow>
                 if bshape (take 2 (shape A)) (shape R) \<noteq> Inr (take 2 (shape A)) then (Inl ValueError, h)
                 else (Inr (), store a (with_plane A n' R) h))"

definition tick :: "event \<Rightarrow> unit prog" where
  "tick e = (\<lambda>h. (Inr (), h\<lparr>timers := timers h @ [e]\<rparr>))"

section \<open>unsplitFluxes\<close>

subsection \<open>Collaborators\<close>

text \<open>
  Modelled from the spec: the data object (the patch module) is not among the sources.
  Section 3 of the specification has the conserved state owned by the caller and read by
  the routine; the object holds the grid, the number of variables, their names, and one
  array of shape \<open>(qx, qy, nvar)\<close> in the store. A variable looked up by name is a view of
  that array, not a copy.
\<close>

record ccdata =
  grid :: grid2d
  dnvar :: int
  names :: "string list"
  data :: nat

fun index_of :: "'a \<Rightarrow> 'a list \<Rightarrow> int option" where
  "index_of x [] = None"
| "index_of x (y # ys) = (if x = y then Some 0 else map_option (\<lambda>n. n + 1) (index_of x ys))"

definition getVarPtr :: "ccdata \<Rightarrow> string \<Rightarrow> view prog" where
  "getVarPtr d name =
     (case index_of name (names d) of
        None \<Rightarrow> raise ValueError
      | Some n \<Rightarrow> and_then (load (Comp (data d) n)) (\<lambda>_. ret (Comp (data d) n)))"

text \<open>
  The module \<^verbatim>\<open>vars\<close> (the object \<^verbatim>\<open>ivars\<close> of the later routine) is not among the sources:
  the component indices are parameters.
\<close>

record variables =
  nvar :: int
  idens :: int
  ixmom :: int
  iymom :: int
  iener :: int
  irho :: int
  iu :: int
  iv :: int
  ip :: int

text \<open>
  The equation of state and the compiled kernels (\<^verbatim>\<open>eos\<close>, \<^verbatim>\<open>reconstruction_f\<close>,
  \<^verbatim>\<open>interface_f\<close>) are not among the sources: they are parameters. The equation of state
  acts elementwise. A kernel is a function of the values of its arguments; it returns the
  elements of a new array, whose shape is the one of its interface, and leaves its
  arguments alone (section 4.6 of the specification: a pure function).
\<close>

record kernels =
  pres :: "real \<Rightarrow> real \<Rightarrow> real"
  rhoe :: "real \<Rightarrow> real"
  flatten :: "int \<Rightarrow> ndarray \<Rightarrow> ndarray \<Rightarrow> int \<Rightarrow> int \<Rightarrow> int \<Rightarrow> real \<Rightarrow> real \<Rightarrow> real \<Rightarrow> real \<Rightarrow> int list \<Rightarrow> real"
  flatten_multid :: "ndarray \<Rightarrow> ndarray \<Rightarrow> ndarray \<Rightarrow> int \<Rightarrow> int \<Rightarrow> int \<Rightarrow> int list \<Rightarrow> real"
  limit4 :: "int \<Rightarrow> ndarray \<Rightarrow> int \<Rightarrow> int \<Rightarrow> int \<Rightarrow> int list \<Rightarrow> real"
  states :: "int \<Rightarrow> int \<Rightarrow> int \<Rightarrow> int \<Rightarrow> real \<Rightarrow> real \<Rightarrow> int \<Rightarrow> real \<Rightarrow> ndarray list \<Rightarrow>
             (int list \<Rightarrow> real) \<times> (int list \<Rightarrow> real)"
  riemann :: "int \<Rightarrow> int \<Rightarrow> int \<Rightarrow> int \<Rightarrow> int \<Rightarrow> int \<Rightarrow> int \<Rightarrow> int \<Rightarrow> int \<Rightarrow> real \<Rightarrow>
              ndarray \<Rightarrow> ndarray \<Rightarrow> int list \<Rightarrow> real"

subsection \<open>Primitive variables (lines 154-171)\<close>

definition smallp :: real where
  "smallp = 1 / 10 ^ 10"

record prims =
  prim_r :: view
  prim_u :: view
  prim_v :: view
  prim_p :: view

text \<open>\<^verbatim>\<open>(ener - 0.5*(xmom**2 + ymom**2)/dens)/dens\<close>\<close>

definition specific_energy :: "ndarray \<Rightarrow> ndarray \<Rightarrow> ndarray \<Rightarrow> ndarray \<Rightarrow> error + ndarray" where
  "specific_energy en xm ym dn =
     bindr (np_add (np_square xm) (np_square ym)) (\<lambda>s.
     bindr (np_div (np_scale 0.5 s) dn) (\<lambda>t.
     bindr (np_sub en t) (\<lambda>w.
     np_div w dn)))"

definition primitive_variables :: "kernels \<Rightarrow> ccdata \<Rightarrow> prims prog" where
  "primitive_variables K myData =
     and_then (getVarPtr myData ''density'') (\<lambda>dens.
     and_then (getVarPtr myData ''x-momentum'') (\<lambda>xmom.
     and_then (getVarPtr myData ''y-momentum'') (\<lambda>ymom.
     and_then (getVarPtr myData ''energy'') (\<lambda>ener.
     and_then (eval2 np_div xmom dens) (\<lambda>u.
     and_then (eval2 np_div ymom dens) (\<lambda>v.
     and_then (load ener) (\<lambda>en.
     and_then (load xmom) (\<lambda>xm.
     and_then (load ymom) (\<lambda>ym.
     and_then (load dens) (\<lambda>dn.
     and_then (lift (specific_energy en xm ym dn)) (\<lambda>ev.
     and_then (new ev) (\<lambda>e.
     and_then (eval2 (np_binop (pres K)) dens (Whole e)) (\<lambda>p0.
     and_then (load (Whole p0)) (\<lambda>pv.
     and_then (new (np_clip_min pv smallp)) (\<lambda>p.
     ret \<lparr>prim_r = dens, prim_u = Whole u, prim_v = Whole v, prim_p = Whole p\<rparr>)))))))))))))))"

subsection \<open>Flattening and limiting (lines 179-210, 260-263)\<close>

definition flattening :: "kernels \<Rightarrow> grid2d \<Rightarrow> prims \<Rightarrow> nat prog" where
  "flattening K myg Q =
     and_then (np_zeros [qx myg, qx myg]) (\<lambda>_.
     and_then (np_zeros [qx myg, qx myg]) (\<lambda>_.
     and_then (np_zeros [qx myg, qx myg]) (\<lambda>_.
     and_then (load (prim_p Q)) (\<lambda>p.
     and_then (load (prim_u Q)) (\<lambda>u.
     and_then (new \<lparr>shape = [qx myg, qy myg],
                    elts = flatten K 1 p u (qx myg) (qy myg) (ng myg) smallp 0.33 0.75 0.85\<rparr>) (\<lambda>xi_x.
     and_then (load (prim_p Q)) (\<lambda>p.
     and_then (load (prim_v Q)) (\<lambda>v.
     and_then (new \<lparr>shape = [qx myg, qy myg],
                    elts = flatten K 2 p v (qx myg) (qy myg) (ng myg) smallp 0.33 0.75 0.85\<rparr>) (\<lambda>xi_y.
     and_then (load (Whole xi_x)) (\<lambda>xx.
     and_then (load (Whole xi_y)) (\<lambda>xy.
     and_then (load (prim_p Q)) (\<lambda>p.
     new \<lparr>shape = [qx myg, qy myg],
          elts = flatten_multid K xx xy p (qx myg) (qy myg) (ng myg)\<rparr>))))))))))))"

text \<open>\<^verbatim>\<open>xi*reconstruction_f.limit4(idir, a, qx, qy, ng)\<close>\<close>

definition limited :: "kernels \<Rightarrow> grid2d \<Rightarrow> int \<Rightarrow> nat \<Rightarrow> view \<Rightarrow> nat prog" where
  "limited K myg idir xi a =
     and_then (load (Whole xi)) (\<lambda>x.
     and_then (load a) (\<lambda>av.
     and_then (lift (np_mul x \<lparr>shape = [qx myg, qy myg],
                               elts = limit4 K idir av (qx myg) (qy myg) (ng myg)\<rparr>)) new))"

record slopes =
  ldelta_r :: nat
  ldelta_u :: nat
  ldelta_v :: nat
  ldelta_p :: nat

definition limiting :: "kernels \<Rightarrow> grid2d \<Rightarrow> int \<Rightarrow> nat \<Rightarrow> prims \<Rightarrow> slopes prog" where
  "limiting K myg idir xi Q =
     and_then (limited K myg idir xi (prim_r Q)) (\<lambda>lr.
     and_then (limited K myg idir xi (prim_u Q)) (\<lambda>lu.
     and_then (limited K myg idir xi (prim_v Q)) (\<lambda>lv.
     and_then (limited K myg idir xi (prim_p Q)) (\<lambda>lp.
     ret \<lparr>ldelta_r = lr, ldelta_u = lu, ldelta_v = lv, ldelta_p = lp\<rparr>))))"

subsection \<open>Interface states and their conserved form (lines 223-249, 274-297)\<close>

definition predict :: "kernels \<Rightarrow> grid2d \<Rightarrow> variables \<Rightarrow> real \<Rightarrow> real \<Rightarrow> int \<Rightarrow> real \<Rightarrow> prims \<Rightarrow> slopes \<Rightarrow>
    (nat \<times> nat) prog" where
  "predict K myg vars gamma dt idir d Q L =
     and_then (load (prim_r Q)) (\<lambda>r.
     and_then (load (prim_u Q)) (\<lambda>u.
     and_then (load (prim_v Q)) (\<lambda>v.
     and_then (load (prim_p Q)) (\<lambda>p.
     and_then (load (Whole (ldelta_r L))) (\<lambda>lr.
     and_then (load (Whole (ldelta_u L))) (\<lambda>lu.
     and_then (load (Whole (ldelta_v L))) (\<lambda>lv.
     and_then (load (Whole (ldelta_p L))) (\<lambda>lp.
     let S = states K idir (qx myg) (qy myg) (ng myg) d dt (nvar vars) gamma [r, u, v, p, lr, lu, lv, lp] in
     and_then (new \<lparr>shape = [qx myg, qy myg, nvar vars], elts = fst S\<rparr>) (\<lambda>V_l.
     and_then (new \<lparr>shape = [qx myg, qy myg, nvar vars], elts = snd S\<rparr>) (\<lambda>V_r.
     ret (V_l, V_r)))))))))))"

text \<open>
  The four assignments that fill one array \<open>U\<close> of conserved interface states from an
  array \<open>V\<close> of primitive ones; the source has them four times, for \<open>U_xl\<close>, \<open>U_xr\<close>, \<open>U_yl\<close>
  and \<open>U_yr\<close>, with the same right-hand sides.
\<close>

definition energy_of :: "kernels \<Rightarrow> ndarray \<Rightarrow> ndarray \<Rightarrow> ndarray \<Rightarrow> ndarray \<Rightarrow> error + ndarray" where
  "energy_of K p rho u v =
     bindr (np_add (np_square u) (np_square v)) (\<lambda>s.
     bindr (np_mul (np_scale 0.5 rho) s) (\<lambda>k.
     np_add (np_map (rhoe K) p) k))"

definition to_conserved :: "kernels \<Rightarrow> variables \<Rightarrow> nat \<Rightarrow> nat \<Rightarrow> unit prog" where
  "to_conserved K vars U V =
     and_then (load (Comp V (irho vars))) (\<lambda>rho.
     and_then (set_plane U (idens vars) rho) (\<lambda>_.
     and_then (load (Comp V (irho vars))) (\<lambda>rho.
     and_then (load (Comp V (iu vars))) (\<lambda>u.
     and_then (lift (np_mul rho u)) (\<lambda>m.
     and_then (set_plane U (ixmom vars) m) (\<lambda>_.
     and_then (load (Comp V (irho vars))) (\<lambda>rho.
     and_then (load (Comp V (iv vars))) (\<lambda>v.
     and_then (lift (np_mul rho v)) (\<lambda>m.
     and_then (set_plane U (iymom vars) m) (\<lambda>_.
     and_then (load (Comp V (ip vars))) (\<lambda>p.
     and_then (load (Comp V (irho vars))) (\<lambda>rho.
     and_then (load (Comp V (iu vars))) (\<lambda>u.
     and_then (load (Comp V (iv vars))) (\<lambda>v.
     and_then (lift (energy_of K p rho u v)) (\<lambda>E.
     set_plane U (iener vars) E)))))))))))))))"

text \<open>Lines 236-249 and 284-297: the two arrays of conserved states of one direction.\<close>

definition conserve :: "kernels \<Rightarrow> grid2d \<Rightarrow> ccdata \<Rightarrow> variables \<Rightarrow> nat \<Rightarrow> nat \<Rightarrow> (nat \<times> nat) prog" where
  "conserve K myg myData vars V_l V_r =
     and_then (np_zeros [qx myg, qy myg, dnvar myData]) (\<lambda>Ul.
     and_then (np_zeros [qx myg, qy myg, dnvar myData]) (\<lambda>Ur.
     and_then (to_conserved K vars Ul V_l) (\<lambda>_.
     and_then (to_conserved K vars Ur V_r) (\<lambda>_.
     ret (Ul, Ur)))))"

text \<open>Lines 199-249: the x-direction.\<close>

definition x_direction :: "kernels \<Rightarrow> ccdata \<Rightarrow> variables \<Rightarrow> real \<Rightarrow> real \<Rightarrow> nat \<Rightarrow> prims \<Rightarrow>
    (nat \<times> nat) prog" where
  "x_direction K myData vars gamma dt xi Q =
     (let myg = grid myData in
     and_then (tick (Begin ''limiting'')) (\<lambda>_.
     and_then (np_zeros [qx myg, qx myg]) (\<lambda>_.
     and_then (np_zeros [qx myg, qx myg]) (\<lambda>_.
     and_then (np_zeros [qx myg, qx myg]) (\<lambda>_.
     and_then (np_zeros [qx myg, qx myg]) (\<lambda>_.
     and_then (limiting K myg 1 xi Q) (\<lambda>L.
     and_then (tick (End ''limiting'')) (\<lambda>_.
     and_then (tick (Begin ''interfaceStates'')) (\<lambda>_.
     and_then (np_zeros [qx myg, qy myg, nvar vars]) (\<lambda>_.
     and_then (np_zeros [qx myg, qy myg, nvar vars]) (\<lambda>_.
     and_then (predict K myg vars gamma dt 1 (dx myg) Q L) (\<lambda>(V_l, V_r).
     and_then (tick (End ''interfaceStates'')) (\<lambda>_.
     conserve K myg myData vars V_l V_r)))))))))))))"

text \<open>Lines 258-297: the y-direction.\<close>

definition y_direction :: "kernels \<Rightarrow> ccdata \<Rightarrow> variables \<Rightarrow> real \<Rightarrow> real \<Rightarrow> nat \<Rightarrow> prims \<Rightarrow>
    (nat \<times> nat) prog" where
  "y_direction K myData vars gamma dt xi Q =
     (let myg = grid myData in
     and_then (tick (Begin ''limiting'')) (\<lambda>_.
     and_then (limiting K myg 2 xi Q) (\<lambda>L.
     and_then (tick (End ''limiting'')) (\<lambda>_.
     and_then (tick (Begin ''interfaceStates'')) (\<lambda>_.
     and_then (predict K myg vars gamma dt 2 (dy myg) Q L) (\<lambda>(V_l, V_r).
     and_then (tick (End ''interfaceStates'')) (\<lambda>_.
     conserve K myg myData vars V_l V_r)))))))"

subsection \<open>The two Riemann passes and the routine (lines 308-429)\<close>

text \<open>One call of the Riemann kernel; it returns an array of shape \<open>(qx, qy, nvar)\<close>.\<close>

definition riemann_array :: "kernels \<Rightarrow> grid2d \<Rightarrow> variables \<Rightarrow> real \<Rightarrow> int \<Rightarrow> ndarray \<Rightarrow> ndarray \<Rightarrow> ndarray" where
  "riemann_array K myg vars gamma idir Ul Ur =
     \<lparr>shape = [qx myg, qy myg, nvar vars],
      elts = riemann K idir (qx myg) (qy myg) (ng myg) (nvar vars) (idens vars) (ixmom vars)
               (iymom vars) (iener vars) gamma Ul Ur\<rparr>"

definition riemann_pass :: "kernels \<Rightarrow> grid2d \<Rightarrow> variables \<Rightarrow> real \<Rightarrow> istates \<Rightarrow> fluxes2 prog" where
  "riemann_pass K myg vars gamma A =
     and_then (load (Whole (U_xl A))) (\<lambda>xl.
     and_then (load (Whole (U_xr A))) (\<lambda>xr.
     and_then (new (riemann_array K myg vars gamma 1 xl xr)) (\<lambda>fx.
     and_then (load (Whole (U_yl A))) (\<lambda>yl.
     and_then (load (Whole (U_yr A))) (\<lambda>yr.
     and_then (new (riemann_array K myg vars gamma 2 yl yr)) (\<lambda>fy.
     ret \<lparr>F_x = fx, F_y = fy\<rparr>))))))"

definition states_from :: "kernels \<Rightarrow> variables \<Rightarrow> real \<Rightarrow> ccdata \<Rightarrow> real \<Rightarrow> prims \<Rightarrow> istates prog" where
  "states_from K vars gamma myData dt Q =
     and_then (flattening K (grid myData) Q) (\<lambda>xi.
     and_then (x_direction K myData vars gamma dt xi Q) (\<lambda>(xl, xr).
     and_then (y_direction K myData vars gamma dt xi Q) (\<lambda>(yl, yr).
     ret \<lparr>U_xl = xl, U_xr = xr, U_yl = yl, U_yr = yr\<rparr>)))"

definition interface_states :: "kernels \<Rightarrow> variables \<Rightarrow> real \<Rightarrow> ccdata \<Rightarrow> real \<Rightarrow> istates prog" where
  "interface_states K vars gamma myData dt =
     and_then (primitive_variables K myData) (states_from K vars gamma myData dt)"

definition transverse_fluxes :: "kernels \<Rightarrow> grid2d \<Rightarrow> variables \<Rightarrow> real \<Rightarrow> istates \<Rightarrow> fluxes2 prog" where
  "transverse_fluxes K myg vars gamma A =
     and_then (tick (Begin ''riemann'')) (\<lambda>_.
     and_then (np_zeros [qx myg, qy myg, nvar vars]) (\<lambda>_.
     and_then (np_zeros [qx myg, qy myg, nvar vars]) (\<lambda>_.
     and_then (riemann_pass K myg vars gamma A) (\<lambda>F.
     and_then (tick (End ''riemann'')) (\<lambda>_.
     ret F)))))"

definition normal_fluxes :: "kernels \<Rightarrow> grid2d \<Rightarrow> variables \<Rightarrow> real \<Rightarrow> istates \<Rightarrow> fluxes2 prog" where
  "normal_fluxes K myg vars gamma A =
     and_then (tick (Begin ''riemann'')) (\<lambda>_.
     and_then (riemann_pass K myg vars gamma A) (\<lambda>F.
     and_then (tick (End ''riemann'')) (\<lambda>_.
     ret F)))"

definition fluxes_from :: "kernels \<Rightarrow> variables \<Rightarrow> real \<Rightarrow> ccdata \<Rightarrow> real \<Rightarrow> istates \<Rightarrow> fluxes2 prog" where
  "fluxes_from K vars gamma myData dt A =
     and_then (transverse_fluxes K (grid myData) vars gamma A) (\<lambda>F.
     and_then (transverse_correct (grid myData) (dnvar myData) dt A F) (\<lambda>_.
     and_then (normal_fluxes K (grid myData) vars gamma A) (\<lambda>F'.
     and_then (tick (End ''unsplitFluxes'')) (\<lambda>_.
     ret F'))))"

definition unsplitFluxes :: "kernels \<Rightarrow> variables \<Rightarrow> real \<Rightarrow> ccdata \<Rightarrow> real \<Rightarrow> fluxes2 prog" where
  "unsplitFluxes K vars gamma myData dt =
     and_then (tick (Begin ''unsplitFluxes'')) (\<lambda>_.
     and_then (interface_states K vars gamma myData dt) (fluxes_from K vars gamma myData dt))"

section \<open>The fluxes routine of compressible_rk\<close>

subsection \<open>Collaborators\<close>

text \<open>The runtime parameters that the routine reads, and the solid-wall flags.\<close>

record rparams =
  rp_gamma :: real
  rp_use_flattening :: int
  rp_limiter :: int
  rp_riemann :: string
  rp_cvisc :: real

record solid =
  solid_xl :: int
  solid_xr :: int
  solid_yl :: int
  solid_yr :: int

text \<open>
  The functions of \<^verbatim>\<open>compressible\<close>, \<^verbatim>\<open>mesh.reconstruction\<close> and \<^verbatim>\<open>compressible.interface_f\<close>
  are not among the sources: they are parameters, functions of the values of their
  arguments that return the elements of a new array.
\<close>

record rk_kernels =
  cons_to_prim :: "ndarray \<Rightarrow> real \<Rightarrow> variables \<Rightarrow> grid2d \<Rightarrow> int list \<Rightarrow> real"
  rk_flatten :: "grid2d \<Rightarrow> ndarray \<Rightarrow> int \<Rightarrow> variables \<Rightarrow> rparams \<Rightarrow> int list \<Rightarrow> real"
  rk_flatten_multid :: "grid2d \<Rightarrow> ndarray \<Rightarrow> ndarray \<Rightarrow> ndarray \<Rightarrow> variables \<Rightarrow> int list \<Rightarrow> real"
  limit :: "ndarray \<Rightarrow> grid2d \<Rightarrow> int \<Rightarrow> int \<Rightarrow> int list \<Rightarrow> real"
  prim_to_cons :: "ndarray \<Rightarrow> real \<Rightarrow> variables \<Rightarrow> grid2d \<Rightarrow> int list \<Rightarrow> real"
  riemann_hllc :: "int \<Rightarrow> int \<Rightarrow> int \<Rightarrow> int \<Rightarrow> int \<Rightarrow> int \<Rightarrow> int \<Rightarrow> int \<Rightarrow> int \<Rightarrow> int \<Rightarrow> int \<Rightarrow> real \<Rightarrow>
                   ndarray \<Rightarrow> ndarray \<Rightarrow> int list \<Rightarrow> real"
  riemann_cgf :: "int \<Rightarrow> int \<Rightarrow> int \<Rightarrow> int \<Rightarrow> int \<Rightarrow> int \<Rightarrow> int \<Rightarrow> int \<Rightarrow> int \<Rightarrow> int \<Rightarrow> int \<Rightarrow> real \<Rightarrow>
                  ndarray \<Rightarrow> ndarray \<Rightarrow> int list \<Rightarrow> real"
  artificial_viscosity :: "int \<Rightarrow> int \<Rightarrow> int \<Rightarrow> real \<Rightarrow> real \<Rightarrow> real \<Rightarrow> ndarray \<Rightarrow> ndarray \<Rightarrow>
                           (int list \<Rightarrow> real) \<times> (int list \<Rightarrow> real)"

subsection \<open>Views of the array indexer\<close>

text \<open>
  The array indexer (\<^verbatim>\<open>mesh.array_indexer\<close>) is not among the sources. Its views are
  modelled after the comments of the routine (\<^verbatim>\<open>F_x = F_x + avisco_x * (U(i-1,j) - U(i,j))\<close>
  for \<^verbatim>\<open>var.ip(-1, buf=b) - var.v(buf=b)\<close>): \<open>v(buf)\<close> is the interior widened by \<open>buf\<close>
  cells, \<open>ip(s)\<close> and \<open>jp(s)\<close> are that region shifted by \<open>s\<close> cells in \<open>i\<close> or in \<open>j\<close>, and a
  pair \<open>buf = (lo, hi)\<close> widens the low and the high side separately. The region is taken
  with Python slices \<open>start:stop\<close>, which clip to the axis and count a negative bound
  from the end.
\<close>

definition clamp :: "int \<Rightarrow> int \<Rightarrow> int" where
  "clamp len k = (if k < 0 then max 0 (k + len) else min k len)"

text \<open>First index and number of indices of the slice \<open>a:b\<close> on an axis of length \<open>len\<close>.\<close>

definition py_slice :: "int \<Rightarrow> int \<Rightarrow> int \<Rightarrow> int \<times> int" where
  "py_slice len a b = (clamp len a, max 0 (clamp len b - clamp len a))"

type_synonym region = "(int \<times> int) \<times> (int \<times> int)"

definition ip_jp :: "grid2d \<Rightarrow> int \<Rightarrow> int \<Rightarrow> int \<times> int \<Rightarrow> region" where
  "ip_jp g ishift jshift buf =
     ((ilo g - fst buf + ishift, ihi g + 1 + snd buf + ishift),
      (jlo g - fst buf + jshift, jhi g + 1 + snd buf + jshift))"

text \<open>The value of \<^verbatim>\<open>A[i0:i1, j0:j1]\<close> (two axes) or \<^verbatim>\<open>A[i0:i1, j0:j1, n]\<close> (otherwise).\<close>

definition view_of :: "ndarray \<Rightarrow> region \<Rightarrow> int \<Rightarrow> error + ndarray" where
  "view_of A R n =
     (if length (shape A) = 2
      then (let (si, ci) = py_slice (shape A ! 0) (fst (fst R)) (snd (fst R));
                (sj, cj) = py_slice (shape A ! 1) (fst (snd R)) (snd (snd R))
            in Inr \<lparr>shape = [ci, cj], elts = (\<lambda>k. elts A [si + k ! 0, sj + k ! 1])\<rparr>)
      else if length (shape A) \<noteq> 3 then Inl IndexError
      else case py_index (shape A ! 2) n of
             Inl e \<Rightarrow> Inl e
           | Inr n' \<Rightarrow>
               (let (si, ci) = py_slice (shape A ! 0) (fst (fst R)) (snd (fst R));
                    (sj, cj) = py_slice (shape A ! 1) (fst (snd R)) (snd (snd R))
                in Inr \<lparr>shape = [ci, cj], elts = (\<lambda>k. elts A [si + k ! 0, sj + k ! 1, n'])\<rparr>))"

definition view :: "view \<Rightarrow> region \<Rightarrow> int \<Rightarrow> ndarray prog" where
  "view x R n = and_then (load x) (\<lambda>A. lift (view_of A R n))"

text \<open>
  \<^verbatim>\<open>X[i0:i1, j0:j1, n][:,:] = R\<close> on the object at \<open>a\<close>; the objects written through a view
  are the three-dimensional arrays that the routine has made. The right-hand side must
  broadcast to the shape of the view. \<open>with_region A si ci sj cj n R\<close> is the array \<open>A\<close>
  after the assignment to the \<open>ci\<close> by \<open>cj\<close> cells from \<open>(si, sj)\<close> of component \<open>n\<close>.
\<close>

definition with_region :: "ndarray \<Rightarrow> int \<Rightarrow> int \<Rightarrow> int \<Rightarrow> int \<Rightarrow> int \<Rightarrow> ndarray \<Rightarrow> ndarray" where
  "with_region A si ci sj cj n X =
     A\<lparr>elts := (\<lambda>k. if length k = 3 \<and> k ! 2 = n \<and> si \<le> k ! 0 \<and> k ! 0 < si + ci \<and>
                        sj \<le> k ! 1 \<and> k ! 1 < sj + cj
                     then elts X (proj (shape X) [k ! 0 - si, k ! 1 - sj])
                     else elts A k)\<rparr>"

definition assign_view :: "nat \<Rightarrow> region \<Rightarrow> int \<Rightarrow> ndarray \<Rightarrow> unit prog" where
  "assign_view a R n X =
     (\<lambda>h. let A = arr h a in
        if length (shape A) \<noteq> 3 then (Inl IndexError, h)
        else case py_index (shape A ! 2) n of
               Inl e \<Rightarrow> (Inl e, h)
             | Inr n' \<Rightarrow>
                 (let (si, ci) = py_slice (shape A ! 0) (fst (fst R)) (snd (fst R));
                      (sj, cj) = py_slice (shape A ! 1) (fst (snd R)) (snd (snd R))
                  in if bshape [ci, cj] (shape X) \<noteq> Inr [ci, cj] then (Inl ValueError, h)
                     else (Inr (), store a (with_region A si ci sj cj n' X) h)))"

text \<open>\<^verbatim>\<open>X[i0:i1, j0:j1, n][:,:] += R\<close>: the view is read, the sum must have its shape.\<close>

definition iadd_view :: "nat \<Rightarrow> region \<Rightarrow> int \<Rightarrow> ndarray prog \<Rightarrow> unit prog" where
  "iadd_view a R n rhs =
     and_then (view (Whole a) R n) (\<lambda>cur.
     and_then rhs (\<lambda>X.
     and_then (lift (if bshape (shape cur) (shape X) = Inr (shape cur) then np_add cur X
                     else Inl ValueError)) (\<lambda>s.
     assign_view a R n s)))"

subsection \<open>The routine (lines 73-253)\<close>

text \<open>
  Modelled from the spec: the module \<^verbatim>\<open>msg\<close> is not among the sources; section 6 of the
  specification has an unknown solver name as a fatal error.
\<close>

definition msg_fail :: "string \<Rightarrow> 'a prog" where
  "msg_fail s = raise (Fail s)"

text \<open>The flattening coefficient: the number 1.0 or an array.\<close>

datatype xi_val = XiOne | XiArr nat

definition times_xi :: "xi_val \<Rightarrow> ndarray \<Rightarrow> ndarray prog" where
  "times_xi xi L =
     (case xi of
        XiOne \<Rightarrow> ret (np_scale 1 L)
      | XiArr a \<Rightarrow> and_then (load (Whole a)) (\<lambda>x. lift (np_mul x L)))"

definition rk_flattening :: "rk_kernels \<Rightarrow> grid2d \<Rightarrow> variables \<Rightarrow> rparams \<Rightarrow> nat \<Rightarrow> xi_val prog" where
  "rk_flattening K myg ivars rp q =
     (if rp_use_flattening rp \<noteq> 0
      then and_then (load (Whole q)) (\<lambda>qv.
           and_then (new \<lparr>shape = [qx myg, qy myg], elts = rk_flatten K myg qv 1 ivars rp\<rparr>) (\<lambda>xi_x.
           and_then (load (Whole q)) (\<lambda>qv.
           and_then (new \<lparr>shape = [qx myg, qy myg], elts = rk_flatten K myg qv 2 ivars rp\<rparr>) (\<lambda>xi_y.
           and_then (load (Whole q)) (\<lambda>qv.
           and_then (load (Whole xi_x)) (\<lambda>xx.
           and_then (load (Whole xi_y)) (\<lambda>xy.
           and_then (new \<lparr>shape = [qx myg, qy myg],
                          elts = rk_flatten_multid K myg qv xx xy ivars\<rparr>) (\<lambda>xi.
           ret (XiArr xi)))))))))
      else ret XiOne)"

text \<open>\<^verbatim>\<open>ld[:,:,n] = xi*reconstruction.limit(q[:,:,n], myg, idir, limiter)\<close>\<close>

definition limit_into :: "rk_kernels \<Rightarrow> grid2d \<Rightarrow> xi_val \<Rightarrow> int \<Rightarrow> nat \<Rightarrow> nat \<Rightarrow> int \<Rightarrow> int \<Rightarrow> unit prog" where
  "limit_into K myg xi limiter q ld idir n =
     and_then (load (Comp q n)) (\<lambda>qn.
     and_then (times_xi xi \<lparr>shape = [qx myg, qy myg], elts = limit K qn myg idir limiter\<rparr>) (\<lambda>L.
     set_plane ld n L))"

definition rk_limiting :: "rk_kernels \<Rightarrow> grid2d \<Rightarrow> variables \<Rightarrow> rparams \<Rightarrow> xi_val \<Rightarrow> nat \<Rightarrow> (nat \<times> nat) prog" where
  "rk_limiting K myg ivars rp xi q =
     and_then (tick (Begin ''limiting'')) (\<lambda>_.
     and_then (np_zeros [qx myg, qy myg, nvar ivars]) (\<lambda>ldx.
     and_then (np_zeros [qx myg, qy myg, nvar ivars]) (\<lambda>ldy.
     and_then (while_lt 0 (nvar ivars) (\<lambda>n.
                 and_then (limit_into K myg xi (rp_limiter rp) q ldx 1 n) (\<lambda>_.
                 limit_into K myg xi (rp_limiter rp) q ldy 2 n))) (\<lambda>_.
     and_then (tick (End ''limiting'')) (\<lambda>_.
     ret (ldx, ldy))))))"

text \<open>
  \<^verbatim>\<open>V.ip_jp(ishift, jshift, n=n, buf=2)[:,:] = q.v(n=n, buf=2) + c*ld.v(n=n, buf=2)\<close>, with
  \<open>c = 0.5\<close> for the left state and \<open>c = -0.5\<close> for the right state (written \<^verbatim>\<open>q - 0.5*ld\<close>).
\<close>

definition left_state :: "grid2d \<Rightarrow> nat \<Rightarrow> nat \<Rightarrow> nat \<Rightarrow> int \<Rightarrow> int \<Rightarrow> int \<Rightarrow> unit prog" where
  "left_state myg V q ld ishift jshift n =
     and_then (view (Whole q) (ip_jp myg 0 0 (2, 2)) n) (\<lambda>a.
     and_then (view (Whole ld) (ip_jp myg 0 0 (2, 2)) n) (\<lambda>b.
     and_then (lift (np_add a (np_scale 0.5 b))) (\<lambda>s.
     assign_view V (ip_jp myg ishift jshift (2, 2)) n s)))"

definition right_state :: "grid2d \<Rightarrow> nat \<Rightarrow> nat \<Rightarrow> nat \<Rightarrow> int \<Rightarrow> unit prog" where
  "right_state myg V q ld n =
     and_then (view (Whole q) (ip_jp myg 0 0 (2, 2)) n) (\<lambda>a.
     and_then (view (Whole ld) (ip_jp myg 0 0 (2, 2)) n) (\<lambda>b.
     and_then (lift (np_sub a (np_scale 0.5 b))) (\<lambda>s.
     assign_view V (ip_jp myg 0 0 (2, 2)) n s)))"

definition x_sweep :: "grid2d \<Rightarrow> variables \<Rightarrow> nat \<Rightarrow> nat \<Rightarrow> nat \<Rightarrow> nat \<Rightarrow> unit prog" where
  "x_sweep myg ivars V_l V_r q ldx =
     while_lt 0 (nvar ivars) (\<lambda>n.
       and_then (left_state myg V_l q ldx 1 0 n) (\<lambda>_.
       right_state myg V_r q ldx n))"

definition y_sweep :: "grid2d \<Rightarrow> variables \<Rightarrow> nat \<Rightarrow> nat \<Rightarrow> nat \<Rightarrow> nat \<Rightarrow> unit prog" where
  "y_sweep myg ivars V_l V_r q ldy =
     while_lt 0 (nvar ivars) (\<lambda>n.
       and_then (left_state myg V_l q ldy 0 1 n) (\<lambda>_.
       right_state myg V_r q ldy n))"

text \<open>\<^verbatim>\<open>comp.prim_to_cons(V, gamma, ivars, myg)\<close>, over the whole array \<open>V\<close>.\<close>

definition conserved_of :: "rk_kernels \<Rightarrow> grid2d \<Rightarrow> variables \<Rightarrow> real \<Rightarrow> nat \<Rightarrow> nat prog" where
  "conserved_of K myg ivars gamma V =
     and_then (load (Whole V)) (\<lambda>Vv.
     new \<lparr>shape = [qx myg, qy myg, nvar ivars], elts = prim_to_cons K Vv gamma ivars myg\<rparr>)"

record rk_states =
  rk_V_l :: nat
  rk_V_r :: nat
  rk_q :: nat
  rk_ldx :: nat
  rk_ldy :: nat
  rk_U :: istates

text \<open>Lines 101-192: everything before the Riemann solver is chosen.\<close>

definition rk_interface_states ::
  "rk_kernels \<Rightarrow> ccdata \<Rightarrow> rparams \<Rightarrow> variables \<Rightarrow> rk_states prog" where
  "rk_interface_states K my_data rp ivars =
     (let myg = grid my_data; gamma = rp_gamma rp in
     and_then (tick (Begin ''unsplitFluxes'')) (\<lambda>_.
     and_then (getVarPtr my_data ''density'') (\<lambda>dens.
     and_then (getVarPtr my_data ''x-momentum'') (\<lambda>xmom.
     and_then (getVarPtr my_data ''y-momentum'') (\<lambda>ymom.
     and_then (getVarPtr my_data ''energy'') (\<lambda>ener.
     and_then (load (Whole (data my_data))) (\<lambda>U.
     and_then (new \<lparr>shape = [qx myg, qy myg, nvar ivars], elts = cons_to_prim K U gamma ivars myg\<rparr>) (\<lambda>q.
     and_then (rk_flattening K myg ivars rp q) (\<lambda>xi.
     and_then (rk_limiting K myg ivars rp xi q) (\<lambda>(ldx, ldy).
     and_then (tick (Begin ''interfaceStates'')) (\<lambda>_.
     and_then (np_zeros [qx myg, qy myg, nvar ivars]) (\<lambda>V_l.
     and_then (np_zeros [qx myg, qy myg, nvar ivars]) (\<lambda>V_r.
     and_then (x_sweep myg ivars V_l V_r q ldx) (\<lambda>_.
     and_then (tick (End ''interfaceStates'')) (\<lambda>_.
     and_then (conserved_of K myg ivars gamma V_l) (\<lambda>xl.
     and_then (conserved_of K myg ivars gamma V_r) (\<lambda>xr.
     and_then (tick (Begin ''interfaceStates'')) (\<lambda>_.
     and_then (y_sweep myg ivars V_l V_r q ldy) (\<lambda>_.
     and_then (tick (End ''interfaceStates'')) (\<lambda>_.
     and_then (conserved_of K myg ivars gamma V_l) (\<lambda>yl.
     and_then (conserved_of K myg ivars gamma V_r) (\<lambda>yr.
     ret \<lparr>rk_V_l = V_l, rk_V_r = V_r, rk_q = q, rk_ldx = ldx, rk_ldy = ldy,
          rk_U = \<lparr>U_xl = xl, U_xr = xr, U_yl = yl, U_yr = yr\<rparr>\<rparr>))))))))))))))))))))))"

text \<open>Lines 198-223: the solver is chosen by name and called for both directions.\<close>

definition choose_riemann :: "rk_kernels \<Rightarrow> string \<Rightarrow>
    (int \<Rightarrow> int \<Rightarrow> int \<Rightarrow> int \<Rightarrow> int \<Rightarrow> int \<Rightarrow> int \<Rightarrow> int \<Rightarrow> int \<Rightarrow> int \<Rightarrow> int \<Rightarrow> real \<Rightarrow>
     ndarray \<Rightarrow> ndarray \<Rightarrow> int list \<Rightarrow> real) prog" where
  "choose_riemann K name =
     (if name = ''HLLC'' then ret (riemann_hllc K)
      else if name = ''CGF'' then ret (riemann_cgf K)
      else msg_fail ''ERROR: Riemann solver undefined'')"

definition rk_riemann :: "rk_kernels \<Rightarrow> grid2d \<Rightarrow> rparams \<Rightarrow> variables \<Rightarrow> solid \<Rightarrow> istates \<Rightarrow> fluxes2 prog" where
  "rk_riemann K myg rp ivars sol A =
     and_then (tick (Begin ''Riemann'')) (\<lambda>_.
     and_then (choose_riemann K (rp_riemann rp)) (\<lambda>riemannFunc.
     and_then (load (Whole (U_xl A))) (\<lambda>xl.
     and_then (load (Whole (U_xr A))) (\<lambda>xr.
     and_then (new \<lparr>shape = [qx myg, qy myg, nvar ivars],
                    elts = riemannFunc 1 (qx myg) (qy myg) (ng myg) (nvar ivars) (idens ivars) (ixmom ivars)
                             (iymom ivars) (iener ivars) (solid_xl sol) (solid_xr sol) (rp_gamma rp) xl xr\<rparr>) (\<lambda>fx.
     and_then (load (Whole (U_yl A))) (\<lambda>yl.
     and_then (load (Whole (U_yr A))) (\<lambda>yr.
     and_then (new \<lparr>shape = [qx myg, qy myg, nvar ivars],
                    elts = riemannFunc 2 (qx myg) (qy myg) (ng myg) (nvar ivars) (idens ivars) (ixmom ivars)
                             (iymom ivars) (iener ivars) (solid_yl sol) (solid_yr sol) (rp_gamma rp) yl yr\<rparr>) (\<lambda>fy.
     and_then (tick (End ''Riemann'')) (\<lambda>_.
     ret \<lparr>F_x = fx, F_y = fy\<rparr>)))))))))"

text \<open>
  Lines 228-249. \<^verbatim>\<open>F.v(buf=b, n=n)[:,:] += avisco.v(buf=b)*(var.ip_jp(di, dj, buf=b) - var.v(buf=b))\<close>
  with \<open>b = (2, 1)\<close>, where \<open>var\<close> is component \<open>n\<close> of the caller's array.
\<close>

definition add_viscosity :: "grid2d \<Rightarrow> ccdata \<Rightarrow> nat \<Rightarrow> nat \<Rightarrow> int \<Rightarrow> int \<Rightarrow> int \<Rightarrow> unit prog" where
  "add_viscosity myg my_data F avisco di dj n =
     iadd_view F (ip_jp myg 0 0 (2, 1)) n
       (and_then (view (Whole avisco) (ip_jp myg 0 0 (2, 1)) 0) (\<lambda>av.
        and_then (view (Comp (data my_data) n) (ip_jp myg di dj (2, 1)) 0) (\<lambda>um.
        and_then (view (Comp (data my_data) n) (ip_jp myg 0 0 (2, 1)) 0) (\<lambda>u0.
        and_then (lift (np_sub um u0)) (\<lambda>d.
        lift (np_mul av d))))))"

definition rk_viscosity :: "rk_kernels \<Rightarrow> ccdata \<Rightarrow> rparams \<Rightarrow> variables \<Rightarrow> nat \<Rightarrow> fluxes2 \<Rightarrow> unit prog" where
  "rk_viscosity K my_data rp ivars q F =
     (let myg = grid my_data in
     and_then (view (Whole q) (ip_jp myg 0 0 (ng myg, ng myg)) (iu ivars)) (\<lambda>u.
     and_then (view (Whole q) (ip_jp myg 0 0 (ng myg, ng myg)) (iv ivars)) (\<lambda>v.
     let av = artificial_viscosity K (qx myg) (qy myg) (ng myg) (dx myg) (dy myg) (rp_cvisc rp) u v in
     and_then (new \<lparr>shape = [qx myg, qy myg], elts = fst av\<rparr>) (\<lambda>avisco_x.
     and_then (new \<lparr>shape = [qx myg, qy myg], elts = snd av\<rparr>) (\<lambda>avisco_y.
     while_lt 0 (nvar ivars) (\<lambda>n.
       and_then (load (Comp (data my_data) n)) (\<lambda>_.
       and_then (add_viscosity myg my_data (F_x F) avisco_x (- 1) 0 n) (\<lambda>_.
       add_viscosity myg my_data (F_y F) avisco_y 0 (- 1) n))))))))"

definition fluxes :: "rk_kernels \<Rightarrow> ccdata \<Rightarrow> rparams \<Rightarrow> variables \<Rightarrow> solid \<Rightarrow> fluxes2 prog" where
  "fluxes K my_data rp ivars sol =
     and_then (rk_interface_states K my_data rp ivars) (\<lambda>S.
     and_then (rk_riemann K (grid my_data) rp ivars sol (rk_U S)) (\<lambda>F.
     and_then (rk_viscosity K my_data rp ivars (rk_q S) F) (\<lambda>_.
     and_then (tick (End ''unsplitFluxes'')) (\<lambda>_.
     ret F))))"

section \<open>Frames\<close>

text \<open>
  A computation keeps the store below \<open>n0\<close>: started with every object below \<open>n0\<close>
  allocated, it ends (normally or with an exception) in a store where those objects are
  what they were; a normal result satisfies \<open>Q\<close>.
\<close>

definition keeps :: "nat \<Rightarrow> 'a prog \<Rightarrow> ('a \<Rightarrow> bool) \<Rightarrow> bool" where
  "keeps n0 m Q \<longleftrightarrow>
     (\<forall>h. n0 \<le> nxt h \<longrightarrow>
        (case m h of (r, h') \<Rightarrow>
           n0 \<le> nxt h' \<and> (\<forall>a<n0. arr h' a = arr h a) \<and>
           (case r of Inl _ \<Rightarrow> True | Inr x \<Rightarrow> Q x)))"



section \<open>Cells\<close>

text \<open>The element \<open>k\<close> that a name denotes in a store.\<close>

fun peek :: "heap \<Rightarrow> view \<Rightarrow> int list \<Rightarrow> real" where
  "peek h (Whole a) k = elts (arr h a) k"
| "peek h (Comp a n) k = elts (arr h a) (k @ [n])"

text \<open>
  The formulas of lines 159-171 at one cell, from the conserved tuple
  \<open>(dens, xmom, ymom, ener)\<close>, and those of lines 239-243 at one cell, from the primitive
  tuple \<open>(rho, u, v, p)\<close>, in exact arithmetic, as the arrays of the store have them.
  \<open>prim_cell64\<close> and \<open>cons_cell64\<close> below are the same formulas with every operation
  rounded.
\<close>

definition prim_cell :: "kernels \<Rightarrow> real \<times> real \<times> real \<times> real \<Rightarrow> real \<times> real \<times> real \<times> real" where
  "prim_cell K c =
     (case c of (dens, xmom, ymom, ener) \<Rightarrow>
        (dens, xmom / dens, ymom / dens,
         max (pres K dens ((ener - 0.5 * (xmom ^ 2 + ymom ^ 2) / dens) / dens)) smallp))"


text \<open>The data object is in the store, with the four conserved variables among its names.\<close>

definition has_var :: "ccdata \<Rightarrow> string \<Rightarrow> bool" where
  "has_var d name = (case index_of name (names d) of None \<Rightarrow> False | Some n \<Rightarrow> n < dnvar d)"

definition var_index :: "ccdata \<Rightarrow> string \<Rightarrow> int" where
  "var_index d name = (case index_of name (names d) of None \<Rightarrow> 0 | Some n \<Rightarrow> n)"

definition data_ok :: "ccdata \<Rightarrow> heap \<Rightarrow> bool" where
  "data_ok d h \<longleftrightarrow>
     grid_ok (grid d) \<and> data d < nxt h \<and>
     shape (arr h (data d)) = [qx (grid d), qy (grid d), dnvar d] \<and>
     has_var d ''density'' \<and> has_var d ''x-momentum'' \<and>
     has_var d ''y-momentum'' \<and> has_var d ''energy''"






text \<open>The later store has the objects of the earlier one unchanged.\<close>

definition extends :: "heap \<Rightarrow> heap \<Rightarrow> bool" where
  "extends h h' \<longleftrightarrow> nxt h \<le> nxt h' \<and> (\<forall>a<nxt h. arr h' a = arr h a)"


text \<open>A flattening coefficient that is an array is in the store, with the shape of the grid.\<close>

definition xi_ok :: "grid2d \<Rightarrow> heap \<Rightarrow> xi_val \<Rightarrow> bool" where
  "xi_ok g h xi = (case xi of XiOne \<Rightarrow> True | XiArr a \<Rightarrow> a < nxt h \<and> shape (arr h a) = [qx g, qy g])"

section \<open>The cell formulas in binary64 arithmetic\<close>

text \<open>
  The arrays of this development hold real numbers: a sum or a product of two elements
  is the exact one. Where the rounding of float64 decides a statement, the formulas of
  one cell are given a second time with every operation rounded as numpy and Python
  round it: to the nearest number with a significand of 53 bits, ties to the even
  significand. A finite binary64 number is the real number it denotes. \<open>None\<close> stands for
  the results that are not normal numbers (an overflow, a subnormal result, a division by
  zero), which are not modelled.
\<close>

definition round_even :: "real \<Rightarrow> int" where
  "round_even x =
     (let f = \<lfloor>x\<rfloor>; r = x - of_int f in
      if r < 1 / 2 then f else if 1 / 2 < r then f + 1 else if even f then f else f + 1)"

text \<open>
  A positive number is scaled by powers of two into \<open>[2^52, 2^53)\<close>, rounded to an integer
  there, and scaled back; \<open>n\<close> bounds the number of scalings.
\<close>

fun rnd :: "nat \<Rightarrow> real \<Rightarrow> real option" where
  "rnd 0 x =
     (if 4503599627370496 \<le> x \<and> x < 9007199254740992 then Some (of_int (round_even x)) else None)"
| "rnd (Suc n) x =
     (if x < 4503599627370496 then map_option (\<lambda>y. y / 2) (rnd n (2 * x))
      else if 9007199254740992 \<le> x then map_option (\<lambda>y. 2 * y) (rnd n (x / 2))
      else Some (of_int (round_even x)))"

definition fl_pos :: "real \<Rightarrow> real option" where
  "fl_pos x =
     (if x < 1 / 2 ^ 1022 then None
      else case rnd 1074 x of
             None \<Rightarrow> None
           | Some y \<Rightarrow> if 2 ^ 1024 \<le> y then None else Some y)"

definition fl :: "real \<Rightarrow> real option" where
  "fl x = (if x = 0 then Some 0 else if x < 0 then map_option uminus (fl_pos (- x)) else fl_pos x)"

definition fadd :: "real \<Rightarrow> real \<Rightarrow> real option" where
  "fadd x y = fl (x + y)"

definition fsub :: "real \<Rightarrow> real \<Rightarrow> real option" where
  "fsub x y = fl (x - y)"

definition fmul :: "real \<Rightarrow> real \<Rightarrow> real option" where
  "fmul x y = fl (x * y)"

definition fdiv :: "real \<Rightarrow> real \<Rightarrow> real option" where
  "fdiv x y = (if y = 0 then None else fl (x / y))"






text \<open>A smallest grid with three ghost layers, and a store holding six arrays on it.\<close>

definition grid3 :: grid2d where
  "grid3 = \<lparr>qx = 7, qy = 7, ng = 3, ilo = 3, ihi = 3, jlo = 3, jhi = 3, dx = 1, dy = 1\<rparr>"

definition states3 :: istates where
  "states3 = \<lparr>U_xl = 0, U_xr = 1, U_yl = 2, U_yr = 3\<rparr>"

definition fluxes3 :: fluxes2 where
  "fluxes3 = \<lparr>F_x = 4, F_y = 5\<rparr>"


text \<open>A smallest grid with two ghost layers, and a store holding six arrays on it.\<close>

definition grid2 :: grid2d where
  "grid2 = \<lparr>qx = 5, qy = 5, ng = 2, ilo = 2, ihi = 2, jlo = 2, jhi = 2, dx = 1, dy = 1\<rparr>"

definition heap2 :: heap where
  "heap2 = \<lparr>nxt = 6,
     arr = (\<lambda>a. \<lparr>shape = [5, 5, 4], elts = (\<lambda>k. of_int (k ! 0 * k ! 1) + of_nat a)\<rparr>),
     timers = []\<rparr>"


text \<open>
  Modelled from the spec: the equation of state is not among the sources. Sections 1
  and 6 of the specification have a gamma-law gas with \<open>pressure(rho, e)\<close> and
  \<open>internal_energy_density(p)\<close>, functions of the one constant \<open>gamma\<close>:
  \<open>p = rho * e * (gamma - 1)\<close> and \<open>rho e = p / (gamma - 1)\<close>.
\<close>

definition gamma_law_pres :: "real \<Rightarrow> real \<Rightarrow> real \<Rightarrow> real" where
  "gamma_law_pres gamma dens e = dens * e * (gamma - 1)"

definition gamma_law_rhoe :: "real \<Rightarrow> real \<Rightarrow> real" where
  "gamma_law_rhoe gamma p = p / (gamma - 1)"

text \<open>Sample collaborators and inputs, for instances of the theorems.\<close>

definition kernels0 :: kernels where
  "kernels0 = \<lparr>pres = gamma_law_pres 1.4, rhoe = gamma_law_rhoe 1.4,
     flatten = (\<lambda>idir p u nx ny n s d z0 z1 k. 1),
     flatten_multid = (\<lambda>xx xy p nx ny n k. 1),
     limit4 = (\<lambda>idir a nx ny n k. 0),
     states = (\<lambda>idir nx ny n d dt nv gamma as. (\<lambda>k. elts (as ! 0) (take 2 k), \<lambda>k. elts (as ! 0) (take 2 k))),
     riemann = (\<lambda>idir nx ny n nv i1 i2 i3 i4 gamma l r k. elts l k - elts r k)\<rparr>"

definition rk_kernels0 :: rk_kernels where
  "rk_kernels0 = \<lparr>cons_to_prim = (\<lambda>U gamma iv g. elts U),
     rk_flatten = (\<lambda>g q idir iv rp k. 1),
     rk_flatten_multid = (\<lambda>g q xx xy iv k. 1),
     limit = (\<lambda>a g idir lim k. 1),
     prim_to_cons = (\<lambda>V gamma iv g. elts V),
     riemann_hllc = (\<lambda>idir nx ny n nv i1 i2 i3 i4 s1 s2 gamma l r k. elts l k),
     riemann_cgf = (\<lambda>idir nx ny n nv i1 i2 i3 i4 s1 s2 gamma l r k. elts r k),
     artificial_viscosity = (\<lambda>nx ny n d1 d2 c u v. (\<lambda>k. 2, \<lambda>k. 3))\<rparr>"

definition vars0 :: variables where
  "vars0 = \<lparr>nvar = 4, idens = 0, ixmom = 1, iymom = 2, iener = 3, irho = 0, iu = 1, iv = 2, ip = 3\<rparr>"

definition data0 :: ccdata where
  "data0 = \<lparr>grid = grid3, dnvar = 4,
     names = [''density'', ''x-momentum'', ''y-momentum'', ''energy''], data = 0\<rparr>"

definition heap0 :: heap where
  "heap0 = \<lparr>nxt = 1,
     arr = (\<lambda>a. \<lparr>shape = [7, 7, 4], elts = (\<lambda>k. of_int (1 + k ! 0 + 2 * k ! 2))\<rparr>),
     timers = []\<rparr>"

definition rp0 :: rparams where
  "rp0 = \<lparr>rp_gamma = 1.4, rp_use_flattening = 1, rp_limiter = 2, rp_riemann = ''HLLC'', rp_cvisc = 0.1\<rparr>"

definition solid0 :: solid where
  "solid0 = \<lparr>solid_xl = 0, solid_xr = 0, solid_yl = 0, solid_yr = 0\<rparr>"

text \<open>The same parameters with a solver name that the routine does not know.\<close>

definition rp_bad :: rparams where
  "rp_bad = rp0\<lparr>rp_riemann := ''Roe''\<rparr>"

section \<open>Verification\<close>

subsection \<open>Basic facts about the store and the loops\<close>

lemma norm_idx3:
  "0 \<le> i \<Longrightarrow> i < a \<Longrightarrow> 0 \<le> j \<Longrightarrow> j < b \<Longrightarrow> 0 \<le> n \<Longrightarrow> n < c \<Longrightarrow>
   norm_idx [a, b, c] [i, j, n] = Inr [i, j, n]"
  by (simp add: py_index_def)

lemma getitem3:
  "shape (arr h a) = [q1, q2, q3] \<Longrightarrow> 0 \<le> i \<Longrightarrow> i < q1 \<Longrightarrow> 0 \<le> j \<Longrightarrow> j < q2 \<Longrightarrow>
   0 \<le> n \<Longrightarrow> n < q3 \<Longrightarrow> getitem a [i, j, n] h = (Inr (elts (arr h a) [i, j, n]), h)"
  by (simp add: getitem_def norm_idx3 del: norm_idx.simps)

lemma setitem3:
  "shape (arr h a) = [q1, q2, q3] \<Longrightarrow> 0 \<le> i \<Longrightarrow> i < q1 \<Longrightarrow> 0 \<le> j \<Longrightarrow> j < q2 \<Longrightarrow>
   0 \<le> n \<Longrightarrow> n < q3 \<Longrightarrow> setitem a [i, j, n] v h = (Inr (), put a [i, j, n] v h)"
  by (simp add: setitem_def norm_idx3 del: norm_idx.simps)

lemma put_simps:
  "nxt (put a k v h) = nxt h"
  "timers (put a k v h) = timers h"
  "shape (arr (put a k v h) b) = shape (arr h b)"
  by (simp_all add: put_def)

lemma put_other: "b \<noteq> a \<Longrightarrow> arr (put a k v h) b = arr h b"
  by (simp add: put_def)

lemma elts_put: "elts (arr (put a k v h) b) k' = (if b = a \<and> k' = k then v else elts (arr h b) k')"
  by (simp add: put_def)

lemma and_then_Inr: "m h = (Inr x, h') \<Longrightarrow> and_then m f h = f x h'"
  by (simp add: and_then_def)

lemma and_then_Inl: "m h = (Inl e, h') \<Longrightarrow> and_then m f h = (Inl e, h')"
  by (simp add: and_then_def)

lemma py_div_ok: "y \<noteq> 0 \<Longrightarrow> py_div x y h = (Inr (x / y), h)"
  by (simp add: py_div_def ret_def)

lemma getitem_ok: "norm_idx (shape (arr h a)) k = Inr k' \<Longrightarrow> getitem a k h = (Inr (elts (arr h a) k'), h)"
  by (simp add: getitem_def)

lemma setitem_ok: "norm_idx (shape (arr h a)) k = Inr k' \<Longrightarrow> setitem a k v h = (Inr (), put a k' v h)"
  by (simp add: setitem_def)

lemma correct_one_result:
  assumes "norm_idx (shape (arr h u)) k = Inr k" "norm_idx (shape (arr h f)) k1 = Inr k1"
    "norm_idx (shape (arr h f)) k0 = Inr k0" "d \<noteq> 0"
  shows "correct_one u f dt d k k1 k0 h = (Inr (), put u k (corrected h u f (0.5 * dt / d) k k1 k0) h)"
  using assms
  by (simp add: correct_one_def and_then_def getitem_ok setitem_ok py_div_ok corrected_def)

lemma corrected_put:
  "a \<noteq> u \<Longrightarrow> a \<noteq> f \<Longrightarrow> corrected (put a k v h) u f c k' k1 k0 = corrected h u f c k' k1 k0"
  by (simp add: corrected_def put_other)

lemma correct_cell_result:
  assumes d: "distinct [U_xl A, U_xr A, U_yl A, U_yr A, F_x F, F_y F]"
    and sh: "\<forall>a \<in> {U_xl A, U_xr A, U_yl A, U_yr A, F_x F, F_y F}. shape (arr h a) = [qx g, qy g, nv]"
    and b: "0 \<le> i - 1" "i + 1 < qx g" "0 \<le> j - 1" "j + 1 < qy g" "0 \<le> n" "n < nv"
    and nz: "dx g \<noteq> 0" "dy g \<noteq> 0"
  shows "correct_cell g dt A F j i n h =
     (Inr (),
      put (U_yr A) [i, j, n] (corrected h (U_yr A) (F_x F) (0.5 * dt / dx g) [i, j, n] [i + 1, j, n] [i, j, n])
      (put (U_yl A) [i, j, n] (corrected h (U_yl A) (F_x F) (0.5 * dt / dx g) [i, j, n] [i + 1, j - 1, n] [i, j - 1, n])
      (put (U_xr A) [i, j, n] (corrected h (U_xr A) (F_y F) (0.5 * dt / dy g) [i, j, n] [i, j + 1, n] [i, j, n])
      (put (U_xl A) [i, j, n] (corrected h (U_xl A) (F_y F) (0.5 * dt / dy g) [i, j, n] [i - 1, j + 1, n] [i - 1, j, n]) h))))"
proof -
  have ix: "\<And>a b c. 0 \<le> a \<Longrightarrow> a < qx g \<Longrightarrow> 0 \<le> b \<Longrightarrow> b < qy g \<Longrightarrow>
      norm_idx [qx g, qy g, nv] [a, b, n] = Inr [a, b, n]"
    using b by (simp add: norm_idx3 del: norm_idx.simps)
  have sh': "shape (arr h (U_xl A)) = [qx g, qy g, nv]" "shape (arr h (U_xr A)) = [qx g, qy g, nv]"
    "shape (arr h (U_yl A)) = [qx g, qy g, nv]" "shape (arr h (U_yr A)) = [qx g, qy g, nv]"
    "shape (arr h (F_x F)) = [qx g, qy g, nv]" "shape (arr h (F_y F)) = [qx g, qy g, nv]"
    using sh by simp_all
  have ne: "U_xl A \<noteq> U_xr A" "U_xl A \<noteq> U_yl A" "U_xl A \<noteq> U_yr A" "U_xl A \<noteq> F_x F" "U_xl A \<noteq> F_y F"
    "U_xr A \<noteq> U_yl A" "U_xr A \<noteq> U_yr A" "U_xr A \<noteq> F_x F" "U_xr A \<noteq> F_y F"
    "U_yl A \<noteq> U_yr A" "U_yl A \<noteq> F_x F" "U_yl A \<noteq> F_y F" "U_yr A \<noteq> F_x F" "U_yr A \<noteq> F_y F"
    using d by simp_all
  show ?thesis
    using b nz
    by (simp add: correct_cell_def and_then_def correct_one_result put_simps sh' ix corrected_put ne
        del: norm_idx.simps)
qed


lemma while_le_rule:
  assumes "Inv lo h"
    and "\<And>i s. lo \<le> i \<Longrightarrow> i \<le> hi \<Longrightarrow> Inv i s \<Longrightarrow> \<exists>s'. body i s = (Inr (), s') \<and> Inv (i + 1) s'"
  shows "\<exists>h'. while_le lo hi body h = (Inr (), h') \<and> Inv (max lo (hi + 1)) h'"
  using assms
proof (induction lo hi body h rule: while_le.induct)
  case (1 i hi body h)
  show ?case
  proof (cases "i \<le> hi")
    case True
    from "1.prems"(2)[of i h] True "1.prems"(1)
    obtain s' where s': "body i h = (Inr (), s')" "Inv (i + 1) s'" by auto
    have "\<exists>h'. while_le (i + 1) hi body s' = (Inr (), h') \<and> Inv (max (i + 1) (hi + 1)) h'"
    proof (rule "1.IH"[OF True _ _ s'(2)])
      show "(Inr (), s') = body i h" using s' by simp
      show "Inr () = Inr ()" by simp
      fix k s assume "i + 1 \<le> k" "k \<le> hi" "Inv k s"
      then show "\<exists>s'. body k s = (Inr (), s') \<and> Inv (k + 1) s'"
        using "1.prems"(2)[of k s] by simp
    qed
    moreover have "max (i + 1) (hi + 1) = max i (hi + 1)" using True by simp
    ultimately show ?thesis using True s' by (subst while_le.simps) simp
  next
    case False
    then have "max i (hi + 1) = i" by simp
    with False show ?thesis using "1.prems"(1) by (subst while_le.simps) simp
  qed
qed


lemma visited_step:
  "jlo g - 2 \<le> J \<Longrightarrow> ilo g - 2 \<le> I \<Longrightarrow> I \<le> ihi g + 2 \<Longrightarrow> 0 \<le> N \<Longrightarrow> N < nv \<Longrightarrow>
   visited g nv J I (N + 1) i j n \<longleftrightarrow> visited g nv J I N i j n \<or> (i = I \<and> j = J \<and> n = N)"
  by (auto simp: visited_def)

lemma visited_self: "\<not> visited g nv J I N I J N"
  by (simp add: visited_def)

lemma visited_next_i:
  "visited g nv J I (max 0 (nv - 1 + 1)) i j n \<longleftrightarrow> visited g nv J (I + 1) 0 i j n"
  by (auto simp: visited_def)

lemma visited_next_j:
  "ilo g - 2 \<le> ihi g + 2 + 1 \<Longrightarrow>
   visited g nv J (max (ilo g - 2) (ihi g + 2 + 1)) 0 i j n \<longleftrightarrow> visited g nv (J + 1) (ilo g - 2) 0 i j n"
  by (auto simp: visited_def)

lemma visited_start: "\<not> visited g nv (jlo g - 2) (ilo g - 2) 0 i j n"
  by (auto simp: visited_def)

lemma visited_end:
  "jlo g - 2 \<le> jhi g + 2 + 1 \<Longrightarrow>
   visited g nv (max (jlo g - 2) (jhi g + 2 + 1)) (ilo g - 2) 0 i j n \<longleftrightarrow>
   jlo g - 2 \<le> j \<and> j \<le> jhi g + 2 \<and> ilo g - 2 \<le> i \<and> i \<le> ihi g + 2 \<and> 0 \<le> n \<and> n < nv"
  by (auto simp: visited_def)

lemma correct_cell_step:
  assumes g: "grid_ok g" and ng3: "3 \<le> ng g"
    and d: "distinct [U_xl A, U_xr A, U_yl A, U_yr A, F_x F, F_y F]"
    and sh: "\<forall>a \<in> {U_xl A, U_xr A, U_yl A, U_yr A, F_x F, F_y F}. shape (arr h0 a) = [qx g, qy g, nv]"
    and inv: "corrected_upto g nv dt A F h0 J I N h"
    and J: "jlo g - 2 \<le> J" "J \<le> jhi g + 2" and I: "ilo g - 2 \<le> I" "I \<le> ihi g + 2"
    and N: "0 \<le> N" "N < nv"
  shows "\<exists>h'. correct_cell g dt A F J I N h = (Inr (), h') \<and> corrected_upto g nv dt A F h0 J I (N + 1) h'"
proof -
  have b: "0 \<le> I - 1" "I + 1 < qx g" "0 \<le> J - 1" "J + 1 < qy g" "dx g \<noteq> 0" "dy g \<noteq> 0"
    using g ng3 J I by (auto simp: grid_ok_def)
  have ne: "U_xl A \<noteq> U_xr A" "U_xl A \<noteq> U_yl A" "U_xl A \<noteq> U_yr A" "U_xl A \<noteq> F_x F" "U_xl A \<noteq> F_y F"
    "U_xr A \<noteq> U_yl A" "U_xr A \<noteq> U_yr A" "U_xr A \<noteq> F_x F" "U_xr A \<noteq> F_y F"
    "U_yl A \<noteq> U_yr A" "U_yl A \<noteq> F_x F" "U_yl A \<noteq> F_y F" "U_yr A \<noteq> F_x F" "U_yr A \<noteq> F_y F"
    using d by simp_all
  from inv have shs: "\<And>a. shape (arr h a) = shape (arr h0 a)" by (simp add: corrected_upto_def)
  have shh: "\<forall>a \<in> {U_xl A, U_xr A, U_yl A, U_yr A, F_x F, F_y F}. shape (arr h a) = [qx g, qy g, nv]"
    using sh by (simp add: shs)
  from inv ne have Fx: "arr h (F_x F) = arr h0 (F_x F)" and Fy: "arr h (F_y F) = arr h0 (F_y F)"
    by (simp_all add: corrected_upto_def)
  from inv have cur:
    "elts (arr h (U_xl A)) [I, J, N] = elts (arr h0 (U_xl A)) [I, J, N]"
    "elts (arr h (U_xr A)) [I, J, N] = elts (arr h0 (U_xr A)) [I, J, N]"
    "elts (arr h (U_yl A)) [I, J, N] = elts (arr h0 (U_yl A)) [I, J, N]"
    "elts (arr h (U_yr A)) [I, J, N] = elts (arr h0 (U_yr A)) [I, J, N]"
    by (simp_all add: corrected_upto_def visited_self)
  have c: "\<And>u f c k1 k0. u \<in> {U_xl A, U_xr A, U_yl A, U_yr A} \<Longrightarrow> f \<in> {F_x F, F_y F} \<Longrightarrow>
      corrected h u f c [I, J, N] k1 k0 = corrected h0 u f c [I, J, N] k1 k0"
    using cur Fx Fy by (auto simp: corrected_def)
  let ?h' = "put (U_yr A) [I, J, N] (corrected h0 (U_yr A) (F_x F) (0.5 * dt / dx g) [I, J, N] [I + 1, J, N] [I, J, N])
      (put (U_yl A) [I, J, N] (corrected h0 (U_yl A) (F_x F) (0.5 * dt / dx g) [I, J, N] [I + 1, J - 1, N] [I, J - 1, N])
      (put (U_xr A) [I, J, N] (corrected h0 (U_xr A) (F_y F) (0.5 * dt / dy g) [I, J, N] [I, J + 1, N] [I, J, N])
      (put (U_xl A) [I, J, N] (corrected h0 (U_xl A) (F_y F) (0.5 * dt / dy g) [I, J, N] [I - 1, J + 1, N] [I - 1, J, N]) h)))"
  have res: "correct_cell g dt A F J I N h = (Inr (), ?h')"
    using correct_cell_result[OF d shh b(1-4) N b(5,6), of dt] by (simp add: c)
  have vs: "\<And>i j n. visited g nv J I (N + 1) i j n \<longleftrightarrow> visited g nv J I N i j n \<or> (i = I \<and> j = J \<and> n = N)"
    using visited_step[OF J(1) I N] by simp
  have i1: "nxt ?h' = nxt h0" "timers ?h' = timers h0" "\<forall>a. shape (arr ?h' a) = shape (arr h0 a)"
    using inv by (simp_all add: put_simps corrected_upto_def)
  have i2: "\<forall>a. a \<notin> {U_xl A, U_xr A, U_yl A, U_yr A} \<longrightarrow> arr ?h' a = arr h0 a"
    using inv by (simp add: put_other corrected_upto_def)
  have e1: "\<forall>i j n. elts (arr ?h' (U_xl A)) [i, j, n] =
        (if visited g nv J I (N + 1) i j n
         then corrected h0 (U_xl A) (F_y F) (0.5 * dt / dy g) [i, j, n] [i - 1, j + 1, n] [i - 1, j, n]
         else elts (arr h0 (U_xl A)) [i, j, n])"
    using inv ne by (auto simp: elts_put vs corrected_upto_def visited_self)
  have e2: "\<forall>i j n. elts (arr ?h' (U_xr A)) [i, j, n] =
        (if visited g nv J I (N + 1) i j n
         then corrected h0 (U_xr A) (F_y F) (0.5 * dt / dy g) [i, j, n] [i, j + 1, n] [i, j, n]
         else elts (arr h0 (U_xr A)) [i, j, n])"
    using inv ne by (auto simp: elts_put vs corrected_upto_def visited_self)
  have e3: "\<forall>i j n. elts (arr ?h' (U_yl A)) [i, j, n] =
        (if visited g nv J I (N + 1) i j n
         then corrected h0 (U_yl A) (F_x F) (0.5 * dt / dx g) [i, j, n] [i + 1, j - 1, n] [i, j - 1, n]
         else elts (arr h0 (U_yl A)) [i, j, n])"
    using inv ne by (auto simp: elts_put vs corrected_upto_def visited_self)
  have e4: "\<forall>i j n. elts (arr ?h' (U_yr A)) [i, j, n] =
        (if visited g nv J I (N + 1) i j n
         then corrected h0 (U_yr A) (F_x F) (0.5 * dt / dx g) [i, j, n] [i + 1, j, n] [i, j, n]
         else elts (arr h0 (U_yr A)) [i, j, n])"
    using inv ne by (auto simp: elts_put vs corrected_upto_def visited_self)
  have "corrected_upto g nv dt A F h0 J I (N + 1) ?h'"
    unfolding corrected_upto_def using i1 i2 e1 e2 e3 e4 by blast
  with res show ?thesis by blast
qed


lemma correct_cells_n:
  assumes g: "grid_ok g" and ng3: "3 \<le> ng g"
    and d: "distinct [U_xl A, U_xr A, U_yl A, U_yr A, F_x F, F_y F]"
    and sh: "\<forall>a \<in> {U_xl A, U_xr A, U_yl A, U_yr A, F_x F, F_y F}. shape (arr h0 a) = [qx g, qy g, nv]"
    and inv: "corrected_upto g nv dt A F h0 J I 0 h"
    and J: "jlo g - 2 \<le> J" "J \<le> jhi g + 2" and I: "ilo g - 2 \<le> I" "I \<le> ihi g + 2"
  shows "\<exists>h'. while_lt 0 nv (correct_cell g dt A F J I) h = (Inr (), h') \<and>
     corrected_upto g nv dt A F h0 J (I + 1) 0 h'"
proof -
  have "\<exists>h'. while_le 0 (nv - 1) (correct_cell g dt A F J I) h = (Inr (), h') \<and>
      corrected_upto g nv dt A F h0 J I (max 0 (nv - 1 + 1)) h'"
    by (rule while_le_rule[where Inv = "corrected_upto g nv dt A F h0 J I", OF inv])
       (rule correct_cell_step[OF g ng3 d sh _ J I], simp_all)
  moreover have "\<And>h'. corrected_upto g nv dt A F h0 J I (max 0 (nv - 1 + 1)) h' =
      corrected_upto g nv dt A F h0 J (I + 1) 0 h'"
    unfolding corrected_upto_def visited_next_i ..
  ultimately show ?thesis by (simp add: while_lt_def)
qed

lemma correct_row_step:
  assumes g: "grid_ok g" and ng3: "3 \<le> ng g"
    and d: "distinct [U_xl A, U_xr A, U_yl A, U_yr A, F_x F, F_y F]"
    and sh: "\<forall>a \<in> {U_xl A, U_xr A, U_yl A, U_yr A, F_x F, F_y F}. shape (arr h0 a) = [qx g, qy g, nv]"
    and inv: "corrected_upto g nv dt A F h0 J (ilo g - 2) 0 h"
    and J: "jlo g - 2 \<le> J" "J \<le> jhi g + 2"
  shows "\<exists>h'. correct_row g nv dt A F J h = (Inr (), h') \<and>
     corrected_upto g nv dt A F h0 (J + 1) (ilo g - 2) 0 h'"
proof -
  have le: "ilo g - 2 \<le> ihi g + 2 + 1" using g by (simp add: grid_ok_def)
  have "\<exists>h'. while_le (ilo g - 2) (ihi g + 2) (\<lambda>i. while_lt 0 nv (correct_cell g dt A F J i)) h = (Inr (), h') \<and>
      corrected_upto g nv dt A F h0 J (max (ilo g - 2) (ihi g + 2 + 1)) 0 h'"
    by (rule while_le_rule[where Inv = "\<lambda>i. corrected_upto g nv dt A F h0 J i 0", OF inv])
       (rule correct_cells_n[OF g ng3 d sh _ J], simp_all)
  moreover have "\<And>h'. corrected_upto g nv dt A F h0 J (max (ilo g - 2) (ihi g + 2 + 1)) 0 h' =
      corrected_upto g nv dt A F h0 (J + 1) (ilo g - 2) 0 h'"
    unfolding corrected_upto_def visited_next_j[OF le] ..
  ultimately show ?thesis by (simp add: correct_row_def)
qed

lemma corrected_upto_start: "corrected_upto g nv dt A F h (jlo g - 2) (ilo g - 2) 0 h"
  by (simp add: corrected_upto_def visited_start)

lemma transverse_correct_inv:
  assumes g: "grid_ok g" and ng3: "3 \<le> ng g"
    and d: "distinct [U_xl A, U_xr A, U_yl A, U_yr A, F_x F, F_y F]"
    and sh: "\<forall>a \<in> {U_xl A, U_xr A, U_yl A, U_yr A, F_x F, F_y F}. shape (arr h a) = [qx g, qy g, nv]"
  shows "\<exists>h'. transverse_correct g nv dt A F h = (Inr (), h') \<and>
     corrected_upto g nv dt A F h (jhi g + 2 + 1) (ilo g - 2) 0 h'"
proof -
  have le: "jlo g - 2 \<le> jhi g + 2 + 1" using g by (simp add: grid_ok_def)
  then have m: "max (jlo g - 2) (jhi g + 2 + 1) = jhi g + 2 + 1" by simp
  have "\<exists>h'. while_le (jlo g - 2) (jhi g + 2) (correct_row g nv dt A F) h = (Inr (), h') \<and>
      corrected_upto g nv dt A F h (max (jlo g - 2) (jhi g + 2 + 1)) (ilo g - 2) 0 h'"
    by (rule while_le_rule[where Inv = "\<lambda>j. corrected_upto g nv dt A F h j (ilo g - 2) 0",
          OF corrected_upto_start])
       (rule correct_row_step[OF g ng3 d sh], simp_all)
  then show ?thesis unfolding transverse_correct_def m .
qed

lemma visited_all:
  "visited g nv (jhi g + 2 + 1) (ilo g - 2) 0 i j n \<longleftrightarrow>
   jlo g - 2 \<le> j \<and> j \<le> jhi g + 2 \<and> ilo g - 2 \<le> i \<and> i \<le> ihi g + 2 \<and> 0 \<le> n \<and> n < nv"
  by (auto simp: visited_def)

lemma transverse_correct_spec:
  assumes g: "grid_ok g" and ng3: "3 \<le> ng g"
    and d: "distinct [U_xl A, U_xr A, U_yl A, U_yr A, F_x F, F_y F]"
    and sh: "\<forall>a \<in> {U_xl A, U_xr A, U_yl A, U_yr A, F_x F, F_y F}. shape (arr h a) = [qx g, qy g, nv]"
  shows "\<exists>h'. transverse_correct g nv dt A F h = (Inr (), h') \<and>
     arr h' (F_x F) = arr h (F_x F) \<and> arr h' (F_y F) = arr h (F_y F) \<and>
     (\<forall>i j n. ilo g - 2 \<le> i \<and> i \<le> ihi g + 2 \<and> jlo g - 2 \<le> j \<and> j \<le> jhi g + 2 \<and> 0 \<le> n \<and> n < nv \<longrightarrow>
        elts (arr h' (U_xl A)) [i, j, n] =
          elts (arr h (U_xl A)) [i, j, n] -
            0.5 * dt / dy g * (elts (arr h (F_y F)) [i - 1, j + 1, n] - elts (arr h (F_y F)) [i - 1, j, n]) \<and>
        elts (arr h' (U_xr A)) [i, j, n] =
          elts (arr h (U_xr A)) [i, j, n] -
            0.5 * dt / dy g * (elts (arr h (F_y F)) [i, j + 1, n] - elts (arr h (F_y F)) [i, j, n]) \<and>
        elts (arr h' (U_yl A)) [i, j, n] =
          elts (arr h (U_yl A)) [i, j, n] -
            0.5 * dt / dx g * (elts (arr h (F_x F)) [i + 1, j - 1, n] - elts (arr h (F_x F)) [i, j - 1, n]) \<and>
        elts (arr h' (U_yr A)) [i, j, n] =
          elts (arr h (U_yr A)) [i, j, n] -
            0.5 * dt / dx g * (elts (arr h (F_x F)) [i + 1, j, n] - elts (arr h (F_x F)) [i, j, n]))"
proof -
  from transverse_correct_inv[OF g ng3 d sh, of dt]
  obtain h' where r: "transverse_correct g nv dt A F h = (Inr (), h')"
    and inv: "corrected_upto g nv dt A F h (jhi g + 2 + 1) (ilo g - 2) 0 h'" by blast
  from inv have "\<forall>a. a \<notin> {U_xl A, U_xr A, U_yl A, U_yr A} \<longrightarrow> arr h' a = arr h a"
    by (simp add: corrected_upto_def)
  with d have "arr h' (F_x F) = arr h (F_x F)" "arr h' (F_y F) = arr h (F_y F)"
    by auto
  moreover have "\<forall>i j n. ilo g - 2 \<le> i \<and> i \<le> ihi g + 2 \<and> jlo g - 2 \<le> j \<and> j \<le> jhi g + 2 \<and> 0 \<le> n \<and> n < nv \<longrightarrow>
        elts (arr h' (U_xl A)) [i, j, n] =
          elts (arr h (U_xl A)) [i, j, n] -
            0.5 * dt / dy g * (elts (arr h (F_y F)) [i - 1, j + 1, n] - elts (arr h (F_y F)) [i - 1, j, n]) \<and>
        elts (arr h' (U_xr A)) [i, j, n] =
          elts (arr h (U_xr A)) [i, j, n] -
            0.5 * dt / dy g * (elts (arr h (F_y F)) [i, j + 1, n] - elts (arr h (F_y F)) [i, j, n]) \<and>
        elts (arr h' (U_yl A)) [i, j, n] =
          elts (arr h (U_yl A)) [i, j, n] -
            0.5 * dt / dx g * (elts (arr h (F_x F)) [i + 1, j - 1, n] - elts (arr h (F_x F)) [i, j - 1, n]) \<and>
        elts (arr h' (U_yr A)) [i, j, n] =
          elts (arr h (U_yr A)) [i, j, n] -
            0.5 * dt / dx g * (elts (arr h (F_x F)) [i + 1, j, n] - elts (arr h (F_x F)) [i, j, n])"
    using inv unfolding corrected_upto_def visited_all corrected_def by simp
  ultimately show ?thesis using r by blast
qed



lemma norm_idx_err: "norm_idx s k = Inl e \<Longrightarrow> e = IndexError"
  by (induction s k rule: norm_idx.induct)
     (auto simp: py_index_def split: if_splits sum.splits)

lemma correct_one_cases:
  assumes "d \<noteq> 0"
  shows "(\<exists>k' v. correct_one u f dt d k k1 k0 h = (Inr (), put u k' v h)) \<or>
         correct_one u f dt d k k1 k0 h = (Inl IndexError, h)"
  using assms
  by (auto simp: correct_one_def and_then_def getitem_def setitem_def py_div_def ret_def
      dest: norm_idx_err split: sum.splits)

lemma correct_one_fail:
  assumes "d \<noteq> 0" "norm_idx (shape (arr h f)) k1 = Inl e"
  shows "correct_one u f dt d k k1 k0 h = (Inl IndexError, h)"
  using assms
  by (auto simp: correct_one_def and_then_def getitem_def setitem_def py_div_def ret_def
      dest: norm_idx_err split: sum.splits)

lemma shaped_put: "shaped g nv A F (put a k v h) = shaped g nv A F h"
  by (simp add: shaped_def put_simps)

lemma correct_cell_cases:
  assumes "dx g \<noteq> 0" "dy g \<noteq> 0" "shaped g nv A F h"
  shows "(\<exists>h'. correct_cell g dt A F j i n h = (Inr (), h') \<and> shaped g nv A F h') \<or>
         (\<exists>h'. correct_cell g dt A F j i n h = (Inl IndexError, h'))"
proof -
  note c = correct_one_cases
  show ?thesis
    unfolding correct_cell_def
    using c[OF assms(2), of "U_xl A" "F_y F" dt "[i, j, n]" "[i - 1, j + 1, n]" "[i - 1, j, n]" h]
    apply (elim disjE exE)
     prefer 2 apply (simp add: and_then_def)
    subgoal for k1 v1
      using c[OF assms(2), of "U_xr A" "F_y F" dt "[i, j, n]" "[i, j + 1, n]" "[i, j, n]" "put (U_xl A) k1 v1 h"]
      apply (elim disjE exE)
       prefer 2 apply (simp add: and_then_def)
      subgoal for k2 v2
        using c[OF assms(1), of "U_yl A" "F_x F" dt "[i, j, n]" "[i + 1, j - 1, n]" "[i, j - 1, n]"
            "put (U_xr A) k2 v2 (put (U_xl A) k1 v1 h)"]
        apply (elim disjE exE)
         prefer 2 apply (simp add: and_then_def)
        subgoal for k3 v3
          using c[OF assms(1), of "U_yr A" "F_x F" dt "[i, j, n]" "[i + 1, j, n]" "[i, j, n]"
              "put (U_yl A) k3 v3 (put (U_xr A) k2 v2 (put (U_xl A) k1 v1 h))"] assms(3)
          apply (elim disjE exE)
           apply (simp_all add: and_then_def shaped_put)
          done
        done
      done
    done
qed

lemma correct_one_shaped:
  assumes "d \<noteq> 0" "shaped g nv A F h"
  shows "(\<exists>h'. correct_one u f dt d k k1 k0 h = (Inr (), h') \<and> shaped g nv A F h') \<or>
         correct_one u f dt d k k1 k0 h = (Inl IndexError, h)"
  using correct_one_cases[OF assms(1), of u f dt k k1 k0 h] assms(2)
  by (auto simp: shaped_put)

lemma correct_cell_fail:
  assumes nz: "dx g \<noteq> 0" "dy g \<noteq> 0" and sh: "shaped g nv A F h" and big: "qx g \<le> i + 1" "0 \<le> i"
  shows "\<exists>h'. correct_cell g dt A F j i n h = (Inl IndexError, h')"
proof -
  have bad: "\<And>s. shaped g nv A F s \<Longrightarrow>
      correct_one (U_yl A) (F_x F) dt (dx g) [i, j, n] [i + 1, j - 1, n] [i, j - 1, n] s = (Inl IndexError, s)"
  proof -
    fix s assume "shaped g nv A F s"
    then have "norm_idx (shape (arr s (F_x F))) [i + 1, j - 1, n] = Inl IndexError"
      using big by (simp add: shaped_def py_index_def)
    from correct_one_fail[OF nz(1) this]
    show "correct_one (U_yl A) (F_x F) dt (dx g) [i, j, n] [i + 1, j - 1, n] [i, j - 1, n] s = (Inl IndexError, s)" .
  qed
  from correct_one_shaped[OF nz(2) sh, of "U_xl A" "F_y F" dt "[i, j, n]" "[i - 1, j + 1, n]" "[i - 1, j, n]"]
  show ?thesis
  proof (elim disjE exE conjE)
    fix h1 assume 1: "correct_one (U_xl A) (F_y F) dt (dy g) [i, j, n] [i - 1, j + 1, n] [i - 1, j, n] h = (Inr (), h1)"
      and s1: "shaped g nv A F h1"
    from correct_one_shaped[OF nz(2) s1, of "U_xr A" "F_y F" dt "[i, j, n]" "[i, j + 1, n]" "[i, j, n]"]
    show ?thesis
    proof (elim disjE exE conjE)
      fix h2 assume 2: "correct_one (U_xr A) (F_y F) dt (dy g) [i, j, n] [i, j + 1, n] [i, j, n] h1 = (Inr (), h2)"
        and s2: "shaped g nv A F h2"
      show ?thesis using 1 2 bad[OF s2] by (simp add: correct_cell_def and_then_def)
    next
      assume "correct_one (U_xr A) (F_y F) dt (dy g) [i, j, n] [i, j + 1, n] [i, j, n] h1 = (Inl IndexError, h1)"
      then show ?thesis using 1 by (simp add: correct_cell_def and_then_def)
    qed
  next
    assume "correct_one (U_xl A) (F_y F) dt (dy g) [i, j, n] [i - 1, j + 1, n] [i - 1, j, n] h = (Inl IndexError, h)"
    then show ?thesis by (simp add: correct_cell_def and_then_def)
  qed
qed

lemma while_le_cases:
  assumes "Inv h"
    and "\<And>i s. lo \<le> i \<Longrightarrow> i \<le> hi \<Longrightarrow> Inv s \<Longrightarrow>
           (\<exists>s'. body i s = (Inr (), s') \<and> Inv s') \<or> (\<exists>s'. body i s = (Inl E, s'))"
  shows "(\<exists>h'. while_le lo hi body h = (Inr (), h') \<and> Inv h') \<or> (\<exists>h'. while_le lo hi body h = (Inl E, h'))"
  using assms
proof (induction lo hi body h rule: while_le.induct)
  case (1 i hi body h)
  show ?case
  proof (cases "i \<le> hi")
    case True
    from "1.prems"(2)[of i h] True "1.prems"(1)
    consider s' where "body i h = (Inr (), s')" "Inv s'" | s' where "body i h = (Inl E, s')" by auto
    then show ?thesis
    proof cases
      case 1
      have "(\<exists>h'. while_le (i + 1) hi body s' = (Inr (), h') \<and> Inv h') \<or>
            (\<exists>h'. while_le (i + 1) hi body s' = (Inl E, h'))"
      proof (rule "1.IH"[OF True _ _ 1(2)])
        show "(Inr (), s') = body i h" using 1 by simp
        show "Inr () = Inr ()" by simp
        fix k s assume "i + 1 \<le> k" "k \<le> hi" "Inv s"
        then show "(\<exists>s'. body k s = (Inr (), s') \<and> Inv s') \<or> (\<exists>s'. body k s = (Inl E, s'))"
          using "1.prems"(2)[of k s] by simp
      qed
      then show ?thesis using True 1 by (subst (1 2) while_le.simps) simp
    next
      case 2
      then show ?thesis using True by (subst (1 2) while_le.simps) simp
    qed
  next
    case False
    then show ?thesis using "1.prems"(1) by (subst while_le.simps) simp
  qed
qed

lemma while_le_fails:
  assumes "Inv h" "lo \<le> k" "k \<le> hi"
    and "\<And>i s. lo \<le> i \<Longrightarrow> i \<le> hi \<Longrightarrow> Inv s \<Longrightarrow>
           (\<exists>s'. body i s = (Inr (), s') \<and> Inv s') \<or> (\<exists>s'. body i s = (Inl E, s'))"
    and "\<And>s. Inv s \<Longrightarrow> \<exists>s'. body k s = (Inl E, s')"
  shows "\<exists>h'. while_le lo hi body h = (Inl E, h')"
  using assms
proof (induction lo hi body h rule: while_le.induct)
  case (1 i hi body h)
  have le: "i \<le> hi" using "1.prems" by simp
  show ?case
  proof (cases "i = k")
    case True
    with "1.prems"(5)[OF "1.prems"(1)] le show ?thesis by (subst while_le.simps) auto
  next
    case False
    from "1.prems"(4)[of i h] le "1.prems"(1)
    consider s' where "body i h = (Inr (), s')" "Inv s'" | s' where "body i h = (Inl E, s')" by auto
    then show ?thesis
    proof cases
      case 1
      have "\<exists>h'. while_le (i + 1) hi body s' = (Inl E, h')"
      proof (rule "1.IH"[OF le _ _ 1(2)])
        show "(Inr (), s') = body i h" using 1 by simp
        show "Inr () = Inr ()" by simp
        show "i + 1 \<le> k" using False "1.prems" by simp
        show "k \<le> hi" using "1.prems" by simp
        fix j s assume "i + 1 \<le> j" "j \<le> hi" "Inv s"
        then show "(\<exists>s'. body j s = (Inr (), s') \<and> Inv s') \<or> (\<exists>s'. body j s = (Inl E, s'))"
          using "1.prems"(4)[of j s] by simp
      next
        fix s assume "Inv s" then show "\<exists>s'. body k s = (Inl E, s')" using "1.prems"(5) by simp
      qed
      then show ?thesis using le 1 by (subst while_le.simps) simp
    next
      case 2
      then show ?thesis using le by (subst while_le.simps) simp
    qed
  qed
qed

lemma transverse_correct_fails:
  assumes g: "grid_ok g" and ng2: "ng g < 3" and nv: "0 < nv" and sh: "shaped g nv A F h"
  shows "\<exists>h'. transverse_correct g nv dt A F h = (Inl IndexError, h')"
proof -
  have nz: "dx g \<noteq> 0" "dy g \<noteq> 0" using g by (auto simp: grid_ok_def)
  have big: "qx g \<le> ihi g + 2 + 1" "0 \<le> ihi g + 2" "ilo g - 2 \<le> ihi g + 2" "jlo g - 2 \<le> jhi g + 2"
    using g ng2 by (auto simp: grid_ok_def)
  have cellc: "\<And>j i n s. shaped g nv A F s \<Longrightarrow>
      (\<exists>s'. correct_cell g dt A F j i n s = (Inr (), s') \<and> shaped g nv A F s') \<or>
      (\<exists>s'. correct_cell g dt A F j i n s = (Inl IndexError, s'))"
    using correct_cell_cases[OF nz] by blast
  have nloopc: "\<And>j i s. shaped g nv A F s \<Longrightarrow>
      (\<exists>s'. while_lt 0 nv (correct_cell g dt A F j i) s = (Inr (), s') \<and> shaped g nv A F s') \<or>
      (\<exists>s'. while_lt 0 nv (correct_cell g dt A F j i) s = (Inl IndexError, s'))"
    unfolding while_lt_def
    by (rule while_le_cases[where Inv = "shaped g nv A F"]) (simp_all add: cellc)
  have nloopf: "\<And>j s. shaped g nv A F s \<Longrightarrow>
      \<exists>s'. while_lt 0 nv (correct_cell g dt A F j (ihi g + 2)) s = (Inl IndexError, s')"
    unfolding while_lt_def
    apply (rule while_le_fails[where Inv = "shaped g nv A F" and k = 0])
    using nv apply (simp_all add: cellc)
    using correct_cell_fail[OF nz _ big(1,2)] by blast
  have rowc: "\<And>j s. shaped g nv A F s \<Longrightarrow>
      (\<exists>s'. correct_row g nv dt A F j s = (Inr (), s') \<and> shaped g nv A F s') \<or>
      (\<exists>s'. correct_row g nv dt A F j s = (Inl IndexError, s'))"
    unfolding correct_row_def
    by (rule while_le_cases[where Inv = "shaped g nv A F"]) (simp_all add: nloopc)
  have rowf: "\<And>j s. shaped g nv A F s \<Longrightarrow> \<exists>s'. correct_row g nv dt A F j s = (Inl IndexError, s')"
    unfolding correct_row_def
    apply (rule while_le_fails[where Inv = "shaped g nv A F" and k = "ihi g + 2"])
    using big apply (simp_all add: nloopc nloopf)
    done
  show ?thesis
    unfolding transverse_correct_def
    apply (rule while_le_fails[where Inv = "shaped g nv A F" and k = "jlo g - 2"])
    using big sh apply (simp_all add: rowc rowf)
    done
qed

subsection \<open>Frame rules\<close>

lemma keeps_ret: "Q x \<Longrightarrow> keeps n0 (ret x) Q"
  by (simp add: keeps_def ret_def)

lemma keeps_raise: "keeps n0 (raise e) Q"
  by (simp add: keeps_def raise_def)

lemma keeps_lift: "keeps n0 (lift r) (\<lambda>_. True)"
  by (simp add: keeps_def lift_def split: sum.splits)

lemma keeps_tick: "keeps n0 (tick e) (\<lambda>_. True)"
  by (simp add: keeps_def tick_def)

lemma keeps_load: "keeps n0 (load v) (\<lambda>_. True)"
  by (cases v) (simp_all add: keeps_def load.simps split: sum.splits)

lemma keeps_new: "keeps n0 (new A) (\<lambda>a. n0 \<le> a)"
  by (simp add: keeps_def new_def alloc_def)

lemma keeps_np_zeros: "keeps n0 (np_zeros s) (\<lambda>a. n0 \<le> a)"
  by (simp add: np_zeros_def keeps_raise keeps_new)

lemma keeps_getitem: "keeps n0 (getitem a k) (\<lambda>_. True)"
  by (simp add: keeps_def getitem_def split: sum.splits)

lemma keeps_setitem: "n0 \<le> a \<Longrightarrow> keeps n0 (setitem a k v) (\<lambda>_. True)"
  by (auto simp: keeps_def setitem_def put_def split: sum.splits)

lemma keeps_set_plane: "n0 \<le> a \<Longrightarrow> keeps n0 (set_plane a n R) (\<lambda>_. True)"
  by (auto simp: keeps_def set_plane_def store_def Let_def split: sum.splits)

lemma keeps_py_div: "keeps n0 (py_div x y) (\<lambda>_. True)"
  by (simp add: py_div_def keeps_raise keeps_ret)

lemma keeps_and_then:
  assumes "keeps n0 m P" and "\<And>x. P x \<Longrightarrow> keeps n0 (f x) Q"
  shows "keeps n0 (and_then m f) Q"
  unfolding keeps_def
proof (intro allI impI)
  fix h :: heap assume h: "n0 \<le> nxt h"
  obtain r h1 where m: "m h = (r, h1)" by (cases "m h")
  from assms(1) h m have 1: "n0 \<le> nxt h1" "\<forall>a<n0. arr h1 a = arr h a" "case r of Inl _ \<Rightarrow> True | Inr x \<Rightarrow> P x"
    by (auto simp: keeps_def)
  show "case and_then m f h of (r, h') \<Rightarrow>
           n0 \<le> nxt h' \<and> (\<forall>a<n0. arr h' a = arr h a) \<and> (case r of Inl _ \<Rightarrow> True | Inr x \<Rightarrow> Q x)"
  proof (cases r)
    case (Inl e)
    then show ?thesis using m 1 by (simp add: and_then_def)
  next
    case (Inr x)
    with 1 have "P x" by simp
    from assms(2)[OF this] 1(1) have "case f x h1 of (r, h') \<Rightarrow>
           n0 \<le> nxt h' \<and> (\<forall>a<n0. arr h' a = arr h1 a) \<and> (case r of Inl _ \<Rightarrow> True | Inr x \<Rightarrow> Q x)"
      by (simp add: keeps_def)
    then show ?thesis using m Inr 1(2) by (auto simp: and_then_def split: prod.splits)
  qed
qed

lemma keeps_weaken: "keeps n0 m P \<Longrightarrow> (\<And>x. P x \<Longrightarrow> Q x) \<Longrightarrow> keeps n0 m Q"
  by (auto simp: keeps_def split: prod.splits sum.splits)

lemma keeps_while_le:
  assumes "\<And>i. keeps n0 (body i) (\<lambda>_. True)"
  shows "keeps n0 (while_le lo hi body) (\<lambda>_. True)"
proof -
  have w: "n0 \<le> nxt h \<Longrightarrow> n0 \<le> nxt (snd (while_le lo hi body h)) \<and>
        (\<forall>a<n0. arr (snd (while_le lo hi body h)) a = arr h a)" for h
    using assms
  proof (induction lo hi body h rule: while_le.induct)
    case (1 i hi body h)
    show ?case
    proof (cases "i \<le> hi")
      case False
      then show ?thesis using "1.prems" by (subst (1 2) while_le.simps) simp
    next
      case True
      obtain r h1 where b: "body i h = (r, h1)" by (cases "body i h")
      from "1.prems"(2)[of i] "1.prems"(1) b have k: "n0 \<le> nxt h1" "\<forall>a<n0. arr h1 a = arr h a"
        by (auto simp: keeps_def)
      show ?thesis
      proof (cases r)
        case (Inl e)
        then show ?thesis using True b k by (subst (1 2) while_le.simps) simp
      next
        case (Inr u)
        have "n0 \<le> nxt (snd (while_le (i + 1) hi body h1)) \<and>
              (\<forall>a<n0. arr (snd (while_le (i + 1) hi body h1)) a = arr h1 a)"
        proof (rule "1.IH"[OF True _ _ k(1)])
          show "(Inr u, h1) = body i h" using b Inr by simp
          show "Inr u = Inr u" by simp
          fix j show "keeps n0 (body j) (\<lambda>_. True)" by (rule "1.prems"(2))
        qed
        then show ?thesis using True b k Inr by (subst (1 2) while_le.simps) simp
      qed
    qed
  qed
  show ?thesis
    unfolding keeps_def
  proof (intro allI impI)
    fix h :: heap assume "n0 \<le> nxt h"
    from w[OF this] show "case while_le lo hi body h of (r, h') \<Rightarrow>
        n0 \<le> nxt h' \<and> (\<forall>a<n0. arr h' a = arr h a) \<and> (case r of Inl _ \<Rightarrow> True | Inr x \<Rightarrow> True)"
      by (cases "while_le lo hi body h") (simp split: sum.splits)
  qed
qed

lemma keeps_while_lt:
  assumes "\<And>i. keeps n0 (body i) (\<lambda>_. True)"
  shows "keeps n0 (while_lt lo hi body) (\<lambda>_. True)"
  unfolding while_lt_def using assms by (rule keeps_while_le)

lemma keeps_then:
  assumes "keeps n0 m (\<lambda>_. True)" and "\<And>x. keeps n0 (f x) Q"
  shows "keeps n0 (and_then m f) Q"
  using assms by (auto intro: keeps_and_then)

lemma keeps_eval2: "keeps n0 (eval2 f x y) (\<lambda>a. n0 \<le> a)"
  unfolding eval2_def
  by (intro keeps_then keeps_load keeps_lift keeps_new)

lemma keeps_getVarPtr: "keeps n0 (getVarPtr d name) (\<lambda>_. True)"
proof (cases "index_of name (names d)")
  case None
  then show ?thesis by (simp add: getVarPtr_def keeps_raise)
next
  case (Some n)
  have "keeps n0 (and_then (load (Comp (data d) n)) (\<lambda>_. ret (Comp (data d) n))) (\<lambda>_. True)"
    by (intro keeps_then keeps_load keeps_ret) simp
  with Some show ?thesis by (simp add: getVarPtr_def)
qed

lemma keeps_correct_one: "n0 \<le> u \<Longrightarrow> keeps n0 (correct_one u f dt d k k1 k0) (\<lambda>_. True)"
  unfolding correct_one_def
  by (intro keeps_then keeps_getitem keeps_py_div keeps_setitem)

lemma keeps_transverse_correct:
  assumes "n0 \<le> U_xl A" "n0 \<le> U_xr A" "n0 \<le> U_yl A" "n0 \<le> U_yr A"
  shows "keeps n0 (transverse_correct g nv dt A F) (\<lambda>_. True)"
  unfolding transverse_correct_def correct_row_def correct_cell_def
  by (intro keeps_while_le keeps_while_lt keeps_then keeps_correct_one assms)

lemma keeps_primitive_variables: "keeps n0 (primitive_variables K myData) (\<lambda>_. True)"
  unfolding primitive_variables_def
  by (intro keeps_then keeps_getVarPtr keeps_eval2[THEN keeps_weaken] keeps_load keeps_lift
      keeps_new[THEN keeps_weaken] keeps_ret) simp_all

subsection \<open>The frames of the phases\<close>

lemmas keeps_skip = keeps_then[OF keeps_tick] keeps_then[OF keeps_load] keeps_then[OF keeps_lift]
  keeps_then[OF keeps_getVarPtr] keeps_then[OF keeps_getitem] keeps_then[OF keeps_py_div]

lemmas keeps_fresh = keeps_and_then[OF keeps_np_zeros] keeps_and_then[OF keeps_new]
  keeps_and_then[OF keeps_eval2]

lemma keeps_flattening: "keeps n0 (flattening K myg Q) (\<lambda>a. n0 \<le> a)"
  unfolding flattening_def
  by (intro keeps_skip keeps_fresh keeps_new)

lemma keeps_limited: "keeps n0 (limited K myg idir xi a) (\<lambda>a. n0 \<le> a)"
  unfolding limited_def
  by (intro keeps_skip keeps_fresh keeps_new)

lemma keeps_limiting: "keeps n0 (limiting K myg idir xi Q) (\<lambda>_. True)"
  unfolding limiting_def
  by (intro keeps_and_then[OF keeps_limited] keeps_ret) simp

lemma keeps_predict:
  "keeps n0 (predict K myg vars gamma dt idir d Q L) (\<lambda>V. n0 \<le> fst V \<and> n0 \<le> snd V)"
  unfolding predict_def Let_def
  by (intro keeps_skip keeps_fresh keeps_ret) simp

lemma keeps_to_conserved: "n0 \<le> U \<Longrightarrow> keeps n0 (to_conserved K vars U V) (\<lambda>_. True)"
  unfolding to_conserved_def
  by (intro keeps_skip keeps_then[OF keeps_set_plane] keeps_set_plane)

lemma keeps_conserve:
  "keeps n0 (conserve K myg myData vars V_l V_r) (\<lambda>U. n0 \<le> fst U \<and> n0 \<le> snd U)"
  unfolding conserve_def
  by (intro keeps_fresh keeps_then[OF keeps_to_conserved] keeps_ret) simp_all

lemma keeps_x_direction:
  "keeps n0 (x_direction K myData vars gamma dt xi Q) (\<lambda>U. n0 \<le> fst U \<and> n0 \<le> snd U)"
  unfolding x_direction_def Let_def
  apply (intro keeps_skip keeps_fresh keeps_then[OF keeps_limiting] keeps_and_then[OF keeps_predict])
  apply (clarsimp split: prod.splits)
  apply (intro keeps_skip keeps_conserve)
  done

lemma keeps_y_direction:
  "keeps n0 (y_direction K myData vars gamma dt xi Q) (\<lambda>U. n0 \<le> fst U \<and> n0 \<le> snd U)"
  unfolding y_direction_def Let_def
  apply (intro keeps_skip keeps_fresh keeps_then[OF keeps_limiting] keeps_and_then[OF keeps_predict])
  apply (clarsimp split: prod.splits)
  apply (intro keeps_skip keeps_conserve)
  done

lemma keeps_riemann_pass:
  "keeps n0 (riemann_pass K myg vars gamma A) (\<lambda>F. n0 \<le> F_x F \<and> n0 \<le> F_y F)"
  unfolding riemann_pass_def
  by (intro keeps_skip keeps_fresh keeps_ret) simp

lemma keeps_states_from:
  "keeps n0 (states_from K vars gamma myData dt Q)
     (\<lambda>A. n0 \<le> U_xl A \<and> n0 \<le> U_xr A \<and> n0 \<le> U_yl A \<and> n0 \<le> U_yr A)"
  unfolding states_from_def
  apply (intro keeps_and_then[OF keeps_flattening] keeps_and_then[OF keeps_x_direction])
  apply (clarsimp split: prod.splits)
  apply (intro keeps_and_then[OF keeps_y_direction])
  apply (clarsimp split: prod.splits)
  apply (rule keeps_ret)
  apply simp
  done

lemma keeps_interface_states:
  "keeps n0 (interface_states K vars gamma myData dt)
     (\<lambda>A. n0 \<le> U_xl A \<and> n0 \<le> U_xr A \<and> n0 \<le> U_yl A \<and> n0 \<le> U_yr A)"
  unfolding interface_states_def
  by (intro keeps_then[OF keeps_primitive_variables] keeps_states_from)

lemma keeps_transverse_fluxes: "keeps n0 (transverse_fluxes K myg vars gamma A) (\<lambda>_. True)"
  unfolding transverse_fluxes_def
  by (intro keeps_skip keeps_fresh keeps_then[OF keeps_riemann_pass[THEN keeps_weaken]] keeps_ret) simp_all

lemma keeps_normal_fluxes:
  "keeps n0 (normal_fluxes K myg vars gamma A) (\<lambda>F. n0 \<le> F_x F \<and> n0 \<le> F_y F)"
  unfolding normal_fluxes_def
  by (intro keeps_skip keeps_and_then[OF keeps_riemann_pass] keeps_ret) simp

lemma keeps_fluxes_from:
  assumes "n0 \<le> U_xl A" "n0 \<le> U_xr A" "n0 \<le> U_yl A" "n0 \<le> U_yr A"
  shows "keeps n0 (fluxes_from K vars gamma myData dt A) (\<lambda>F. n0 \<le> F_x F \<and> n0 \<le> F_y F)"
  unfolding fluxes_from_def
  by (intro keeps_then[OF keeps_transverse_fluxes] keeps_then[OF keeps_transverse_correct]
      keeps_and_then[OF keeps_normal_fluxes] keeps_skip keeps_ret assms) simp

lemma keeps_unsplitFluxes:
  "keeps n0 (unsplitFluxes K vars gamma myData dt) (\<lambda>F. n0 \<le> F_x F \<and> n0 \<le> F_y F)"
  unfolding unsplitFluxes_def
  by (intro keeps_skip keeps_and_then[OF keeps_interface_states] keeps_fluxes_from) simp_all

lemma keeps_view: "keeps n0 (view x R n) (\<lambda>_. True)"
  unfolding view_def by (intro keeps_skip keeps_lift)

lemma keeps_assign_view: "n0 \<le> a \<Longrightarrow> keeps n0 (assign_view a R n X) (\<lambda>_. True)"
  by (auto simp: keeps_def assign_view_def store_def Let_def split: sum.splits prod.splits)

lemma keeps_iadd_view:
  "n0 \<le> a \<Longrightarrow> keeps n0 rhs (\<lambda>_. True) \<Longrightarrow> keeps n0 (iadd_view a R n rhs) (\<lambda>_. True)"
  unfolding iadd_view_def
  by (intro keeps_then[OF keeps_view] keeps_then keeps_lift keeps_assign_view)

lemma keeps_times_xi: "keeps n0 (times_xi xi L) (\<lambda>_. True)"
  unfolding times_xi_def
  by (cases xi) (auto intro!: keeps_ret keeps_skip keeps_lift)

lemma keeps_rk_flattening: "keeps n0 (rk_flattening K myg ivars rp q) (\<lambda>_. True)"
  unfolding rk_flattening_def
  by (auto intro!: keeps_skip keeps_fresh keeps_ret)

lemma keeps_limit_into: "n0 \<le> ld \<Longrightarrow> keeps n0 (limit_into K myg xi limiter q ld idir n) (\<lambda>_. True)"
  unfolding limit_into_def
  by (intro keeps_skip keeps_then[OF keeps_times_xi] keeps_set_plane)

lemma keeps_rk_limiting:
  "keeps n0 (rk_limiting K myg ivars rp xi q) (\<lambda>L. n0 \<le> fst L \<and> n0 \<le> snd L)"
  unfolding rk_limiting_def
  by (intro keeps_skip keeps_fresh keeps_then[OF keeps_while_lt] keeps_then[OF keeps_limit_into]
      keeps_limit_into keeps_ret) simp_all

lemma keeps_left_state: "n0 \<le> V \<Longrightarrow> keeps n0 (left_state myg V q ld ishift jshift n) (\<lambda>_. True)"
  unfolding left_state_def
  by (intro keeps_then[OF keeps_view] keeps_skip keeps_assign_view)

lemma keeps_right_state: "n0 \<le> V \<Longrightarrow> keeps n0 (right_state myg V q ld n) (\<lambda>_. True)"
  unfolding right_state_def
  by (intro keeps_then[OF keeps_view] keeps_skip keeps_assign_view)

lemma keeps_x_sweep: "n0 \<le> Vl \<Longrightarrow> n0 \<le> Vr \<Longrightarrow> keeps n0 (x_sweep myg ivars Vl Vr q ld) (\<lambda>_. True)"
  unfolding x_sweep_def
  by (intro keeps_while_lt keeps_then[OF keeps_left_state] keeps_right_state)

lemma keeps_y_sweep: "n0 \<le> Vl \<Longrightarrow> n0 \<le> Vr \<Longrightarrow> keeps n0 (y_sweep myg ivars Vl Vr q ld) (\<lambda>_. True)"
  unfolding y_sweep_def
  by (intro keeps_while_lt keeps_then[OF keeps_left_state] keeps_right_state)

lemma keeps_conserved_of: "keeps n0 (conserved_of K myg ivars gamma V) (\<lambda>a. n0 \<le> a)"
  unfolding conserved_of_def
  by (intro keeps_skip keeps_new)

lemma keeps_rk_interface_states:
  "keeps n0 (rk_interface_states K my_data rp ivars) (\<lambda>_. True)"
  unfolding rk_interface_states_def Let_def
  apply (intro keeps_skip keeps_fresh keeps_then[OF keeps_rk_flattening] keeps_and_then[OF keeps_rk_limiting])
  apply (clarsimp split: prod.splits)
  apply (intro keeps_skip keeps_fresh keeps_then[OF keeps_x_sweep] keeps_then[OF keeps_y_sweep]
      keeps_and_then[OF keeps_conserved_of] keeps_ret)
       apply simp_all
  done

lemma keeps_choose_riemann: "keeps n0 (choose_riemann K name) (\<lambda>_. True)"
  unfolding choose_riemann_def msg_fail_def
  by (auto intro!: keeps_ret keeps_raise)

lemma keeps_rk_riemann:
  "keeps n0 (rk_riemann K myg rp ivars sol A) (\<lambda>F. n0 \<le> F_x F \<and> n0 \<le> F_y F)"
  unfolding rk_riemann_def
  by (intro keeps_skip keeps_fresh keeps_then[OF keeps_choose_riemann] keeps_ret) simp

lemma keeps_add_viscosity:
  "n0 \<le> F \<Longrightarrow> keeps n0 (add_viscosity myg my_data F avisco di dj n) (\<lambda>_. True)"
  unfolding add_viscosity_def
  by (intro keeps_iadd_view keeps_then[OF keeps_view] keeps_skip keeps_lift)

lemma keeps_rk_viscosity:
  "n0 \<le> F_x F \<Longrightarrow> n0 \<le> F_y F \<Longrightarrow> keeps n0 (rk_viscosity K my_data rp ivars q F) (\<lambda>_. True)"
  unfolding rk_viscosity_def Let_def
  by (intro keeps_then[OF keeps_view] keeps_fresh keeps_while_lt keeps_skip
      keeps_then[OF keeps_add_viscosity] keeps_add_viscosity)

lemma keeps_fluxes:
  "keeps n0 (fluxes K my_data rp ivars sol) (\<lambda>F. n0 \<le> F_x F \<and> n0 \<le> F_y F)"
  unfolding fluxes_def
  apply (intro keeps_then[OF keeps_rk_interface_states] keeps_and_then[OF keeps_rk_riemann])
  apply (intro keeps_then[OF keeps_rk_viscosity] keeps_skip keeps_ret)
    apply simp_all
  done

lemma keepsD:
  assumes "keeps n0 m Q" "n0 \<le> nxt h" "m h = (r, h')"
  shows "n0 \<le> nxt h' \<and> (\<forall>a<n0. arr h' a = arr h a) \<and> (case r of Inl _ \<Rightarrow> True | Inr x \<Rightarrow> Q x)"
proof -
  from assms(1) have "\<forall>h. n0 \<le> nxt h \<longrightarrow>
        (case m h of (r, h') \<Rightarrow>
           n0 \<le> nxt h' \<and> (\<forall>a<n0. arr h' a = arr h a) \<and>
           (case r of Inl _ \<Rightarrow> True | Inr x \<Rightarrow> Q x))"
    unfolding keeps_def .
  then have "n0 \<le> nxt h \<longrightarrow> (case m h of (r, h') \<Rightarrow>
           n0 \<le> nxt h' \<and> (\<forall>a<n0. arr h' a = arr h a) \<and>
           (case r of Inl _ \<Rightarrow> True | Inr x \<Rightarrow> Q x))"
    by (rule spec)
  then have "case m h of (r, h') \<Rightarrow>
           n0 \<le> nxt h' \<and> (\<forall>a<n0. arr h' a = arr h a) \<and>
           (case r of Inl _ \<Rightarrow> True | Inr x \<Rightarrow> Q x)"
    using assms(2) by (rule mp)
  then show ?thesis unfolding assms(3) by simp
qed

subsection \<open>Running the array operations\<close>

lemma bshape2: "bshape [a, b] [a, b] = Inr [a, b]"
  by (simp add: bshape_def)

lemma proj2: "0 \<le> i \<Longrightarrow> i < a \<Longrightarrow> 0 \<le> j \<Longrightarrow> j < b \<Longrightarrow> proj [a, b] [i, j] = [i, j]"
  by (auto simp: proj_def)

lemma np_binop2:
  "shape A = [a, b] \<Longrightarrow> shape B = [a, b] \<Longrightarrow>
   np_binop f A B = Inr \<lparr>shape = [a, b], elts = (\<lambda>k. f (elts A (proj [a, b] k)) (elts B (proj [a, b] k)))\<rparr>"
  by (simp add: np_binop_def bshape2)

lemma alloc_simps:
  "nxt (alloc A h) = Suc (nxt h)"
  "timers (alloc A h) = timers h"
  "arr (alloc A h) a = (if a = nxt h then A else arr h a)"
  by (simp_all add: alloc_def)

lemma alloc_old: "a < nxt h \<Longrightarrow> arr (alloc A h) a = arr h a"
  by (simp add: alloc_def)

lemma new_run: "new A h = (Inr (nxt h), alloc A h)"
  by (simp add: new_def)

lemma load_Whole: "load (Whole a) h = (Inr (arr h a), h)"
  by (simp add: load.simps)

lemma load_Comp:
  "shape (arr h a) = [q1, q2, q3] \<Longrightarrow> 0 \<le> n \<Longrightarrow> n < q3 \<Longrightarrow>
   load (Comp a n) h = (Inr \<lparr>shape = [q1, q2], elts = (\<lambda>k. elts (arr h a) (k @ [n]))\<rparr>, h)"
  by (simp add: load.simps plane_def py_index_def)

lemma index_of_nonneg: "index_of x xs = Some n \<Longrightarrow> 0 \<le> n"
  by (induction xs arbitrary: n) (auto split: if_splits)

lemma getVarPtr_run:
  assumes "data_ok d h" "has_var d name"
  shows "getVarPtr d name h = (Inr (Comp (data d) (var_index d name)), h)"
    and "0 \<le> var_index d name" and "var_index d name < dnvar d"
proof -
  from assms(2) obtain n where n: "index_of name (names d) = Some n" "n < dnvar d"
    by (auto simp: has_var_def split: option.splits)
  then have v: "var_index d name = n" "0 \<le> n" by (auto simp: var_index_def dest: index_of_nonneg)
  from assms(1) have sh: "shape (arr h (data d)) = [qx (grid d), qy (grid d), dnvar d]"
    by (simp add: data_ok_def)
  show "getVarPtr d name h = (Inr (Comp (data d) (var_index d name)), h)"
    using n v by (simp add: getVarPtr_def and_then_def load_Comp[OF sh] ret_def)
  show "0 \<le> var_index d name" "var_index d name < dnvar d" using n v by simp_all
qed


lemma np_map_simps: "shape (np_map f A) = shape A" "elts (np_map f A) k = f (elts A k)"
  by (simp_all add: np_map_def)

lemma primitive_variables_run:
  assumes ok: "data_ok d h"
  shows "\<exists>h'. primitive_variables K d h =
       (Inr \<lparr>prim_r = Comp (data d) (var_index d ''density''), prim_u = Whole (nxt h),
             prim_v = Whole (nxt h + 1), prim_p = Whole (nxt h + 4)\<rparr>, h') \<and>
     nxt h' = nxt h + 5 \<and> timers h' = timers h \<and> (\<forall>a<nxt h. arr h' a = arr h a) \<and>
     shape (arr h' (nxt h)) = [qx (grid d), qy (grid d)] \<and>
     shape (arr h' (nxt h + 1)) = [qx (grid d), qy (grid d)] \<and>
     shape (arr h' (nxt h + 4)) = [qx (grid d), qy (grid d)] \<and>
     (\<forall>i j. 0 \<le> i \<and> i < qx (grid d) \<and> 0 \<le> j \<and> j < qy (grid d) \<longrightarrow>
        (elts (arr h (data d)) [i, j, var_index d ''density''],
         elts (arr h' (nxt h)) [i, j], elts (arr h' (nxt h + 1)) [i, j], elts (arr h' (nxt h + 4)) [i, j]) =
        prim_cell K (elts (arr h (data d)) [i, j, var_index d ''density''],
                     elts (arr h (data d)) [i, j, var_index d ''x-momentum''],
                     elts (arr h (data d)) [i, j, var_index d ''y-momentum''],
                     elts (arr h (data d)) [i, j, var_index d ''energy'']))"
proof -
  from ok have v: "has_var d ''density''" "has_var d ''x-momentum''" "has_var d ''y-momentum''"
    "has_var d ''energy''" and lt: "data d < nxt h"
    and sh: "shape (arr h (data d)) = [qx (grid d), qy (grid d), dnvar d]"
    by (simp_all add: data_ok_def)
  note gv = getVarPtr_run[OF ok v(1)] getVarPtr_run[OF ok v(2)] getVarPtr_run[OF ok v(3)]
    getVarPtr_run[OF ok v(4)]
  have ld: "\<And>n s. 0 \<le> n \<Longrightarrow> n < dnvar d \<Longrightarrow> arr s (data d) = arr h (data d) \<Longrightarrow>
      load (Comp (data d) n) s =
        (Inr \<lparr>shape = [qx (grid d), qy (grid d)], elts = (\<lambda>k. elts (arr h (data d)) (k @ [n]))\<rparr>, s)"
    using load_Comp[of _ "data d" "qx (grid d)" "qy (grid d)" "dnvar d"] sh by simp
  have ok': "\<And>A. data_ok d (alloc A h)" using ok by (simp add: data_ok_def alloc_def)
  define Dn where "Dn = \<lparr>shape = [qx (grid d), qy (grid d)],
      elts = (\<lambda>k. elts (arr h (data d)) (k @ [var_index d ''density'']))\<rparr>"
  define Xm where "Xm = \<lparr>shape = [qx (grid d), qy (grid d)],
      elts = (\<lambda>k. elts (arr h (data d)) (k @ [var_index d ''x-momentum'']))\<rparr>"
  define Ym where "Ym = \<lparr>shape = [qx (grid d), qy (grid d)],
      elts = (\<lambda>k. elts (arr h (data d)) (k @ [var_index d ''y-momentum'']))\<rparr>"
  define En where "En = \<lparr>shape = [qx (grid d), qy (grid d)],
      elts = (\<lambda>k. elts (arr h (data d)) (k @ [var_index d ''energy'']))\<rparr>"
  have shs: "shape Dn = [qx (grid d), qy (grid d)]" "shape Xm = [qx (grid d), qy (grid d)]"
    "shape Ym = [qx (grid d), qy (grid d)]" "shape En = [qx (grid d), qy (grid d)]"
    by (simp_all add: Dn_def Xm_def Ym_def En_def)
  have lds: "\<And>s. arr s (data d) = arr h (data d) \<Longrightarrow>
      load (Comp (data d) (var_index d ''density'')) s = (Inr Dn, s) \<and>
      load (Comp (data d) (var_index d ''x-momentum'')) s = (Inr Xm, s) \<and>
      load (Comp (data d) (var_index d ''y-momentum'')) s = (Inr Ym, s) \<and>
      load (Comp (data d) (var_index d ''energy'')) s = (Inr En, s)"
    using gv by (simp add: ld Dn_def Xm_def Ym_def En_def)
  obtain Uv where Uv: "np_div Xm Dn = Inr Uv" "shape Uv = [qx (grid d), qy (grid d)]"
    "\<And>k. elts Uv k = elts Xm (proj [qx (grid d), qy (grid d)] k) / elts Dn (proj [qx (grid d), qy (grid d)] k)"
    using np_binop2[OF shs(2) shs(1), of "\<lambda>x y. x / y"] by (simp add: np_div_def)
  obtain Vv where Vv: "np_div Ym Dn = Inr Vv" "shape Vv = [qx (grid d), qy (grid d)]"
    "\<And>k. elts Vv k = elts Ym (proj [qx (grid d), qy (grid d)] k) / elts Dn (proj [qx (grid d), qy (grid d)] k)"
    using np_binop2[OF shs(3) shs(1), of "\<lambda>x y. x / y"] by (simp add: np_div_def)
  obtain Ev where Ev: "specific_energy En Xm Ym Dn = Inr Ev" "shape Ev = [qx (grid d), qy (grid d)]"
    "\<And>i j. 0 \<le> i \<Longrightarrow> i < qx (grid d) \<Longrightarrow> 0 \<le> j \<Longrightarrow> j < qy (grid d) \<Longrightarrow>
       elts Ev [i, j] = (elts En [i, j] - 0.5 * ((elts Xm [i, j]) ^ 2 + (elts Ym [i, j]) ^ 2) / elts Dn [i, j]) / elts Dn [i, j]"
    using shs
    by (simp add: specific_energy_def bindr_def np_add_def np_sub_def np_div_def np_binop2 np_scale_def
        np_square_def np_map_simps proj2)
  obtain Pv where Pv: "np_binop (pres K) Dn Ev = Inr Pv" "shape Pv = [qx (grid d), qy (grid d)]"
    "\<And>k. elts Pv k = pres K (elts Dn (proj [qx (grid d), qy (grid d)] k)) (elts Ev (proj [qx (grid d), qy (grid d)] k))"
    using np_binop2[OF shs(1) Ev(2), of "pres K"] by simp
  let ?h' = "alloc (np_clip_min Pv smallp) (alloc Pv (alloc Ev (alloc Vv (alloc Uv h))))"
  have run: "primitive_variables K d h =
       (Inr \<lparr>prim_r = Comp (data d) (var_index d ''density''), prim_u = Whole (nxt h),
             prim_v = Whole (nxt h + 1), prim_p = Whole (nxt h + 4)\<rparr>, ?h')"
    using gv(1,4,7,10) lt Uv(1) Vv(1) Ev(1) Pv(1)
    by (simp add: primitive_variables_def and_then_def eval2_def lds lift_def new_run load_Whole
        alloc_simps alloc_old ret_def)
  show ?thesis
    apply (rule exI[of _ ?h'])
    apply (intro conjI)
           apply (rule run)
          apply (simp add: alloc_simps)
         apply (simp add: alloc_simps)
        apply (simp add: alloc_old alloc_simps)
       apply (simp add: alloc_simps Uv)
      apply (simp add: alloc_simps Vv)
     apply (simp add: alloc_simps np_clip_min_def np_map_simps Pv)
    apply (simp add: alloc_simps np_clip_min_def np_map_simps Pv Uv Vv Ev proj2 prim_cell_def
        Dn_def Xm_def Ym_def En_def)
    done
qed







lemma extends_refl: "extends h h"
  by (simp add: extends_def)


lemma extends_alloc: "extends h s \<Longrightarrow> extends h (alloc A s)"
  by (simp add: extends_def alloc_simps)

lemma extends_timers: "extends h s \<Longrightarrow> extends h (s\<lparr>timers := t\<rparr>)"
  by (simp add: extends_def)

lemma extends_old: "extends h h' \<Longrightarrow> a < nxt h \<Longrightarrow> arr h' a = arr h a"
  by (simp add: extends_def)

lemma tick_run: "tick e h = (Inr (), h\<lparr>timers := timers h @ [e]\<rparr>)"
  by (simp add: tick_def)

lemma np_zeros_run: "\<forall>d \<in> set s. 0 \<le> d \<Longrightarrow> np_zeros s h = (Inr (nxt h), alloc (zeros s) h)"
  by (auto simp: np_zeros_def new_run list_ex_iff)

lemma grid_dims: "grid_ok g \<Longrightarrow> 0 < qx g \<and> 0 < qy g"
  by (auto simp: grid_ok_def)

lemmas ext_simps = extends_refl extends_alloc extends_timers


lemma np_mul2:
  "shape A = [a, b] \<Longrightarrow> shape B = [a, b] \<Longrightarrow> \<exists>C. np_mul A B = Inr C \<and> shape C = [a, b]"
  by (simp add: np_mul_def np_binop2)





lemma store_simps:
  "nxt (store a A h) = nxt h"
  "timers (store a A h) = timers h"
  "arr (store a A h) b = (if b = a then A else arr h b)"
  by (simp_all add: store_def)

lemma set_plane_run:
  "shape (arr h a) = [q1, q2, q3] \<Longrightarrow> 0 \<le> n \<Longrightarrow> n < q3 \<Longrightarrow> shape R = [q1, q2] \<Longrightarrow>
   set_plane a n R h = (Inr (), store a (with_plane (arr h a) n R) h)"
  by (simp add: set_plane_def Let_def py_index_def bshape2)





lemma and_then_run: "m h = (Inr x, h1) \<Longrightarrow> f x h1 = r \<Longrightarrow> and_then m f h = r"
  by (simp add: and_then_def)

lemma extends_nxt: "extends h h' \<Longrightarrow> nxt h \<le> nxt h'"
  by (simp add: extends_def)









lemma unsplitFluxes_after_prims:
  assumes "primitive_variables K d (h\<lparr>timers := timers h @ [Begin ''unsplitFluxes'']\<rparr>) = (Inr Q, h1)"
  shows "unsplitFluxes K vars gamma d dt h =
     and_then (states_from K vars gamma d dt Q) (fluxes_from K vars gamma d dt) h1"
  unfolding unsplitFluxes_def interface_states_def
  apply (rule and_then_run, rule tick_run)
  apply (simp add: and_then_def assms)
  done

lemma keeps_after_prims:
  "keeps n0 (and_then (states_from K vars gamma d dt Q) (fluxes_from K vars gamma d dt)) (\<lambda>_. True)"
  by (rule keeps_and_then[OF keeps_states_from]) (intro keeps_fluxes_from[THEN keeps_weaken]; simp)

lemma data_ok_timers: "data_ok d (h\<lparr>timers := t\<rparr>) = data_ok d h"
  by (simp add: data_ok_def)

lemma data0_ok: "data_ok data0 heap0"
  by (simp add: data_ok_def data0_def heap0_def grid_ok_def grid3_def has_var_def)

















subsection \<open>Two ghost layers\<close>

lemma norm_idx3w:
  "- a \<le> i \<Longrightarrow> i < a \<Longrightarrow> - b \<le> j \<Longrightarrow> j < b \<Longrightarrow> - c \<le> n \<Longrightarrow> n < c \<Longrightarrow>
   \<exists>k. norm_idx [a, b, c] [i, j, n] = Inr k"
  by (simp add: py_index_def)

lemma correct_one_ok:
  assumes sh: "shaped g nv A F h" and d: "d \<noteq> 0"
    and u: "shape (arr h u) = [qx g, qy g, nv]" and f: "shape (arr h f) = [qx g, qy g, nv]"
    and k: "\<exists>k'. norm_idx [qx g, qy g, nv] k = Inr k'"
      "\<exists>k'. norm_idx [qx g, qy g, nv] k1 = Inr k'" "\<exists>k'. norm_idx [qx g, qy g, nv] k0 = Inr k'"
  shows "\<exists>h'. correct_one u f dt d k k1 k0 h = (Inr (), h') \<and> shaped g nv A F h'"
proof -
  from k obtain a b c where n: "norm_idx [qx g, qy g, nv] k = Inr a" "norm_idx [qx g, qy g, nv] k1 = Inr b"
    "norm_idx [qx g, qy g, nv] k0 = Inr c"
    by blast
  have "correct_one u f dt d k k1 k0 h = (Inr (), put u a (elts (arr h u) a - 0.5 * dt / d * (elts (arr h f) b - elts (arr h f) c)) h)"
    using n d u f by (simp add: correct_one_def and_then_def getitem_ok setitem_ok py_div_ok)
  then show ?thesis using sh by (simp add: shaped_put)
qed

lemma correct_one_wraps:
  assumes sh: "shaped g nv A F s" and d: "d \<noteq> 0"
    and u: "u \<in> {U_xl A, U_xr A, U_yl A, U_yr A}" and f: "f \<in> {F_x F, F_y F}"
    and n: "0 \<le> n" "n < nv"
    and a: "- qx g \<le> a" "a < qx g" "- qx g \<le> a1" "a1 < qx g" "- qx g \<le> a0" "a0 < qx g"
    and b: "- qy g \<le> b" "b < qy g" "- qy g \<le> b1" "b1 < qy g" "- qy g \<le> b0" "b0 < qy g"
  shows "\<exists>s'. correct_one u f dt d [a, b, n] [a1, b1, n] [a0, b0, n] s = (Inr (), s') \<and> shaped g nv A F s'"
proof -
  have su: "shape (arr s u) = [qx g, qy g, nv]" using sh u by (auto simp: shaped_def)
  have sf: "shape (arr s f) = [qx g, qy g, nv]" using sh f by (auto simp: shaped_def)
  have k: "\<exists>k'. norm_idx [qx g, qy g, nv] [a, b, n] = Inr k'"
    "\<exists>k'. norm_idx [qx g, qy g, nv] [a1, b1, n] = Inr k'"
    "\<exists>k'. norm_idx [qx g, qy g, nv] [a0, b0, n] = Inr k'"
    using n a b by (intro norm_idx3w; simp)+
  show ?thesis by (rule correct_one_ok[OF sh d su sf k])
qed

lemma while_le_first_fails:
  "lo \<le> hi \<Longrightarrow> body lo h = (Inl e, h') \<Longrightarrow> while_le lo hi body h = (Inl e, h')"
  by (subst while_le.simps) simp

lemma while_le_split:
  assumes "while_le lo k body h = (Inr (), h1)" "lo \<le> k + 1" "k \<le> hi"
  shows "while_le lo hi body h = while_le (k + 1) hi body h1"
  using assms
proof (induction lo k body h rule: while_le.induct)
  case (1 i k body h)
  show ?case
  proof (cases "i \<le> k")
    case False
    with "1.prems" have "i = k + 1" "h1 = h" by (simp_all add: while_le.simps[of i k])
    then show ?thesis by simp
  next
    case True
    obtain r s where b: "body i h = (r, s)" by (cases "body i h")
    show ?thesis
    proof (cases r)
      case (Inl e)
      with True b "1.prems"(1) show ?thesis by (simp add: while_le.simps[of i k])
    next
      case (Inr u)
      from True b Inr "1.prems"(1) have w: "while_le (i + 1) k body s = (Inr (), h1)"
        by (simp add: while_le.simps[of i k])
      have "while_le (i + 1) hi body s = while_le (k + 1) hi body h1"
      proof (rule "1.IH"[OF True _ _ w])
        show "(Inr u, s) = body i h" using b Inr by simp
        show "Inr u = Inr u" by simp
        show "i + 1 \<le> k + 1" using True by simp
        show "k \<le> hi" by (rule "1.prems"(3))
      qed
      moreover have "while_le i hi body h = while_le (i + 1) hi body s"
        using True "1.prems"(3) b Inr by (subst while_le.simps) simp
      ultimately show ?thesis by simp
    qed
  qed
qed

text \<open>With two ghost layers: where the loop stops.\<close>

lemma first_row_failure:
  assumes g: "grid_ok g" and n2: "ng g = 2" and nv: "0 < nv" and sh: "shaped g nv A F h"
  shows "\<exists>h1 h2 h3.
     while_le (ilo g - 2) (ihi g + 1) (\<lambda>i. while_lt 0 nv (correct_cell g dt A F (jlo g - 2) i)) h = (Inr (), h1) \<and>
     correct_one (U_xl A) (F_y F) dt (dy g) [ihi g + 2, jlo g - 2, 0]
        [ihi g + 2 - 1, jlo g - 2 + 1, 0] [ihi g + 2 - 1, jlo g - 2, 0] h1 = (Inr (), h2) \<and>
     correct_one (U_xr A) (F_y F) dt (dy g) [ihi g + 2, jlo g - 2, 0]
        [ihi g + 2, jlo g - 2 + 1, 0] [ihi g + 2, jlo g - 2, 0] h2 = (Inr (), h3) \<and>
     getitem (F_x F) [ihi g + 2 + 1, jlo g - 2 - 1, 0] h3 = (Inl IndexError, h3) \<and>
     correct_one (U_yl A) (F_x F) dt (dx g) [ihi g + 2, jlo g - 2, 0]
        [ihi g + 2 + 1, jlo g - 2 - 1, 0] [ihi g + 2, jlo g - 2 - 1, 0] h3 = (Inl IndexError, h3) \<and>
     correct_cell g dt A F (jlo g - 2) (ihi g + 2) 0 h1 = (Inl IndexError, h3) \<and>
     correct_row g nv dt A F (jlo g - 2) h = (Inl IndexError, h3) \<and>
     transverse_correct g nv dt A F h = (Inl IndexError, h3)"
proof -
  let ?j = "jlo g - 2" and ?i = "ihi g + 2"
  have nz: "dx g \<noteq> 0" "dy g \<noteq> 0" using g by (auto simp: grid_ok_def)
  from g n2 have q: "ilo g = 2" "jlo g = 2" "ihi g = qx g - 3" "jhi g = qy g - 3" "5 \<le> qx g" "5 \<le> qy g"
    by (auto simp: grid_ok_def)
  have shs: "\<And>s. shaped g nv A F s \<Longrightarrow> shape (arr s (F_x F)) = [qx g, qy g, nv]"
    by (simp add: shaped_def)
  have cell: "\<exists>s'. correct_cell g dt A F ?j i n s = (Inr (), s') \<and> shaped g nv A F s'"
    if s: "shaped g nv A F s" and i: "ilo g - 2 \<le> i" "i \<le> ihi g + 1" and n: "0 \<le> n" "n \<le> nv - 1" for i n s
  proof -
    have n': "0 \<le> n" "n < nv" using n by simp_all
    have bi: "- qx g \<le> i" "i < qx g" "- qx g \<le> i - 1" "i - 1 < qx g" "- qx g \<le> i + 1" "i + 1 < qx g"
      using i q by simp_all
    have bj: "- qy g \<le> ?j" "?j < qy g" "- qy g \<le> ?j + 1" "?j + 1 < qy g" "- qy g \<le> ?j - 1" "?j - 1 < qy g"
      using q by simp_all
    from correct_one_wraps[OF s nz(2) _ _ n' bi(1,2) bi(3,4) bi(3,4) bj(1,2) bj(3,4) bj(1,2), of "U_xl A" "F_y F" dt]
    obtain s1 where 1: "correct_one (U_xl A) (F_y F) dt (dy g) [i, ?j, n] [i - 1, ?j + 1, n] [i - 1, ?j, n] s = (Inr (), s1)"
      "shaped g nv A F s1"
      by auto
    from correct_one_wraps[OF 1(2) nz(2) _ _ n' bi(1,2) bi(1,2) bi(1,2) bj(1,2) bj(3,4) bj(1,2), of "U_xr A" "F_y F" dt]
    obtain s2 where 2: "correct_one (U_xr A) (F_y F) dt (dy g) [i, ?j, n] [i, ?j + 1, n] [i, ?j, n] s1 = (Inr (), s2)"
      "shaped g nv A F s2"
      by auto
    from correct_one_wraps[OF 2(2) nz(1) _ _ n' bi(1,2) bi(5,6) bi(1,2) bj(1,2) bj(5,6) bj(5,6), of "U_yl A" "F_x F" dt]
    obtain s3 where 3: "correct_one (U_yl A) (F_x F) dt (dx g) [i, ?j, n] [i + 1, ?j - 1, n] [i, ?j - 1, n] s2 = (Inr (), s3)"
      "shaped g nv A F s3"
      by auto
    from correct_one_wraps[OF 3(2) nz(1) _ _ n' bi(1,2) bi(5,6) bi(1,2) bj(1,2) bj(1,2) bj(1,2), of "U_yr A" "F_x F" dt]
    obtain s4 where 4: "correct_one (U_yr A) (F_x F) dt (dx g) [i, ?j, n] [i + 1, ?j, n] [i, ?j, n] s3 = (Inr (), s4)"
      "shaped g nv A F s4"
      by auto
    have "correct_cell g dt A F ?j i n s = (Inr (), s4)"
      unfolding correct_cell_def
      by (rule and_then_run, rule 1(1), rule and_then_run, rule 2(1), rule and_then_run, rule 3(1), rule 4(1))
    with 4(2) show ?thesis by blast
  qed
  have nloop: "\<exists>s'. while_lt 0 nv (correct_cell g dt A F ?j i) s = (Inr (), s') \<and> shaped g nv A F s'"
    if s: "shaped g nv A F s" and i: "ilo g - 2 \<le> i" "i \<le> ihi g + 1" for i s
    unfolding while_lt_def
    using while_le_rule[of "\<lambda>_. shaped g nv A F" 0 s "nv - 1" "correct_cell g dt A F ?j i", OF s cell[OF _ i]]
    by blast
  from while_le_rule[of "\<lambda>_. shaped g nv A F" "ilo g - 2" h "ihi g + 1"
      "\<lambda>i. while_lt 0 nv (correct_cell g dt A F ?j i)", OF sh nloop]
  obtain h1 where 1: "while_le (ilo g - 2) (ihi g + 1) (\<lambda>i. while_lt 0 nv (correct_cell g dt A F ?j i)) h = (Inr (), h1)"
    "shaped g nv A F h1"
    by blast
  have n0: "(0::int) \<le> 0" "0 < nv" using nv by simp_all
  have ci: "- qx g \<le> ?i" "?i < qx g" "- qx g \<le> ?i - 1" "?i - 1 < qx g"
    using q by simp_all
  have cj: "- qy g \<le> ?j" "?j < qy g" "- qy g \<le> ?j + 1" "?j + 1 < qy g"
    using q by simp_all
  from correct_one_wraps[OF 1(2) nz(2) _ _ n0 ci(1,2) ci(3,4) ci(3,4) cj(1,2) cj(3,4) cj(1,2), of "U_xl A" "F_y F" dt]
  obtain h2 where 2: "correct_one (U_xl A) (F_y F) dt (dy g) [?i, ?j, 0] [?i - 1, ?j + 1, 0] [?i - 1, ?j, 0] h1 = (Inr (), h2)"
    "shaped g nv A F h2"
    by auto
  from correct_one_wraps[OF 2(2) nz(2) _ _ n0 ci(1,2) ci(1,2) ci(1,2) cj(1,2) cj(3,4) cj(1,2), of "U_xr A" "F_y F" dt]
  obtain h3 where 3: "correct_one (U_xr A) (F_y F) dt (dy g) [?i, ?j, 0] [?i, ?j + 1, 0] [?i, ?j, 0] h2 = (Inr (), h3)"
    "shaped g nv A F h3"
    by auto
  have bad: "norm_idx (shape (arr h3 (F_x F))) [?i + 1, ?j - 1, 0] = Inl IndexError"
    using shs[OF 3(2)] q by (simp add: py_index_def)
  have gi: "getitem (F_x F) [?i + 1, ?j - 1, 0] h3 = (Inl IndexError, h3)"
    using bad by (simp add: getitem_def)
  have c3: "correct_one (U_yl A) (F_x F) dt (dx g) [?i, ?j, 0] [?i + 1, ?j - 1, 0] [?i, ?j - 1, 0] h3 = (Inl IndexError, h3)"
    by (rule correct_one_fail[OF nz(1) bad])
  have cc: "correct_cell g dt A F ?j ?i 0 h1 = (Inl IndexError, h3)"
    unfolding correct_cell_def
    by (rule and_then_run, rule 2(1), rule and_then_run, rule 3(1), rule and_then_Inl, rule c3)
  have nl: "while_lt 0 nv (correct_cell g dt A F ?j ?i) h1 = (Inl IndexError, h3)"
    unfolding while_lt_def using nv by (intro while_le_first_fails cc) simp
  have "correct_row g nv dt A F ?j h =
      while_le (ihi g + 1 + 1) ?i (\<lambda>i. while_lt 0 nv (correct_cell g dt A F ?j i)) h1"
    unfolding correct_row_def using q by (intro while_le_split[OF 1(1)]) simp_all
  also have "ihi g + 1 + 1 = ?i" by simp
  also have "while_le ?i ?i (\<lambda>i. while_lt 0 nv (correct_cell g dt A F ?j i)) h1 = (Inl IndexError, h3)"
    by (intro while_le_first_fails nl) simp
  finally have row: "correct_row g nv dt A F ?j h = (Inl IndexError, h3)" .
  have tc: "transverse_correct g nv dt A F h = (Inl IndexError, h3)"
    unfolding transverse_correct_def using q by (intro while_le_first_fails row) simp
  show ?thesis
    apply (rule exI[of _ h1], rule exI[of _ h2], rule exI[of _ h3])
    apply (intro conjI)
    apply (rule 1(1), rule 2(1), rule 3(1), rule gi, rule c3, rule cc, rule row, rule tc)
    done
qed

lemma correct_cell_stencil:
  "correct_cell g dt A F j i n =
     and_then (correct_one (U_xl A) (F_y F) dt (dy g) (stencil i j n ! 0) (stencil i j n ! 1) (stencil i j n ! 2)) (\<lambda>_.
     and_then (correct_one (U_xr A) (F_y F) dt (dy g) (stencil i j n ! 3) (stencil i j n ! 4) (stencil i j n ! 5)) (\<lambda>_.
     and_then (correct_one (U_yl A) (F_x F) dt (dx g) (stencil i j n ! 6) (stencil i j n ! 7) (stencil i j n ! 8)) (\<lambda>_.
     correct_one (U_yr A) (F_x F) dt (dx g) (stencil i j n ! 9) (stencil i j n ! 10) (stencil i j n ! 11))))"
  by (simp add: correct_cell_def stencil_def)

subsection \<open>Rounded cell formulas\<close>

lemma rnd_numeral:
  "rnd (numeral k) x =
     (if x < 4503599627370496 then map_option (\<lambda>y. y / 2) (rnd (pred_numeral k) (2 * x))
      else if 9007199254740992 \<le> x then map_option (\<lambda>y. 2 * y) (rnd (pred_numeral k) (x / 2))
      else Some (of_int (round_even x)))"
  by (simp add: numeral_eq_Suc)

lemmas fl_eval = fl_def fl_pos_def rnd_numeral round_even_def Let_def fadd_def fsub_def fmul_def fdiv_def


lemma fdiv_1_49: "fdiv 1 49 = Some (5882252574524729 / 288230376151711744)"
  by (simp add: fl_eval)





subsection \<open>Execution of the fluxes routine of \<^verbatim>\<open>compressible_rk\<close>\<close>

lemma lift_run: "r = Inr x \<Longrightarrow> lift r h = (Inr x, h)"
  by (simp add: lift_def)

lemma proj_wide: "c1 \<noteq> 1 \<Longrightarrow> c2 \<noteq> 1 \<Longrightarrow> proj [c1, c2] [a, b] = [a, b]"
  by (simp add: proj_def)

lemma py_slice_in: "0 \<le> a \<Longrightarrow> a \<le> b \<Longrightarrow> b \<le> len \<Longrightarrow> py_slice len a b = (a, b - a)"
  by (simp add: py_slice_def clamp_def)

lemma view_of3:
  assumes "shape A = [q1, q2, q3]" "0 \<le> n" "n < q3"
    and "0 \<le> fst (fst R)" "fst (fst R) \<le> snd (fst R)" "snd (fst R) \<le> q1"
    and "0 \<le> fst (snd R)" "fst (snd R) \<le> snd (snd R)" "snd (snd R) \<le> q2"
  shows "view_of A R n = Inr \<lparr>shape = [snd (fst R) - fst (fst R), snd (snd R) - fst (snd R)],
      elts = (\<lambda>k. elts A [fst (fst R) + k ! 0, fst (snd R) + k ! 1, n])\<rparr>"
  using assms by (simp add: view_of_def py_index_def py_slice_in)

lemma view_of2:
  assumes "shape A = [q1, q2]"
    and "0 \<le> fst (fst R)" "fst (fst R) \<le> snd (fst R)" "snd (fst R) \<le> q1"
    and "0 \<le> fst (snd R)" "fst (snd R) \<le> snd (snd R)" "snd (snd R) \<le> q2"
  shows "view_of A R n = Inr \<lparr>shape = [snd (fst R) - fst (fst R), snd (snd R) - fst (snd R)],
      elts = (\<lambda>k. elts A [fst (fst R) + k ! 0, fst (snd R) + k ! 1])\<rparr>"
  using assms by (simp add: view_of_def py_slice_in)

lemma view_Whole3:
  assumes "shape (arr h a) = [q1, q2, q3]" "0 \<le> n" "n < q3"
    and "0 \<le> fst (fst R)" "fst (fst R) \<le> snd (fst R)" "snd (fst R) \<le> q1"
    and "0 \<le> fst (snd R)" "fst (snd R) \<le> snd (snd R)" "snd (snd R) \<le> q2"
  shows "view (Whole a) R n h =
     (Inr \<lparr>shape = [snd (fst R) - fst (fst R), snd (snd R) - fst (snd R)],
           elts = (\<lambda>k. elts (arr h a) [fst (fst R) + k ! 0, fst (snd R) + k ! 1, n])\<rparr>, h)"
  by (simp add: view_def and_then_def load_Whole lift_def view_of3[OF assms])

lemma view_Whole2:
  assumes "shape (arr h a) = [q1, q2]"
    and "0 \<le> fst (fst R)" "fst (fst R) \<le> snd (fst R)" "snd (fst R) \<le> q1"
    and "0 \<le> fst (snd R)" "fst (snd R) \<le> snd (snd R)" "snd (snd R) \<le> q2"
  shows "view (Whole a) R n h =
     (Inr \<lparr>shape = [snd (fst R) - fst (fst R), snd (snd R) - fst (snd R)],
           elts = (\<lambda>k. elts (arr h a) [fst (fst R) + k ! 0, fst (snd R) + k ! 1])\<rparr>, h)"
  by (simp add: view_def and_then_def load_Whole lift_def view_of2[OF assms])

lemma view_Comp:
  assumes "shape (arr h a) = [q1, q2, q3]" "0 \<le> n" "n < q3"
    and "0 \<le> fst (fst R)" "fst (fst R) \<le> snd (fst R)" "snd (fst R) \<le> q1"
    and "0 \<le> fst (snd R)" "fst (snd R) \<le> snd (snd R)" "snd (snd R) \<le> q2"
  shows "view (Comp a n) R m h =
     (Inr \<lparr>shape = [snd (fst R) - fst (fst R), snd (snd R) - fst (snd R)],
           elts = (\<lambda>k. elts (arr h a) [fst (fst R) + k ! 0, fst (snd R) + k ! 1, n])\<rparr>, h)"
proof -
  let ?P = "\<lparr>shape = [q1, q2], elts = (\<lambda>k. elts (arr h a) (k @ [n]))\<rparr>"
  have s: "shape ?P = [q1, q2]" by simp
  show ?thesis
    by (simp add: view_def and_then_def load_Comp[OF assms(1-3)] lift_def view_of2[OF s assms(4-9)])
qed

lemma assign_view_run:
  assumes "shape (arr h a) = [q1, q2, q3]" "0 \<le> n" "n < q3"
    and "0 \<le> fst (fst R)" "fst (fst R) \<le> snd (fst R)" "snd (fst R) \<le> q1"
    and "0 \<le> fst (snd R)" "fst (snd R) \<le> snd (snd R)" "snd (snd R) \<le> q2"
    and "shape X = [snd (fst R) - fst (fst R), snd (snd R) - fst (snd R)]"
  shows "assign_view a R n X h =
     (Inr (), store a (with_region (arr h a) (fst (fst R)) (snd (fst R) - fst (fst R))
                         (fst (snd R)) (snd (snd R) - fst (snd R)) n X) h)"
  using assms by (simp add: assign_view_def Let_def py_index_def py_slice_in bshape2)

lemma with_region_simps:
  "shape (with_region A si ci sj cj n X) = shape A"
  "elts (with_region A si ci sj cj n X) [i, j, m] =
     (if m = n \<and> si \<le> i \<and> i < si + ci \<and> sj \<le> j \<and> j < sj + cj
      then elts X (proj (shape X) [i - si, j - sj]) else elts A [i, j, m])"
  by (auto simp: with_region_def)

text \<open>One interface state of one component: the cells of the shifted region get \<open>q + c*ld\<close>.\<close>

lemma left_state_run:
  assumes g: "grid_ok g" and ng3: "3 \<le> ng g"
    and sh: "shape (arr h V) = [qx g, qy g, nv]" "shape (arr h q) = [qx g, qy g, nv]"
      "shape (arr h ld) = [qx g, qy g, nv]"
    and ne: "V \<noteq> q" "V \<noteq> ld"
    and n: "0 \<le> n" "n < nv"
    and s: "0 \<le> is" "is \<le> 1" "0 \<le> js" "js \<le> 1"
  shows "\<exists>h'. left_state g V q ld is js n h = (Inr (), h') \<and> nxt h' = nxt h \<and> timers h' = timers h \<and>
     (\<forall>a. a \<noteq> V \<longrightarrow> arr h' a = arr h a) \<and> shape (arr h' V) = [qx g, qy g, nv] \<and>
     (\<forall>i j m. elts (arr h' V) [i, j, m] =
        (if m = n \<and> ilo g - 2 + is \<le> i \<and> i \<le> ihi g + 2 + is \<and> jlo g - 2 + js \<le> j \<and> j \<le> jhi g + 2 + js
         then elts (arr h q) [i - is, j - js, n] + 0.5 * elts (arr h ld) [i - is, j - js, n]
         else elts (arr h V) [i, j, m]))"
proof -
  let ?R = "ip_jp g 0 0 (2, 2)"
  let ?S = "ip_jp g is js (2, 2)"
  from g ng3 have b: "0 \<le> fst (fst ?R)" "fst (fst ?R) \<le> snd (fst ?R)" "snd (fst ?R) \<le> qx g"
    "0 \<le> fst (snd ?R)" "fst (snd ?R) \<le> snd (snd ?R)" "snd (snd ?R) \<le> qy g"
    by (simp_all add: ip_jp_def grid_ok_def)
  from g ng3 s have c: "0 \<le> fst (fst ?S)" "fst (fst ?S) \<le> snd (fst ?S)" "snd (fst ?S) \<le> qx g"
    "0 \<le> fst (snd ?S)" "fst (snd ?S) \<le> snd (snd ?S)" "snd (snd ?S) \<le> qy g"
    by (simp_all add: ip_jp_def grid_ok_def)
  let ?a = "\<lparr>shape = [snd (fst ?R) - fst (fst ?R), snd (snd ?R) - fst (snd ?R)],
           elts = (\<lambda>k. elts (arr h q) [fst (fst ?R) + k ! 0, fst (snd ?R) + k ! 1, n])\<rparr>"
  let ?b = "\<lparr>shape = [snd (fst ?R) - fst (fst ?R), snd (snd ?R) - fst (snd ?R)],
           elts = (\<lambda>k. elts (arr h ld) [fst (fst ?R) + k ! 0, fst (snd ?R) + k ! 1, n])\<rparr>"
  have va: "view (Whole q) ?R n h = (Inr ?a, h)" by (rule view_Whole3[OF sh(2) n b])
  have vb: "view (Whole ld) ?R n h = (Inr ?b, h)" by (rule view_Whole3[OF sh(3) n b])
  let ?X = "\<lparr>shape = [snd (fst ?R) - fst (fst ?R), snd (snd ?R) - fst (snd ?R)],
      elts = (\<lambda>k. elts ?a (proj [snd (fst ?R) - fst (fst ?R), snd (snd ?R) - fst (snd ?R)] k) +
                  elts (np_scale 0.5 ?b) (proj [snd (fst ?R) - fst (fst ?R), snd (snd ?R) - fst (snd ?R)] k))\<rparr>"
  have ad: "np_add ?a (np_scale 0.5 ?b) = Inr ?X"
    unfolding np_add_def by (rule np_binop2) (simp_all add: np_scale_def np_map_simps)
  have sx: "shape ?X = [snd (fst ?S) - fst (fst ?S), snd (snd ?S) - fst (snd ?S)]"
    by (simp add: ip_jp_def)
  let ?h' = "store V (with_region (arr h V) (fst (fst ?S)) (snd (fst ?S) - fst (fst ?S))
                         (fst (snd ?S)) (snd (snd ?S) - fst (snd ?S)) n ?X) h"
  have av: "assign_view V ?S n ?X h = (Inr (), ?h')"
    by (rule assign_view_run[OF sh(1) n c sx])
  have run: "left_state g V q ld is js n h = (Inr (), ?h')"
    unfolding left_state_def
    apply (rule and_then_run, rule va)
    apply (rule and_then_run, rule vb)
    apply (rule and_then_run, rule lift_run, rule ad)
    apply (rule av)
    done
  have cells: "\<forall>i j m. elts (arr ?h' V) [i, j, m] =
        (if m = n \<and> ilo g - 2 + is \<le> i \<and> i \<le> ihi g + 2 + is \<and> jlo g - 2 + js \<le> j \<and> j \<le> jhi g + 2 + js
         then elts (arr h q) [i - is, j - js, n] + 0.5 * elts (arr h ld) [i - is, j - js, n]
         else elts (arr h V) [i, j, m])"
  proof (intro allI)
    fix i j m
    show "elts (arr ?h' V) [i, j, m] =
        (if m = n \<and> ilo g - 2 + is \<le> i \<and> i \<le> ihi g + 2 + is \<and> jlo g - 2 + js \<le> j \<and> j \<le> jhi g + 2 + js
         then elts (arr h q) [i - is, j - js, n] + 0.5 * elts (arr h ld) [i - is, j - js, n]
         else elts (arr h V) [i, j, m])"
    proof (cases "m = n \<and> ilo g - 2 + is \<le> i \<and> i \<le> ihi g + 2 + is \<and> jlo g - 2 + js \<le> j \<and> j \<le> jhi g + 2 + js")
      case True
      from g have w: "ilo g \<le> ihi g" "jlo g \<le> jhi g" by (simp_all add: grid_ok_def)
      from True w show ?thesis
        by (simp add: store_simps with_region_simps ip_jp_def proj_wide np_scale_def np_map_simps)
    next
      case False
      then show ?thesis
        by (auto simp add: store_simps with_region_simps ip_jp_def)
    qed
  qed
  show ?thesis
    apply (rule exI[of _ ?h'])
    apply (intro conjI)
         apply (rule run)
        apply (simp add: store_simps)
       apply (simp add: store_simps)
      apply (simp add: store_simps)
     apply (simp add: store_simps with_region_simps sh)
    apply (rule cells)
    done
qed


lemma right_state_run:
  assumes g: "grid_ok g" and ng3: "3 \<le> ng g"
    and sh: "shape (arr h V) = [qx g, qy g, nv]" "shape (arr h q) = [qx g, qy g, nv]"
      "shape (arr h ld) = [qx g, qy g, nv]"
    and ne: "V \<noteq> q" "V \<noteq> ld"
    and n: "0 \<le> n" "n < nv"
  shows "\<exists>h'. right_state g V q ld n h = (Inr (), h') \<and> nxt h' = nxt h \<and> timers h' = timers h \<and>
     (\<forall>a. a \<noteq> V \<longrightarrow> arr h' a = arr h a) \<and> shape (arr h' V) = [qx g, qy g, nv] \<and>
     (\<forall>i j m. elts (arr h' V) [i, j, m] =
        (if m = n \<and> ilo g - 2 \<le> i \<and> i \<le> ihi g + 2 \<and> jlo g - 2 \<le> j \<and> j \<le> jhi g + 2
         then elts (arr h q) [i, j, n] - 0.5 * elts (arr h ld) [i, j, n]
         else elts (arr h V) [i, j, m]))"
proof -
  let ?R = "ip_jp g 0 0 (2, 2)"
  let ?S = "ip_jp g 0 0 (2, 2)"
  from g ng3 have b: "0 \<le> fst (fst ?R)" "fst (fst ?R) \<le> snd (fst ?R)" "snd (fst ?R) \<le> qx g"
    "0 \<le> fst (snd ?R)" "fst (snd ?R) \<le> snd (snd ?R)" "snd (snd ?R) \<le> qy g"
    by (simp_all add: ip_jp_def grid_ok_def)
  from g ng3 have c: "0 \<le> fst (fst ?S)" "fst (fst ?S) \<le> snd (fst ?S)" "snd (fst ?S) \<le> qx g"
    "0 \<le> fst (snd ?S)" "fst (snd ?S) \<le> snd (snd ?S)" "snd (snd ?S) \<le> qy g"
    by (simp_all add: ip_jp_def grid_ok_def)
  let ?a = "\<lparr>shape = [snd (fst ?R) - fst (fst ?R), snd (snd ?R) - fst (snd ?R)],
           elts = (\<lambda>k. elts (arr h q) [fst (fst ?R) + k ! 0, fst (snd ?R) + k ! 1, n])\<rparr>"
  let ?b = "\<lparr>shape = [snd (fst ?R) - fst (fst ?R), snd (snd ?R) - fst (snd ?R)],
           elts = (\<lambda>k. elts (arr h ld) [fst (fst ?R) + k ! 0, fst (snd ?R) + k ! 1, n])\<rparr>"
  have va: "view (Whole q) ?R n h = (Inr ?a, h)" by (rule view_Whole3[OF sh(2) n b])
  have vb: "view (Whole ld) ?R n h = (Inr ?b, h)" by (rule view_Whole3[OF sh(3) n b])
  let ?X = "\<lparr>shape = [snd (fst ?R) - fst (fst ?R), snd (snd ?R) - fst (snd ?R)],
      elts = (\<lambda>k. elts ?a (proj [snd (fst ?R) - fst (fst ?R), snd (snd ?R) - fst (snd ?R)] k) -
                  elts (np_scale 0.5 ?b) (proj [snd (fst ?R) - fst (fst ?R), snd (snd ?R) - fst (snd ?R)] k))\<rparr>"
  have ad: "np_sub ?a (np_scale 0.5 ?b) = Inr ?X"
    unfolding np_sub_def by (rule np_binop2) (simp_all add: np_scale_def np_map_simps)
  have sx: "shape ?X = [snd (fst ?S) - fst (fst ?S), snd (snd ?S) - fst (snd ?S)]"
    by (simp add: ip_jp_def)
  let ?h' = "store V (with_region (arr h V) (fst (fst ?S)) (snd (fst ?S) - fst (fst ?S))
                         (fst (snd ?S)) (snd (snd ?S) - fst (snd ?S)) n ?X) h"
  have av: "assign_view V ?S n ?X h = (Inr (), ?h')"
    by (rule assign_view_run[OF sh(1) n c sx])
  have run: "right_state g V q ld n h = (Inr (), ?h')"
    unfolding right_state_def
    apply (rule and_then_run, rule va)
    apply (rule and_then_run, rule vb)
    apply (rule and_then_run, rule lift_run, rule ad)
    apply (rule av)
    done
  have cells: "\<forall>i j m. elts (arr ?h' V) [i, j, m] =
        (if m = n \<and> ilo g - 2 \<le> i \<and> i \<le> ihi g + 2 \<and> jlo g - 2 \<le> j \<and> j \<le> jhi g + 2
         then elts (arr h q) [i, j, n] - 0.5 * elts (arr h ld) [i, j, n]
         else elts (arr h V) [i, j, m])"
  proof (intro allI)
    fix i j m
    show "elts (arr ?h' V) [i, j, m] =
        (if m = n \<and> ilo g - 2 \<le> i \<and> i \<le> ihi g + 2 \<and> jlo g - 2 \<le> j \<and> j \<le> jhi g + 2
         then elts (arr h q) [i, j, n] - 0.5 * elts (arr h ld) [i, j, n]
         else elts (arr h V) [i, j, m])"
    proof (cases "m = n \<and> ilo g - 2 \<le> i \<and> i \<le> ihi g + 2 \<and> jlo g - 2 \<le> j \<and> j \<le> jhi g + 2")
      case True
      from g have w: "ilo g \<le> ihi g" "jlo g \<le> jhi g" by (simp_all add: grid_ok_def)
      from True w show ?thesis
        by (simp add: store_simps with_region_simps ip_jp_def proj_wide np_scale_def np_map_simps)
    next
      case False
      then show ?thesis
        by (auto simp add: store_simps with_region_simps ip_jp_def)
    qed
  qed
  show ?thesis
    apply (rule exI[of _ ?h'])
    apply (intro conjI)
         apply (rule run)
        apply (simp add: store_simps)
       apply (simp add: store_simps)
      apply (simp add: store_simps)
     apply (simp add: store_simps with_region_simps sh)
    apply (rule cells)
    done
qed


lemma sweep_run:
  assumes g: "grid_ok g" and ng3: "3 \<le> ng g"
    and sh: "shape (arr h Vl) = [qx g, qy g, nv]" "shape (arr h Vr) = [qx g, qy g, nv]"
      "shape (arr h q) = [qx g, qy g, nv]" "shape (arr h ld) = [qx g, qy g, nv]"
    and ne: "Vl \<noteq> Vr" "Vl \<noteq> q" "Vl \<noteq> ld" "Vr \<noteq> q" "Vr \<noteq> ld"
    and s: "0 \<le> is" "is \<le> 1" "0 \<le> js" "js \<le> 1"
    and nv: "0 \<le> nv"
  shows "\<exists>h'. while_lt 0 nv (\<lambda>n. and_then (left_state g Vl q ld is js n) (\<lambda>_. right_state g Vr q ld n)) h =
       (Inr (), h') \<and> nxt h' = nxt h \<and> timers h' = timers h \<and>
     (\<forall>a. a \<noteq> Vl \<and> a \<noteq> Vr \<longrightarrow> arr h' a = arr h a) \<and>
     shape (arr h' Vl) = [qx g, qy g, nv] \<and> shape (arr h' Vr) = [qx g, qy g, nv] \<and>
     (\<forall>i j m. elts (arr h' Vl) [i, j, m] =
        (if 0 \<le> m \<and> m < nv \<and> ilo g - 2 + is \<le> i \<and> i \<le> ihi g + 2 + is \<and>
            jlo g - 2 + js \<le> j \<and> j \<le> jhi g + 2 + js
         then elts (arr h q) [i - is, j - js, m] + 0.5 * elts (arr h ld) [i - is, j - js, m]
         else elts (arr h Vl) [i, j, m])) \<and>
     (\<forall>i j m. elts (arr h' Vr) [i, j, m] =
        (if 0 \<le> m \<and> m < nv \<and> ilo g - 2 \<le> i \<and> i \<le> ihi g + 2 \<and> jlo g - 2 \<le> j \<and> j \<le> jhi g + 2
         then elts (arr h q) [i, j, m] - 0.5 * elts (arr h ld) [i, j, m]
         else elts (arr h Vr) [i, j, m]))"
proof -
  define Inv where "Inv N s \<longleftrightarrow> nxt s = nxt h \<and> timers s = timers h \<and>
     (\<forall>a. a \<noteq> Vl \<and> a \<noteq> Vr \<longrightarrow> arr s a = arr h a) \<and>
     shape (arr s Vl) = [qx g, qy g, nv] \<and> shape (arr s Vr) = [qx g, qy g, nv] \<and>
     (\<forall>i j m. elts (arr s Vl) [i, j, m] =
        (if 0 \<le> m \<and> m < N \<and> ilo g - 2 + is \<le> i \<and> i \<le> ihi g + 2 + is \<and>
            jlo g - 2 + js \<le> j \<and> j \<le> jhi g + 2 + js
         then elts (arr h q) [i - is, j - js, m] + 0.5 * elts (arr h ld) [i - is, j - js, m]
         else elts (arr h Vl) [i, j, m])) \<and>
     (\<forall>i j m. elts (arr s Vr) [i, j, m] =
        (if 0 \<le> m \<and> m < N \<and> ilo g - 2 \<le> i \<and> i \<le> ihi g + 2 \<and> jlo g - 2 \<le> j \<and> j \<le> jhi g + 2
         then elts (arr h q) [i, j, m] - 0.5 * elts (arr h ld) [i, j, m]
         else elts (arr h Vr) [i, j, m]))" for N and s :: heap
  have i0: "Inv 0 h" using sh by (simp add: Inv_def)
  have step: "\<exists>s'. and_then (left_state g Vl q ld is js N) (\<lambda>_. right_state g Vr q ld N) s = (Inr (), s') \<and>
      Inv (N + 1) s'" if N: "0 \<le> N" "N \<le> nv - 1" and I: "Inv N s" for N s
  proof -
    from I have a: "nxt s = nxt h" "timers s = timers h" "arr s q = arr h q" "arr s ld = arr h ld"
      "\<forall>a. a \<noteq> Vl \<and> a \<noteq> Vr \<longrightarrow> arr s a = arr h a"
      "shape (arr s Vl) = [qx g, qy g, nv]" "shape (arr s Vr) = [qx g, qy g, nv]"
      and cl: "\<forall>i j m. elts (arr s Vl) [i, j, m] =
        (if 0 \<le> m \<and> m < N \<and> ilo g - 2 + is \<le> i \<and> i \<le> ihi g + 2 + is \<and>
            jlo g - 2 + js \<le> j \<and> j \<le> jhi g + 2 + js
         then elts (arr h q) [i - is, j - js, m] + 0.5 * elts (arr h ld) [i - is, j - js, m]
         else elts (arr h Vl) [i, j, m])"
      and cr: "\<forall>i j m. elts (arr s Vr) [i, j, m] =
        (if 0 \<le> m \<and> m < N \<and> ilo g - 2 \<le> i \<and> i \<le> ihi g + 2 \<and> jlo g - 2 \<le> j \<and> j \<le> jhi g + 2
         then elts (arr h q) [i, j, m] - 0.5 * elts (arr h ld) [i, j, m]
         else elts (arr h Vr) [i, j, m])"
      using ne unfolding Inv_def by simp_all
    have n: "0 \<le> N" "N < nv" using N by simp_all
    have shs: "shape (arr s q) = [qx g, qy g, nv]" "shape (arr s ld) = [qx g, qy g, nv]"
      using a(3,4) sh by simp_all
    from left_state_run[OF g ng3 a(6) shs ne(2,3) n s]
    obtain s1 where 1: "left_state g Vl q ld is js N s = (Inr (), s1)" "nxt s1 = nxt s" "timers s1 = timers s"
      "\<forall>a. a \<noteq> Vl \<longrightarrow> arr s1 a = arr s a" "shape (arr s1 Vl) = [qx g, qy g, nv]"
      and c1: "\<forall>i j m. elts (arr s1 Vl) [i, j, m] =
        (if m = N \<and> ilo g - 2 + is \<le> i \<and> i \<le> ihi g + 2 + is \<and> jlo g - 2 + js \<le> j \<and> j \<le> jhi g + 2 + js
         then elts (arr s q) [i - is, j - js, N] + 0.5 * elts (arr s ld) [i - is, j - js, N]
         else elts (arr s Vl) [i, j, m])"
      by blast
    have b: "arr s1 q = arr h q" "arr s1 ld = arr h ld" "arr s1 Vr = arr s Vr"
      using 1(4) ne a(3,4) by simp_all
    have shs1: "shape (arr s1 Vr) = [qx g, qy g, nv]" "shape (arr s1 q) = [qx g, qy g, nv]"
      "shape (arr s1 ld) = [qx g, qy g, nv]"
      using b a(7) sh by simp_all
    from right_state_run[OF g ng3 shs1 ne(4,5) n]
    obtain s2 where 2: "right_state g Vr q ld N s1 = (Inr (), s2)" "nxt s2 = nxt s1" "timers s2 = timers s1"
      "\<forall>a. a \<noteq> Vr \<longrightarrow> arr s2 a = arr s1 a" "shape (arr s2 Vr) = [qx g, qy g, nv]"
      and c2: "\<forall>i j m. elts (arr s2 Vr) [i, j, m] =
        (if m = N \<and> ilo g - 2 \<le> i \<and> i \<le> ihi g + 2 \<and> jlo g - 2 \<le> j \<and> j \<le> jhi g + 2
         then elts (arr s1 q) [i, j, N] - 0.5 * elts (arr s1 ld) [i, j, N]
         else elts (arr s1 Vr) [i, j, m])"
      by blast
    have run: "and_then (left_state g Vl q ld is js N) (\<lambda>_. right_state g Vr q ld N) s = (Inr (), s2)"
      by (rule and_then_run, rule 1(1), rule 2(1))
    have l2: "arr s2 Vl = arr s1 Vl" using 2(4) ne by simp
    have o: "\<forall>a. a \<noteq> Vl \<and> a \<noteq> Vr \<longrightarrow> arr s2 a = arr h a"
      using 2(4) 1(4) a(5) by simp
    have cl2: "\<forall>i j m. elts (arr s2 Vl) [i, j, m] =
        (if 0 \<le> m \<and> m < N + 1 \<and> ilo g - 2 + is \<le> i \<and> i \<le> ihi g + 2 + is \<and>
            jlo g - 2 + js \<le> j \<and> j \<le> jhi g + 2 + js
         then elts (arr h q) [i - is, j - js, m] + 0.5 * elts (arr h ld) [i - is, j - js, m]
         else elts (arr h Vl) [i, j, m])"
      unfolding l2 using c1 cl n(1) by (auto simp: a(3,4))
    have cr2: "\<forall>i j m. elts (arr s2 Vr) [i, j, m] =
        (if 0 \<le> m \<and> m < N + 1 \<and> ilo g - 2 \<le> i \<and> i \<le> ihi g + 2 \<and> jlo g - 2 \<le> j \<and> j \<le> jhi g + 2
         then elts (arr h q) [i, j, m] - 0.5 * elts (arr h ld) [i, j, m]
         else elts (arr h Vr) [i, j, m])"
      using c2 cr n(1) by (auto simp: b)
    have "Inv (N + 1) s2"
      unfolding Inv_def
      apply (intro conjI)
            apply (simp add: 2(2) 1(2) a(1))
           apply (simp add: 2(3) 1(3) a(2))
          apply (rule o)
         apply (simp add: l2 1(5))
        apply (rule 2(5))
       apply (rule cl2)
      apply (rule cr2)
      done
    with run show ?thesis by blast
  qed
  from while_le_rule[of Inv 0 h "nv - 1" "\<lambda>n. and_then (left_state g Vl q ld is js n) (\<lambda>_. right_state g Vr q ld n)",
      OF i0 step]
  obtain h' where w: "while_le 0 (nv - 1) (\<lambda>n. and_then (left_state g Vl q ld is js n) (\<lambda>_. right_state g Vr q ld n)) h =
      (Inr (), h')" "Inv (max 0 (nv - 1 + 1)) h'"
    by blast
  have m: "max 0 (nv - 1 + 1) = nv" using nv by simp
  from w(2) have "Inv nv h'" unfolding m .
  then show ?thesis
    unfolding while_lt_def w(1) Inv_def by (intro exI[of _ h'] conjI refl) simp_all
qed

lemma rk_flattening_run:
  "\<exists>xi h'. rk_flattening K g ivars rp q h = (Inr xi, h') \<and> extends h h' \<and> timers h' = timers h \<and>
     nxt h' = nxt h + (if rp_use_flattening rp \<noteq> 0 then 3 else 0) \<and> xi_ok g h' xi"
  by (simp add: rk_flattening_def and_then_def load_Whole new_run ret_def alloc_simps ext_simps xi_ok_def)

lemma times_xi_run:
  assumes "xi_ok g h xi" "shape L = [qx g, qy g]"
  shows "\<exists>C. times_xi xi L h = (Inr C, h) \<and> shape C = [qx g, qy g]"
proof (cases xi)
  case XiOne
  then show ?thesis using assms(2) by (simp add: times_xi_def ret_def np_scale_def np_map_simps)
next
  case (XiArr a)
  with assms(1) have s: "shape (arr h a) = [qx g, qy g]" by (simp add: xi_ok_def)
  from np_mul2[OF s assms(2)] obtain C where "np_mul (arr h a) L = Inr C" "shape C = [qx g, qy g]"
    by blast
  then show ?thesis using XiArr by (simp add: times_xi_def and_then_def load_Whole lift_def)
qed

lemma with_plane_shape: "shape (with_plane A n R) = shape A"
  by (simp add: with_plane_def)

lemma limit_into_run:
  assumes q: "shape (arr h q) = [qx g, qy g, nv]" and ld: "shape (arr h ld) = [qx g, qy g, nv]"
    and n: "0 \<le> n" "n < nv" and xi: "xi_ok g h xi"
  shows "\<exists>X. limit_into K g xi lm q ld idir n h = (Inr (), store ld X h) \<and> shape X = [qx g, qy g, nv]"
proof -
  let ?qn = "\<lparr>shape = [qx g, qy g], elts = (\<lambda>k. elts (arr h q) (k @ [n]))\<rparr>"
  let ?L = "\<lparr>shape = [qx g, qy g], elts = limit K ?qn g idir lm\<rparr>"
  have l: "load (Comp q n) h = (Inr ?qn, h)" by (rule load_Comp[OF q n])
  from times_xi_run[OF xi, of ?L] obtain C where C: "times_xi xi ?L h = (Inr C, h)" "shape C = [qx g, qy g]"
    by auto
  have sp: "set_plane ld n C h = (Inr (), store ld (with_plane (arr h ld) n C) h)"
    by (rule set_plane_run[OF ld n C(2)])
  have "limit_into K g xi lm q ld idir n h = (Inr (), store ld (with_plane (arr h ld) n C) h)"
    unfolding limit_into_def
    by (rule and_then_run, rule l, rule and_then_run, rule C(1), rule sp)
  then show ?thesis using ld by (intro exI[of _ "with_plane (arr h ld) n C"]) (simp add: with_plane_shape)
qed

lemma xi_ok_same:
  "xi_ok g h xi \<Longrightarrow> nxt s = nxt h \<Longrightarrow> (\<And>a. a < nxt h \<Longrightarrow> a \<noteq> x \<Longrightarrow> a \<noteq> y \<Longrightarrow> shape (arr s a) = shape (arr h a)) \<Longrightarrow>
   (case xi of XiOne \<Rightarrow> True | XiArr a \<Rightarrow> a \<noteq> x \<and> a \<noteq> y) \<Longrightarrow> xi_ok g s xi"
  by (cases xi) (simp_all add: xi_ok_def)

lemma xi_ok_extends: "xi_ok g h xi \<Longrightarrow> extends h s \<Longrightarrow> xi_ok g s xi"
  by (cases xi) (auto simp: xi_ok_def extends_def)

lemma rk_limiting_run:
  assumes g: "grid_ok g" and nv: "0 \<le> nvar ivars"
    and q: "q < nxt h" "shape (arr h q) = [qx g, qy g, nvar ivars]" and xi: "xi_ok g h xi"
  shows "\<exists>h'. rk_limiting K g ivars rp xi q h = (Inr (nxt h, Suc (nxt h)), h') \<and> extends h h' \<and>
     nxt h' = nxt h + 2 \<and> timers h' = timers h @ [Begin ''limiting'', End ''limiting''] \<and>
     shape (arr h' (nxt h)) = [qx g, qy g, nvar ivars] \<and>
     shape (arr h' (Suc (nxt h))) = [qx g, qy g, nvar ivars]"
proof -
  let ?nv = "nvar ivars"
  let ?Z = "zeros [qx g, qy g, ?nv]"
  let ?h0 = "h\<lparr>timers := timers h @ [Begin ''limiting'']\<rparr>"
  let ?h2 = "alloc ?Z (alloc ?Z ?h0)"
  let ?ldx = "nxt ?h0" and ?ldy = "nxt (alloc ?Z ?h0)"
  have z: "\<And>s. np_zeros [qx g, qy g, ?nv] s = (Inr (nxt s), alloc ?Z s)"
    using grid_dims[OF g] nv by (simp add: np_zeros_run)
  have e2: "extends h ?h2" by (intro ext_simps)
  define Inv where "Inv (N::int) s \<longleftrightarrow> nxt s = nxt ?h2 \<and> timers s = timers ?h2 \<and>
      (\<forall>a. a \<noteq> ?ldx \<and> a \<noteq> ?ldy \<longrightarrow> arr s a = arr ?h2 a) \<and>
      shape (arr s ?ldx) = [qx g, qy g, ?nv] \<and> shape (arr s ?ldy) = [qx g, qy g, ?nv]" for N and s :: heap
  have i0: "Inv 0 ?h2" by (simp add: Inv_def alloc_simps zeros_def)
  have xin: "case xi of XiOne \<Rightarrow> True | XiArr a \<Rightarrow> a \<noteq> ?ldx \<and> a \<noteq> ?ldy"
    using xi by (cases xi) (simp_all add: xi_ok_def alloc_simps)
  have step: "\<exists>s'. and_then (limit_into K g xi (rp_limiter rp) q ?ldx 1 N)
        (\<lambda>_. limit_into K g xi (rp_limiter rp) q ?ldy 2 N) s = (Inr (), s') \<and> Inv (N + 1) s'"
    if N: "0 \<le> N" "N \<le> ?nv - 1" and I: "Inv N s" for N s
  proof -
    from I have a: "nxt s = nxt ?h2" "timers s = timers ?h2"
      "\<forall>a. a \<noteq> ?ldx \<and> a \<noteq> ?ldy \<longrightarrow> arr s a = arr ?h2 a"
      "shape (arr s ?ldx) = [qx g, qy g, ?nv]" "shape (arr s ?ldy) = [qx g, qy g, ?nv]"
      unfolding Inv_def by simp_all
    have n: "0 \<le> N" "N < ?nv" using N by simp_all
    have old: "\<And>b. b < nxt h \<Longrightarrow> arr s b = arr h b"
      using a(3) extends_old[OF e2] by (simp add: alloc_simps)
    have qs: "shape (arr s q) = [qx g, qy g, ?nv]" using old[OF q(1)] q(2) by simp
    have xs: "xi_ok g s xi"
      using xi old by (cases xi) (simp_all add: xi_ok_def a(1) alloc_simps)
    from limit_into_run[OF qs a(4) n xs, of K "rp_limiter rp" 1]
    obtain X where X: "limit_into K g xi (rp_limiter rp) q ?ldx 1 N s = (Inr (), store ?ldx X s)"
      "shape X = [qx g, qy g, ?nv]"
      by blast
    let ?s1 = "store ?ldx X s"
    have qs1: "shape (arr ?s1 q) = [qx g, qy g, ?nv]" using qs q(1) by (simp add: store_simps)
    have ys1: "shape (arr ?s1 ?ldy) = [qx g, qy g, ?nv]" using a(5) by (simp add: store_simps alloc_simps)
    have xs1: "xi_ok g ?s1 xi"
      using xs xin by (cases xi) (simp_all add: xi_ok_def store_simps)
    from limit_into_run[OF qs1 ys1 n xs1, of K "rp_limiter rp" 2]
    obtain Y where Y: "limit_into K g xi (rp_limiter rp) q ?ldy 2 N ?s1 = (Inr (), store ?ldy Y ?s1)"
      "shape Y = [qx g, qy g, ?nv]"
      by blast
    have run: "and_then (limit_into K g xi (rp_limiter rp) q ?ldx 1 N)
        (\<lambda>_. limit_into K g xi (rp_limiter rp) q ?ldy 2 N) s = (Inr (), store ?ldy Y ?s1)"
      by (rule and_then_run, rule X(1), rule Y(1))
    have "Inv (N + 1) (store ?ldy Y ?s1)"
      using a X(2) Y(2) by (simp add: Inv_def store_simps alloc_simps)
    with run show ?thesis by blast
  qed
  from while_le_rule[of Inv 0 ?h2 "?nv - 1" "\<lambda>n. and_then (limit_into K g xi (rp_limiter rp) q ?ldx 1 n)
        (\<lambda>_. limit_into K g xi (rp_limiter rp) q ?ldy 2 n)", OF i0 step]
  obtain h3 where w: "while_lt 0 ?nv (\<lambda>n. and_then (limit_into K g xi (rp_limiter rp) q ?ldx 1 n)
        (\<lambda>_. limit_into K g xi (rp_limiter rp) q ?ldy 2 n)) ?h2 = (Inr (), h3)"
    and I3: "Inv (max 0 (?nv - 1 + 1)) h3"
    unfolding while_lt_def by blast
  from I3 have a: "nxt h3 = nxt ?h2" "timers h3 = timers ?h2"
      "\<forall>a. a \<noteq> ?ldx \<and> a \<noteq> ?ldy \<longrightarrow> arr h3 a = arr ?h2 a"
      "shape (arr h3 ?ldx) = [qx g, qy g, ?nv]" "shape (arr h3 ?ldy) = [qx g, qy g, ?nv]"
    unfolding Inv_def by simp_all
  let ?h4 = "h3\<lparr>timers := timers h3 @ [End ''limiting'']\<rparr>"
  have run: "rk_limiting K g ivars rp xi q h = (Inr (?ldx, ?ldy), ?h4)"
    unfolding rk_limiting_def
    apply (rule and_then_run, rule tick_run)
    apply (rule and_then_run, rule z)
    apply (rule and_then_run, rule z)
    apply (rule and_then_run, rule w)
    apply (rule and_then_run, rule tick_run)
    apply (simp add: ret_def)
    done
  have e4: "extends h ?h4"
    using a(1,3) extends_old[OF e2] by (simp add: extends_def alloc_simps)
  show ?thesis
    apply (rule exI[of _ ?h4])
    using run e4 a by (simp add: alloc_simps)
qed

lemma conserved_of_run:
  "conserved_of K g ivars gamma V h =
     (Inr (nxt h), alloc \<lparr>shape = [qx g, qy g, nvar ivars], elts = prim_to_cons K (arr h V) gamma ivars g\<rparr> h)"
  by (simp add: conserved_of_def and_then_def load_Whole new_run)

lemma x_sweep_run:
  assumes g: "grid_ok g" and ng3: "3 \<le> ng g" and nv: "0 \<le> nvar ivars"
    and sh: "shape (arr h Vl) = [qx g, qy g, nvar ivars]" "shape (arr h Vr) = [qx g, qy g, nvar ivars]"
      "shape (arr h q) = [qx g, qy g, nvar ivars]" "shape (arr h ld) = [qx g, qy g, nvar ivars]"
    and ne: "Vl \<noteq> Vr" "Vl \<noteq> q" "Vl \<noteq> ld" "Vr \<noteq> q" "Vr \<noteq> ld"
  shows "\<exists>h'. x_sweep g ivars Vl Vr q ld h = (Inr (), h') \<and> nxt h' = nxt h \<and> timers h' = timers h \<and>
     (\<forall>a. a \<noteq> Vl \<and> a \<noteq> Vr \<longrightarrow> arr h' a = arr h a) \<and>
     shape (arr h' Vl) = [qx g, qy g, nvar ivars] \<and> shape (arr h' Vr) = [qx g, qy g, nvar ivars] \<and>
     (\<forall>i j m. elts (arr h' Vl) [i, j, m] =
        (if 0 \<le> m \<and> m < nvar ivars \<and> ilo g - 1 \<le> i \<and> i \<le> ihi g + 3 \<and> jlo g - 2 \<le> j \<and> j \<le> jhi g + 2
         then elts (arr h q) [i - 1, j, m] + 0.5 * elts (arr h ld) [i - 1, j, m]
         else elts (arr h Vl) [i, j, m])) \<and>
     (\<forall>i j m. elts (arr h' Vr) [i, j, m] =
        (if 0 \<le> m \<and> m < nvar ivars \<and> ilo g - 2 \<le> i \<and> i \<le> ihi g + 2 \<and> jlo g - 2 \<le> j \<and> j \<le> jhi g + 2
         then elts (arr h q) [i, j, m] - 0.5 * elts (arr h ld) [i, j, m]
         else elts (arr h Vr) [i, j, m]))"
proof -
  from sweep_run[OF g ng3 sh ne, of 1 0] nv
  obtain h' where r: "while_lt 0 (nvar ivars) (\<lambda>n. and_then (left_state g Vl q ld 1 0 n) (\<lambda>_. right_state g Vr q ld n)) h =
       (Inr (), h')" "nxt h' = nxt h" "timers h' = timers h"
     "\<forall>a. a \<noteq> Vl \<and> a \<noteq> Vr \<longrightarrow> arr h' a = arr h a"
     "shape (arr h' Vl) = [qx g, qy g, nvar ivars]" "shape (arr h' Vr) = [qx g, qy g, nvar ivars]"
    and l: "\<forall>i j m. elts (arr h' Vl) [i, j, m] =
        (if 0 \<le> m \<and> m < nvar ivars \<and> ilo g - 2 + 1 \<le> i \<and> i \<le> ihi g + 2 + 1 \<and>
            jlo g - 2 + 0 \<le> j \<and> j \<le> jhi g + 2 + 0
         then elts (arr h q) [i - 1, j - 0, m] + 0.5 * elts (arr h ld) [i - 1, j - 0, m]
         else elts (arr h Vl) [i, j, m])"
    and rr: "\<forall>i j m. elts (arr h' Vr) [i, j, m] =
        (if 0 \<le> m \<and> m < nvar ivars \<and> ilo g - 2 \<le> i \<and> i \<le> ihi g + 2 \<and> jlo g - 2 \<le> j \<and> j \<le> jhi g + 2
         then elts (arr h q) [i, j, m] - 0.5 * elts (arr h ld) [i, j, m]
         else elts (arr h Vr) [i, j, m])"
    by auto
  have l': "\<forall>i j m. elts (arr h' Vl) [i, j, m] =
        (if 0 \<le> m \<and> m < nvar ivars \<and> ilo g - 1 \<le> i \<and> i \<le> ihi g + 3 \<and> jlo g - 2 \<le> j \<and> j \<le> jhi g + 2
         then elts (arr h q) [i - 1, j, m] + 0.5 * elts (arr h ld) [i - 1, j, m]
         else elts (arr h Vl) [i, j, m])"
  proof (intro allI)
    fix i j m
    have c: "(ilo g - 2 + 1 \<le> i \<and> i \<le> ihi g + 2 + 1 \<and> jlo g - 2 + 0 \<le> j \<and> j \<le> jhi g + 2 + 0) =
        (ilo g - 1 \<le> i \<and> i \<le> ihi g + 3 \<and> jlo g - 2 \<le> j \<and> j \<le> jhi g + 2)"
      by auto
    from l[rule_format, of i j m] show "elts (arr h' Vl) [i, j, m] =
        (if 0 \<le> m \<and> m < nvar ivars \<and> ilo g - 1 \<le> i \<and> i \<le> ihi g + 3 \<and> jlo g - 2 \<le> j \<and> j \<le> jhi g + 2
         then elts (arr h q) [i - 1, j, m] + 0.5 * elts (arr h ld) [i - 1, j, m]
         else elts (arr h Vl) [i, j, m])"
      unfolding c diff_zero .
  qed
  show ?thesis
    unfolding x_sweep_def
    apply (rule exI[of _ h'])
    apply (intro conjI)
    apply (rule r(1), rule r(2), rule r(3), rule r(4), rule r(5), rule r(6), rule l', rule rr)
    done
qed

lemma y_sweep_run:
  assumes g: "grid_ok g" and ng3: "3 \<le> ng g" and nv: "0 \<le> nvar ivars"
    and sh: "shape (arr h Vl) = [qx g, qy g, nvar ivars]" "shape (arr h Vr) = [qx g, qy g, nvar ivars]"
      "shape (arr h q) = [qx g, qy g, nvar ivars]" "shape (arr h ld) = [qx g, qy g, nvar ivars]"
    and ne: "Vl \<noteq> Vr" "Vl \<noteq> q" "Vl \<noteq> ld" "Vr \<noteq> q" "Vr \<noteq> ld"
  shows "\<exists>h'. y_sweep g ivars Vl Vr q ld h = (Inr (), h') \<and> nxt h' = nxt h \<and> timers h' = timers h \<and>
     (\<forall>a. a \<noteq> Vl \<and> a \<noteq> Vr \<longrightarrow> arr h' a = arr h a) \<and>
     shape (arr h' Vl) = [qx g, qy g, nvar ivars] \<and> shape (arr h' Vr) = [qx g, qy g, nvar ivars] \<and>
     (\<forall>i j m. elts (arr h' Vl) [i, j, m] =
        (if 0 \<le> m \<and> m < nvar ivars \<and> ilo g - 2 \<le> i \<and> i \<le> ihi g + 2 \<and> jlo g - 1 \<le> j \<and> j \<le> jhi g + 3
         then elts (arr h q) [i, j - 1, m] + 0.5 * elts (arr h ld) [i, j - 1, m]
         else elts (arr h Vl) [i, j, m])) \<and>
     (\<forall>i j m. elts (arr h' Vr) [i, j, m] =
        (if 0 \<le> m \<and> m < nvar ivars \<and> ilo g - 2 \<le> i \<and> i \<le> ihi g + 2 \<and> jlo g - 2 \<le> j \<and> j \<le> jhi g + 2
         then elts (arr h q) [i, j, m] - 0.5 * elts (arr h ld) [i, j, m]
         else elts (arr h Vr) [i, j, m]))"
proof -
  from sweep_run[OF g ng3 sh ne, of 0 1] nv
  obtain h' where r: "while_lt 0 (nvar ivars) (\<lambda>n. and_then (left_state g Vl q ld 0 1 n) (\<lambda>_. right_state g Vr q ld n)) h =
       (Inr (), h')" "nxt h' = nxt h" "timers h' = timers h"
     "\<forall>a. a \<noteq> Vl \<and> a \<noteq> Vr \<longrightarrow> arr h' a = arr h a"
     "shape (arr h' Vl) = [qx g, qy g, nvar ivars]" "shape (arr h' Vr) = [qx g, qy g, nvar ivars]"
    and l: "\<forall>i j m. elts (arr h' Vl) [i, j, m] =
        (if 0 \<le> m \<and> m < nvar ivars \<and> ilo g - 2 + 0 \<le> i \<and> i \<le> ihi g + 2 + 0 \<and>
            jlo g - 2 + 1 \<le> j \<and> j \<le> jhi g + 2 + 1
         then elts (arr h q) [i - 0, j - 1, m] + 0.5 * elts (arr h ld) [i - 0, j - 1, m]
         else elts (arr h Vl) [i, j, m])"
    and rr: "\<forall>i j m. elts (arr h' Vr) [i, j, m] =
        (if 0 \<le> m \<and> m < nvar ivars \<and> ilo g - 2 \<le> i \<and> i \<le> ihi g + 2 \<and> jlo g - 2 \<le> j \<and> j \<le> jhi g + 2
         then elts (arr h q) [i, j, m] - 0.5 * elts (arr h ld) [i, j, m]
         else elts (arr h Vr) [i, j, m])"
    by auto
  have l': "\<forall>i j m. elts (arr h' Vl) [i, j, m] =
        (if 0 \<le> m \<and> m < nvar ivars \<and> ilo g - 2 \<le> i \<and> i \<le> ihi g + 2 \<and> jlo g - 1 \<le> j \<and> j \<le> jhi g + 3
         then elts (arr h q) [i, j - 1, m] + 0.5 * elts (arr h ld) [i, j - 1, m]
         else elts (arr h Vl) [i, j, m])"
  proof (intro allI)
    fix i j m
    have c: "(ilo g - 2 + 0 \<le> i \<and> i \<le> ihi g + 2 + 0 \<and> jlo g - 2 + 1 \<le> j \<and> j \<le> jhi g + 2 + 1) =
        (ilo g - 2 \<le> i \<and> i \<le> ihi g + 2 \<and> jlo g - 1 \<le> j \<and> j \<le> jhi g + 3)"
      by auto
    from l[rule_format, of i j m] show "elts (arr h' Vl) [i, j, m] =
        (if 0 \<le> m \<and> m < nvar ivars \<and> ilo g - 2 \<le> i \<and> i \<le> ihi g + 2 \<and> jlo g - 1 \<le> j \<and> j \<le> jhi g + 3
         then elts (arr h q) [i, j - 1, m] + 0.5 * elts (arr h ld) [i, j - 1, m]
         else elts (arr h Vl) [i, j, m])"
      unfolding c diff_zero .
  qed
  show ?thesis
    unfolding y_sweep_def
    apply (rule exI[of _ h'])
    apply (intro conjI)
    apply (rule r(1), rule r(2), rule r(3), rule r(4), rule r(5), rule r(6), rule l', rule rr)
    done
qed

lemma rk_interface_states_run:
  assumes ok: "data_ok d h" and nv: "0 \<le> nvar ivars" and ng3: "3 \<le> ng (grid d)"
  shows "\<exists>q ldx ldy Vl Vr xl xr yl yr VXl VXr h'.
     rk_interface_states K d rp ivars h =
       (Inr \<lparr>rk_V_l = Vl, rk_V_r = Vr, rk_q = q, rk_ldx = ldx, rk_ldy = ldy,
             rk_U = \<lparr>U_xl = xl, U_xr = xr, U_yl = yl, U_yr = yr\<rparr>\<rparr>, h') \<and>
     q = nxt h \<and> ldx = nxt h + (if rp_use_flattening rp \<noteq> 0 then 3 else 0) + 1 \<and>
     ldy = ldx + 1 \<and> Vl = ldx + 2 \<and> Vr = ldx + 3 \<and> xl = ldx + 4 \<and> xr = ldx + 5 \<and>
     yl = ldx + 6 \<and> yr = ldx + 7 \<and> nxt h' = ldx + 8 \<and>
     extends h h' \<and>
     timers h' = timers h @ [Begin ''unsplitFluxes'', Begin ''limiting'', End ''limiting'',
       Begin ''interfaceStates'', End ''interfaceStates'', Begin ''interfaceStates'', End ''interfaceStates''] \<and>
     arr h' q = \<lparr>shape = [qx (grid d), qy (grid d), nvar ivars],
                 elts = cons_to_prim K (arr h (data d)) (rp_gamma rp) ivars (grid d)\<rparr> \<and>
     shape (arr h' ldx) = [qx (grid d), qy (grid d), nvar ivars] \<and>
     shape (arr h' ldy) = [qx (grid d), qy (grid d), nvar ivars] \<and>
     shape (arr h' Vl) = [qx (grid d), qy (grid d), nvar ivars] \<and>
     shape (arr h' Vr) = [qx (grid d), qy (grid d), nvar ivars] \<and>
     (\<forall>i j m. elts VXl [i, j, m] =
        (if 0 \<le> m \<and> m < nvar ivars \<and> ilo (grid d) - 1 \<le> i \<and> i \<le> ihi (grid d) + 3 \<and>
            jlo (grid d) - 2 \<le> j \<and> j \<le> jhi (grid d) + 2
         then elts (arr h' q) [i - 1, j, m] + 0.5 * elts (arr h' ldx) [i - 1, j, m]
         else 0)) \<and>
     (\<forall>i j m. elts VXr [i, j, m] =
        (if 0 \<le> m \<and> m < nvar ivars \<and> ilo (grid d) - 2 \<le> i \<and> i \<le> ihi (grid d) + 2 \<and>
            jlo (grid d) - 2 \<le> j \<and> j \<le> jhi (grid d) + 2
         then elts (arr h' q) [i, j, m] - 0.5 * elts (arr h' ldx) [i, j, m]
         else 0)) \<and>
     (\<forall>i j m. elts (arr h' Vl) [i, j, m] =
        (if 0 \<le> m \<and> m < nvar ivars \<and> ilo (grid d) - 2 \<le> i \<and> i \<le> ihi (grid d) + 2 \<and>
            jlo (grid d) - 1 \<le> j \<and> j \<le> jhi (grid d) + 3
         then elts (arr h' q) [i, j - 1, m] + 0.5 * elts (arr h' ldy) [i, j - 1, m]
         else elts VXl [i, j, m])) \<and>
     (\<forall>i j m. elts (arr h' Vr) [i, j, m] =
        (if 0 \<le> m \<and> m < nvar ivars \<and> ilo (grid d) - 2 \<le> i \<and> i \<le> ihi (grid d) + 2 \<and>
            jlo (grid d) - 2 \<le> j \<and> j \<le> jhi (grid d) + 2
         then elts (arr h' q) [i, j, m] - 0.5 * elts (arr h' ldy) [i, j, m]
         else elts VXr [i, j, m])) \<and>
     arr h' xl = \<lparr>shape = [qx (grid d), qy (grid d), nvar ivars],
                  elts = prim_to_cons K VXl (rp_gamma rp) ivars (grid d)\<rparr> \<and>
     arr h' xr = \<lparr>shape = [qx (grid d), qy (grid d), nvar ivars],
                  elts = prim_to_cons K VXr (rp_gamma rp) ivars (grid d)\<rparr> \<and>
     arr h' yl = \<lparr>shape = [qx (grid d), qy (grid d), nvar ivars],
                  elts = prim_to_cons K (arr h' Vl) (rp_gamma rp) ivars (grid d)\<rparr> \<and>
     arr h' yr = \<lparr>shape = [qx (grid d), qy (grid d), nvar ivars],
                  elts = prim_to_cons K (arr h' Vr) (rp_gamma rp) ivars (grid d)\<rparr>"
proof -
  let ?g = "grid d" and ?nv = "nvar ivars" and ?gm = "rp_gamma rp"
  let ?k = "if rp_use_flattening rp \<noteq> 0 then 3 else (0::nat)"
  from ok have g: "grid_ok ?g" and dl: "data d < nxt h" by (simp_all add: data_ok_def)
  let ?h0 = "h\<lparr>timers := timers h @ [Begin ''unsplitFluxes'']\<rparr>"
  have ok0: "data_ok d ?h0" using ok by (simp add: data_ok_timers)
  from ok have hv: "has_var d ''density''" "has_var d ''x-momentum''" "has_var d ''y-momentum''"
    "has_var d ''energy''"
    by (simp_all add: data_ok_def)
  note gv = getVarPtr_run(1)[OF ok0 hv(1)] getVarPtr_run(1)[OF ok0 hv(2)] getVarPtr_run(1)[OF ok0 hv(3)]
    getVarPtr_run(1)[OF ok0 hv(4)]
  let ?Q = "\<lparr>shape = [qx ?g, qy ?g, ?nv], elts = cons_to_prim K (arr ?h0 (data d)) ?gm ivars ?g\<rparr>"
  let ?q = "nxt ?h0"
  let ?h1 = "alloc ?Q ?h0"
  from rk_flattening_run[of K ?g ivars rp ?q ?h1]
  obtain xi h2 where 2: "rk_flattening K ?g ivars rp ?q ?h1 = (Inr xi, h2)" "extends ?h1 h2"
    "timers h2 = timers ?h1" "nxt h2 = nxt ?h1 + ?k" "xi_ok ?g h2 xi"
    by blast
  have q2: "?q < nxt h2" "arr h2 ?q = ?Q"
    using extends_nxt[OF 2(2)] extends_old[OF 2(2), of ?q] by (simp_all add: alloc_simps)
  have qs2: "shape (arr h2 ?q) = [qx ?g, qy ?g, ?nv]" unfolding q2(2) by simp
  from rk_limiting_run[OF g nv q2(1) qs2 2(5), of K rp]
  obtain h3 where 3: "rk_limiting K ?g ivars rp xi ?q h2 = (Inr (nxt h2, Suc (nxt h2)), h3)"
    "extends h2 h3" "nxt h3 = nxt h2 + 2"
    "timers h3 = timers h2 @ [Begin ''limiting'', End ''limiting'']"
    "shape (arr h3 (nxt h2)) = [qx ?g, qy ?g, ?nv]" "shape (arr h3 (Suc (nxt h2))) = [qx ?g, qy ?g, ?nv]"
    by blast
  let ?ldx = "nxt h2" and ?ldy = "Suc (nxt h2)"
  let ?h4 = "h3\<lparr>timers := timers h3 @ [Begin ''interfaceStates'']\<rparr>"
  let ?Z = "zeros [qx ?g, qy ?g, ?nv]"
  have z: "\<And>s. np_zeros [qx ?g, qy ?g, ?nv] s = (Inr (nxt s), alloc ?Z s)"
    using grid_dims[OF g] nv by (simp add: np_zeros_run)
  let ?Vl = "nxt ?h4" and ?Vr = "nxt (alloc ?Z ?h4)"
  let ?h5 = "alloc ?Z (alloc ?Z ?h4)"
  have q3: "arr h3 ?q = ?Q" using extends_old[OF 3(2) q2(1)] q2(2) by simp
  have n5: "nxt ?h5 = nxt h2 + 4" using 3(3) by (simp add: alloc_simps)
  have a5: "arr ?h5 ?q = ?Q" "arr ?h5 ?Vl = ?Z" "arr ?h5 ?Vr = ?Z" "arr ?h5 ?ldx = arr h3 ?ldx"
    "arr ?h5 ?ldy = arr h3 ?ldy"
    using q3 q2(1) 3(3) by (simp_all add: alloc_simps)
  have sh5: "shape (arr ?h5 ?Vl) = [qx ?g, qy ?g, ?nv]" "shape (arr ?h5 ?Vr) = [qx ?g, qy ?g, ?nv]"
    "shape (arr ?h5 ?q) = [qx ?g, qy ?g, ?nv]" "shape (arr ?h5 ?ldx) = [qx ?g, qy ?g, ?nv]"
    "shape (arr ?h5 ?ldy) = [qx ?g, qy ?g, ?nv]"
    unfolding a5 using 3(5,6) by (simp_all add: zeros_def)
  have ne: "?Vl \<noteq> ?Vr" "?Vl \<noteq> ?q" "?Vl \<noteq> ?ldx" "?Vr \<noteq> ?q" "?Vr \<noteq> ?ldx" "?Vl \<noteq> ?ldy" "?Vr \<noteq> ?ldy"
    "?q \<noteq> ?ldx" "?q \<noteq> ?ldy"
    using q2(1) 3(3) by (simp_all add: alloc_simps)
  from x_sweep_run[OF g ng3 nv sh5(1,2,3,4) ne(1-5)]
  obtain h6 where 6: "x_sweep ?g ivars ?Vl ?Vr ?q ?ldx ?h5 = (Inr (), h6)" "nxt h6 = nxt ?h5"
    "timers h6 = timers ?h5" "\<forall>a. a \<noteq> ?Vl \<and> a \<noteq> ?Vr \<longrightarrow> arr h6 a = arr ?h5 a"
    "shape (arr h6 ?Vl) = [qx ?g, qy ?g, ?nv]" "shape (arr h6 ?Vr) = [qx ?g, qy ?g, ?nv]"
    and xl6: "\<forall>i j m. elts (arr h6 ?Vl) [i, j, m] =
        (if 0 \<le> m \<and> m < ?nv \<and> ilo ?g - 1 \<le> i \<and> i \<le> ihi ?g + 3 \<and> jlo ?g - 2 \<le> j \<and> j \<le> jhi ?g + 2
         then elts (arr ?h5 ?q) [i - 1, j, m] + 0.5 * elts (arr ?h5 ?ldx) [i - 1, j, m]
         else elts (arr ?h5 ?Vl) [i, j, m])"
    and xr6: "\<forall>i j m. elts (arr h6 ?Vr) [i, j, m] =
        (if 0 \<le> m \<and> m < ?nv \<and> ilo ?g - 2 \<le> i \<and> i \<le> ihi ?g + 2 \<and> jlo ?g - 2 \<le> j \<and> j \<le> jhi ?g + 2
         then elts (arr ?h5 ?q) [i, j, m] - 0.5 * elts (arr ?h5 ?ldx) [i, j, m]
         else elts (arr ?h5 ?Vr) [i, j, m])"
    by blast
  let ?h7 = "h6\<lparr>timers := timers h6 @ [End ''interfaceStates'']\<rparr>"
  let ?XL = "\<lparr>shape = [qx ?g, qy ?g, ?nv], elts = prim_to_cons K (arr ?h7 ?Vl) ?gm ivars ?g\<rparr>"
  let ?h8 = "alloc ?XL ?h7"
  let ?XR = "\<lparr>shape = [qx ?g, qy ?g, ?nv], elts = prim_to_cons K (arr ?h8 ?Vr) ?gm ivars ?g\<rparr>"
  let ?h9 = "alloc ?XR ?h8"
  let ?h10 = "?h9\<lparr>timers := timers ?h9 @ [Begin ''interfaceStates'']\<rparr>"
  have n10: "nxt ?h10 = nxt h2 + 6" using 6(2) n5 by (simp add: alloc_simps)
  have lt: "?q < nxt h6" "?ldx < nxt h6" "?ldy < nxt h6" "?Vl < nxt h6" "?Vr < nxt h6"
    using q2(1) 6(2) n5 3(3) by (simp_all add: alloc_simps)
  have a10: "arr ?h10 ?q = ?Q" "arr ?h10 ?ldx = arr h3 ?ldx" "arr ?h10 ?ldy = arr h3 ?ldy"
    "arr ?h10 ?Vl = arr h6 ?Vl" "arr ?h10 ?Vr = arr h6 ?Vr"
    using lt 6(4) ne a5 by (simp_all add: alloc_simps)
  have sh10: "shape (arr ?h10 ?Vl) = [qx ?g, qy ?g, ?nv]" "shape (arr ?h10 ?Vr) = [qx ?g, qy ?g, ?nv]"
    "shape (arr ?h10 ?q) = [qx ?g, qy ?g, ?nv]" "shape (arr ?h10 ?ldy) = [qx ?g, qy ?g, ?nv]"
    unfolding a10 using 6(5,6) 3(6) by simp_all
  from y_sweep_run[OF g ng3 nv sh10 ne(1,2,6,4,7)]
  obtain h11 where 11: "y_sweep ?g ivars ?Vl ?Vr ?q ?ldy ?h10 = (Inr (), h11)" "nxt h11 = nxt ?h10"
    "timers h11 = timers ?h10" "\<forall>a. a \<noteq> ?Vl \<and> a \<noteq> ?Vr \<longrightarrow> arr h11 a = arr ?h10 a"
    "shape (arr h11 ?Vl) = [qx ?g, qy ?g, ?nv]" "shape (arr h11 ?Vr) = [qx ?g, qy ?g, ?nv]"
    and yl11: "\<forall>i j m. elts (arr h11 ?Vl) [i, j, m] =
        (if 0 \<le> m \<and> m < ?nv \<and> ilo ?g - 2 \<le> i \<and> i \<le> ihi ?g + 2 \<and> jlo ?g - 1 \<le> j \<and> j \<le> jhi ?g + 3
         then elts (arr ?h10 ?q) [i, j - 1, m] + 0.5 * elts (arr ?h10 ?ldy) [i, j - 1, m]
         else elts (arr ?h10 ?Vl) [i, j, m])"
    and yr11: "\<forall>i j m. elts (arr h11 ?Vr) [i, j, m] =
        (if 0 \<le> m \<and> m < ?nv \<and> ilo ?g - 2 \<le> i \<and> i \<le> ihi ?g + 2 \<and> jlo ?g - 2 \<le> j \<and> j \<le> jhi ?g + 2
         then elts (arr ?h10 ?q) [i, j, m] - 0.5 * elts (arr ?h10 ?ldy) [i, j, m]
         else elts (arr ?h10 ?Vr) [i, j, m])"
    by blast
  let ?h12 = "h11\<lparr>timers := timers h11 @ [End ''interfaceStates'']\<rparr>"
  let ?YL = "\<lparr>shape = [qx ?g, qy ?g, ?nv], elts = prim_to_cons K (arr ?h12 ?Vl) ?gm ivars ?g\<rparr>"
  let ?h13 = "alloc ?YL ?h12"
  let ?YR = "\<lparr>shape = [qx ?g, qy ?g, ?nv], elts = prim_to_cons K (arr ?h13 ?Vr) ?gm ivars ?g\<rparr>"
  let ?h14 = "alloc ?YR ?h13"
  let ?xl = "nxt ?h7" and ?xr = "nxt ?h8" and ?yl = "nxt ?h12" and ?yr = "nxt ?h13"
  let ?S = "\<lparr>rk_V_l = ?Vl, rk_V_r = ?Vr, rk_q = ?q, rk_ldx = ?ldx, rk_ldy = ?ldy,
             rk_U = \<lparr>U_xl = ?xl, U_xr = ?xr, U_yl = ?yl, U_yr = ?yr\<rparr>\<rparr>"
  have run: "rk_interface_states K d rp ivars h = (Inr ?S, ?h14)"
    unfolding rk_interface_states_def Let_def
    apply (rule and_then_run, rule tick_run)
    apply (rule and_then_run, rule gv(1))
    apply (rule and_then_run, rule gv(2))
    apply (rule and_then_run, rule gv(3))
    apply (rule and_then_run, rule gv(4))
    apply (rule and_then_run, rule load_Whole)
    apply (rule and_then_run, rule new_run)
    apply (rule and_then_run, rule 2(1))
    apply (rule and_then_run, rule 3(1))
    unfolding prod.case
    apply (rule and_then_run, rule tick_run)
    apply (rule and_then_run, rule z)
    apply (rule and_then_run, rule z)
    apply (rule and_then_run, rule 6(1))
    apply (rule and_then_run, rule tick_run)
    apply (rule and_then_run, rule conserved_of_run)
    apply (rule and_then_run, rule conserved_of_run)
    apply (rule and_then_run, rule tick_run)
    apply (rule and_then_run, rule 11(1))
    apply (rule and_then_run, rule tick_run)
    apply (rule and_then_run, rule conserved_of_run)
    apply (rule and_then_run, rule conserved_of_run)
    apply (simp add: ret_def)
    done
  have n14: "nxt ?h14 = nxt h2 + 8" using 11(2) n10 by (simp add: alloc_simps)
  have adr: "?q = nxt h" "?ldx = nxt h + ?k + 1" "?ldy = ?ldx + 1" "?Vl = ?ldx + 2" "?Vr = ?ldx + 3"
    "?xl = ?ldx + 4" "?xr = ?ldx + 5" "?yl = ?ldx + 6" "?yr = ?ldx + 7" "nxt ?h14 = ?ldx + 8"
    using 2(4) 3(3) 6(2) 11(2) by (simp_all add: alloc_simps)
  have lt11: "?q < nxt h11" "?ldx < nxt h11" "?ldy < nxt h11" "?Vl < nxt h11" "?Vr < nxt h11"
    "?xl < nxt h11" "?xr < nxt h11"
    using 11(2) n10 lt 6(2) by (simp_all add: alloc_simps)
  have ne2: "?xl \<noteq> ?Vl" "?xl \<noteq> ?Vr" "?xr \<noteq> ?Vl" "?xr \<noteq> ?Vr"
    using lt by (simp_all add: alloc_simps)
  have a14: "arr ?h14 ?q = ?Q" "arr ?h14 ?ldx = arr h3 ?ldx" "arr ?h14 ?ldy = arr h3 ?ldy"
    "arr ?h14 ?Vl = arr h11 ?Vl" "arr ?h14 ?Vr = arr h11 ?Vr"
    using lt11 11(4) ne a10 by (simp_all add: alloc_simps)
  have x14: "arr ?h14 ?xl = ?XL" "arr ?h14 ?xr = ?XR"
    using lt11 11(4) ne2 by (simp_all add: alloc_simps)
  have y14: "arr ?h14 ?yl = ?YL" "arr ?h14 ?yr = ?YR"
    by (simp_all add: alloc_simps)
  have v7: "arr ?h7 ?Vl = arr h6 ?Vl" "arr ?h8 ?Vr = arr h6 ?Vr" "arr ?h12 ?Vl = arr h11 ?Vl"
    "arr ?h13 ?Vr = arr h11 ?Vr"
    using lt lt11 by (simp_all add: alloc_simps)
  have e14: "extends h ?h14"
  proof -
    have "\<And>a. a < nxt h \<Longrightarrow> arr ?h14 a = arr h a"
    proof -
      fix a assume a: "a < nxt h"
      then have b: "a < nxt ?h1" "a \<noteq> ?Vl" "a \<noteq> ?Vr" "a < nxt h2" "a < nxt h3" "a < nxt h6" "a < nxt h11"
        using 2(4) 3(3) 6(2) 11(2) by (simp_all add: alloc_simps)
      have "arr ?h14 a = arr h11 a" using b by (simp add: alloc_simps)
      also have "\<dots> = arr ?h10 a" using 11(4) b by simp
      also have "\<dots> = arr h6 a" using b by (simp add: alloc_simps)
      also have "\<dots> = arr ?h5 a" using 6(4) b by simp
      also have "\<dots> = arr h3 a" using b by (simp add: alloc_simps)
      also have "\<dots> = arr h2 a" using extends_old[OF 3(2) b(4)] .
      also have "\<dots> = arr ?h1 a" using extends_old[OF 2(2) b(1)] .
      also have "\<dots> = arr h a" using a by (simp add: alloc_simps)
      finally show "arr ?h14 a = arr h a" .
    qed
    moreover have "nxt h \<le> nxt ?h14" unfolding n14 using 2(4) by (simp add: alloc_simps)
    ultimately show ?thesis unfolding extends_def by blast
  qed
  have t14: "timers ?h14 = timers h @ [Begin ''unsplitFluxes'', Begin ''limiting'', End ''limiting'',
       Begin ''interfaceStates'', End ''interfaceStates'', Begin ''interfaceStates'', End ''interfaceStates'']"
    using 11(3) 6(3) 3(4) 2(3) by (simp add: alloc_simps)
  have Qe: "?Q = \<lparr>shape = [qx ?g, qy ?g, ?nv], elts = cons_to_prim K (arr h (data d)) ?gm ivars ?g\<rparr>"
    by simp
  have s14: "shape (arr ?h14 ?ldx) = [qx ?g, qy ?g, ?nv]" "shape (arr ?h14 ?ldy) = [qx ?g, qy ?g, ?nv]"
    "shape (arr ?h14 ?Vl) = [qx ?g, qy ?g, ?nv]" "shape (arr ?h14 ?Vr) = [qx ?g, qy ?g, ?nv]"
    unfolding a14 using 3(5,6) 11(5,6) by simp_all
  have cxl: "\<forall>i j m. elts (arr h6 ?Vl) [i, j, m] =
        (if 0 \<le> m \<and> m < ?nv \<and> ilo ?g - 1 \<le> i \<and> i \<le> ihi ?g + 3 \<and> jlo ?g - 2 \<le> j \<and> j \<le> jhi ?g + 2
         then elts (arr ?h14 ?q) [i - 1, j, m] + 0.5 * elts (arr ?h14 ?ldx) [i - 1, j, m]
         else 0)"
    using xl6 unfolding a5 a14 by (simp add: zeros_def)
  have cxr: "\<forall>i j m. elts (arr h6 ?Vr) [i, j, m] =
        (if 0 \<le> m \<and> m < ?nv \<and> ilo ?g - 2 \<le> i \<and> i \<le> ihi ?g + 2 \<and> jlo ?g - 2 \<le> j \<and> j \<le> jhi ?g + 2
         then elts (arr ?h14 ?q) [i, j, m] - 0.5 * elts (arr ?h14 ?ldx) [i, j, m]
         else 0)"
    using xr6 unfolding a5 a14 by (simp add: zeros_def)
  have cyl: "\<forall>i j m. elts (arr ?h14 ?Vl) [i, j, m] =
        (if 0 \<le> m \<and> m < ?nv \<and> ilo ?g - 2 \<le> i \<and> i \<le> ihi ?g + 2 \<and> jlo ?g - 1 \<le> j \<and> j \<le> jhi ?g + 3
         then elts (arr ?h14 ?q) [i, j - 1, m] + 0.5 * elts (arr ?h14 ?ldy) [i, j - 1, m]
         else elts (arr h6 ?Vl) [i, j, m])"
    using yl11 unfolding a10 a14 .
  have cyr: "\<forall>i j m. elts (arr ?h14 ?Vr) [i, j, m] =
        (if 0 \<le> m \<and> m < ?nv \<and> ilo ?g - 2 \<le> i \<and> i \<le> ihi ?g + 2 \<and> jlo ?g - 2 \<le> j \<and> j \<le> jhi ?g + 2
         then elts (arr ?h14 ?q) [i, j, m] - 0.5 * elts (arr ?h14 ?ldy) [i, j, m]
         else elts (arr h6 ?Vr) [i, j, m])"
    using yr11 unfolding a10 a14 .
  have fx: "arr ?h14 ?xl = \<lparr>shape = [qx ?g, qy ?g, ?nv], elts = prim_to_cons K (arr h6 ?Vl) ?gm ivars ?g\<rparr>"
    "arr ?h14 ?xr = \<lparr>shape = [qx ?g, qy ?g, ?nv], elts = prim_to_cons K (arr h6 ?Vr) ?gm ivars ?g\<rparr>"
    using x14 v7(1,2) by simp_all
  have fy: "arr ?h14 ?yl = \<lparr>shape = [qx ?g, qy ?g, ?nv], elts = prim_to_cons K (arr ?h14 ?Vl) ?gm ivars ?g\<rparr>"
    "arr ?h14 ?yr = \<lparr>shape = [qx ?g, qy ?g, ?nv], elts = prim_to_cons K (arr ?h14 ?Vr) ?gm ivars ?g\<rparr>"
    using y14 v7(3,4) a14(4,5) by simp_all
  show ?thesis
    apply (rule exI[of _ ?q], rule exI[of _ ?ldx], rule exI[of _ ?ldy], rule exI[of _ ?Vl], rule exI[of _ ?Vr],
        rule exI[of _ ?xl], rule exI[of _ ?xr], rule exI[of _ ?yl], rule exI[of _ ?yr],
        rule exI[of _ "arr h6 ?Vl"], rule exI[of _ "arr h6 ?Vr"], rule exI[of _ ?h14])
    apply (intro conjI)
    apply (rule run)
    apply (rule adr(1), rule adr(2), rule adr(3), rule adr(4), rule adr(5), rule adr(6), rule adr(7),
        rule adr(8), rule adr(9), rule adr(10))
    apply (rule e14, rule t14)
    apply (rule a14(1)[unfolded Qe])
    apply (rule s14(1), rule s14(2), rule s14(3), rule s14(4))
    apply (rule cxl, rule cxr, rule cyl, rule cyr)
    apply (rule fx(1), rule fx(2), rule fy(1), rule fy(2))
    done
qed

subsection \<open>The transverse correction\<close>




text \<open>
  Claim C7, as the code has it. With two ghost layers the correction loop leaves the flux
  arrays in its first row \<open>j = jlo-2\<close>: the cells \<open>i = ilo-2 .. ihi+1\<close> of that row are
  corrected, with subscripts \<open>-1\<close> that Python wraps to the other edge (the first read of
  the loop is \<open>F_y[ilo-3, jlo-1, 0] = F_y[-1, jlo-1, 0]\<close>, which is \<open>F_y[qx-1, jlo-1, 0]\<close>, and
  the row reads \<open>F_x[., jlo-3] = F_x[., -1]\<close>, which is \<open>F_x[., qy-1]\<close>); at \<open>i = ihi+2\<close>, \<open>n = 0\<close>
  the updates of \<open>U_xl\<close> and \<open>U_xr\<close> are made and the update of \<open>U_yl\<close> reads
  \<open>F_x[ihi+3, jlo-3, 0] = F_x[qx, -1, 0]\<close>, past the end of the first axis: IndexError. The
  row, and with it the loop, ends there; no later row is begun. The subscripts of a pass
  are those of \<open>stencil\<close>; all of them are within \<open>0..qx-1\<close>, \<open>0..qy-1\<close> without wrapping
  for every cell of the loop exactly when \<open>ng \<ge> 3\<close>, and exactly then the loop runs to its
  end.
\<close>

theorem transverse_correct_first_failure:
  assumes "grid_ok g" and "0 < nv"
    and "distinct [U_xl A, U_xr A, U_yl A, U_yr A, F_x F, F_y F]"
    and "shaped g nv A F h"
  shows "(ng g = 2 \<longrightarrow>
           (\<exists>h1 h2 h3.
              while_le (ilo g - 2) (ihi g + 1)
                (\<lambda>i. while_lt 0 nv (correct_cell g dt A F (jlo g - 2) i)) h = (Inr (), h1) \<and>
              correct_one (U_xl A) (F_y F) dt (dy g) [ihi g + 2, jlo g - 2, 0]
                [ihi g + 2 - 1, jlo g - 2 + 1, 0] [ihi g + 2 - 1, jlo g - 2, 0] h1 = (Inr (), h2) \<and>
              correct_one (U_xr A) (F_y F) dt (dy g) [ihi g + 2, jlo g - 2, 0]
                [ihi g + 2, jlo g - 2 + 1, 0] [ihi g + 2, jlo g - 2, 0] h2 = (Inr (), h3) \<and>
              getitem (F_x F) [ihi g + 2 + 1, jlo g - 2 - 1, 0] h3 = (Inl IndexError, h3) \<and>
              correct_one (U_yl A) (F_x F) dt (dx g) [ihi g + 2, jlo g - 2, 0]
                [ihi g + 2 + 1, jlo g - 2 - 1, 0] [ihi g + 2, jlo g - 2 - 1, 0] h3 = (Inl IndexError, h3) \<and>
              correct_cell g dt A F (jlo g - 2) (ihi g + 2) 0 h1 = (Inl IndexError, h3) \<and>
              correct_row g nv dt A F (jlo g - 2) h = (Inl IndexError, h3) \<and>
              transverse_correct g nv dt A F h = (Inl IndexError, h3)) \<and>
           ihi g + 2 + 1 = qx g \<and> ilo g - 2 - 1 = - 1 \<and> jlo g - 2 - 1 = - 1 \<and>
           getitem (F_y F) [ilo g - 2 - 1, jlo g - 2 + 1, 0] h =
             (Inr (elts (arr h (F_y F)) [qx g - 1, jlo g - 2 + 1, 0]), h) \<and>
           getitem (F_x F) [ilo g - 2 + 1, jlo g - 2 - 1, 0] h =
             (Inr (elts (arr h (F_x F)) [ilo g - 2 + 1, qy g - 1, 0]), h)) \<and>
         correct_cell g dt A F j i n =
           and_then (correct_one (U_xl A) (F_y F) dt (dy g)
                       (stencil i j n ! 0) (stencil i j n ! 1) (stencil i j n ! 2)) (\<lambda>_.
           and_then (correct_one (U_xr A) (F_y F) dt (dy g)
                       (stencil i j n ! 3) (stencil i j n ! 4) (stencil i j n ! 5)) (\<lambda>_.
           and_then (correct_one (U_yl A) (F_x F) dt (dx g)
                       (stencil i j n ! 6) (stencil i j n ! 7) (stencil i j n ! 8)) (\<lambda>_.
           correct_one (U_yr A) (F_x F) dt (dx g)
                       (stencil i j n ! 9) (stencil i j n ! 10) (stencil i j n ! 11)))) \<and>
         ((\<forall>i j n. ilo g - 2 \<le> i \<and> i \<le> ihi g + 2 \<and> jlo g - 2 \<le> j \<and> j \<le> jhi g + 2 \<and> 0 \<le> n \<and> n < nv \<longrightarrow>
             list_all (in_bounds [qx g, qy g, nv]) (stencil i j n)) \<longleftrightarrow> 3 \<le> ng g) \<and>
         ((\<exists>h'. transverse_correct g nv dt A F h = (Inr (), h')) \<longleftrightarrow> 3 \<le> ng g)"
proof (intro conjI impI)
  assume n2: "ng g = 2"
  show "\<exists>h1 h2 h3.
              while_le (ilo g - 2) (ihi g + 1)
                (\<lambda>i. while_lt 0 nv (correct_cell g dt A F (jlo g - 2) i)) h = (Inr (), h1) \<and>
              correct_one (U_xl A) (F_y F) dt (dy g) [ihi g + 2, jlo g - 2, 0]
                [ihi g + 2 - 1, jlo g - 2 + 1, 0] [ihi g + 2 - 1, jlo g - 2, 0] h1 = (Inr (), h2) \<and>
              correct_one (U_xr A) (F_y F) dt (dy g) [ihi g + 2, jlo g - 2, 0]
                [ihi g + 2, jlo g - 2 + 1, 0] [ihi g + 2, jlo g - 2, 0] h2 = (Inr (), h3) \<and>
              getitem (F_x F) [ihi g + 2 + 1, jlo g - 2 - 1, 0] h3 = (Inl IndexError, h3) \<and>
              correct_one (U_yl A) (F_x F) dt (dx g) [ihi g + 2, jlo g - 2, 0]
                [ihi g + 2 + 1, jlo g - 2 - 1, 0] [ihi g + 2, jlo g - 2 - 1, 0] h3 = (Inl IndexError, h3) \<and>
              correct_cell g dt A F (jlo g - 2) (ihi g + 2) 0 h1 = (Inl IndexError, h3) \<and>
              correct_row g nv dt A F (jlo g - 2) h = (Inl IndexError, h3) \<and>
              transverse_correct g nv dt A F h = (Inl IndexError, h3)"
    by (rule first_row_failure[OF assms(1) n2 assms(2,4)])
  from assms(1) n2 have q: "ilo g = 2" "jlo g = 2" "ihi g = qx g - 3" "jhi g = qy g - 3" "5 \<le> qx g" "5 \<le> qy g"
    by (auto simp: grid_ok_def)
  show "ihi g + 2 + 1 = qx g" "ilo g - 2 - 1 = - 1" "jlo g - 2 - 1 = - 1"
    using q by simp_all
  have sF: "shape (arr h (F_y F)) = [qx g, qy g, nv]" "shape (arr h (F_x F)) = [qx g, qy g, nv]"
    using assms(4) by (simp_all add: shaped_def)
  have "norm_idx [qx g, qy g, nv] [ilo g - 2 - 1, jlo g - 2 + 1, 0] = Inr [qx g - 1, jlo g - 2 + 1, 0]"
    using q assms(2) by (simp add: py_index_def)
  then show "getitem (F_y F) [ilo g - 2 - 1, jlo g - 2 + 1, 0] h =
             (Inr (elts (arr h (F_y F)) [qx g - 1, jlo g - 2 + 1, 0]), h)"
    by (intro getitem_ok) (simp only: sF)
  have "norm_idx [qx g, qy g, nv] [ilo g - 2 + 1, jlo g - 2 - 1, 0] = Inr [ilo g - 2 + 1, qy g - 1, 0]"
    using q assms(2) by (simp add: py_index_def)
  then show "getitem (F_x F) [ilo g - 2 + 1, jlo g - 2 - 1, 0] h =
             (Inr (elts (arr h (F_x F)) [ilo g - 2 + 1, qy g - 1, 0]), h)"
    by (intro getitem_ok) (simp only: sF)
next
  show "correct_cell g dt A F j i n =
           and_then (correct_one (U_xl A) (F_y F) dt (dy g)
                       (stencil i j n ! 0) (stencil i j n ! 1) (stencil i j n ! 2)) (\<lambda>_.
           and_then (correct_one (U_xr A) (F_y F) dt (dy g)
                       (stencil i j n ! 3) (stencil i j n ! 4) (stencil i j n ! 5)) (\<lambda>_.
           and_then (correct_one (U_yl A) (F_x F) dt (dx g)
                       (stencil i j n ! 6) (stencil i j n ! 7) (stencil i j n ! 8)) (\<lambda>_.
           correct_one (U_yr A) (F_x F) dt (dx g)
                       (stencil i j n ! 9) (stencil i j n ! 10) (stencil i j n ! 11))))"
    by (rule correct_cell_stencil)
next
  show "(\<forall>i j n. ilo g - 2 \<le> i \<and> i \<le> ihi g + 2 \<and> jlo g - 2 \<le> j \<and> j \<le> jhi g + 2 \<and> 0 \<le> n \<and> n < nv \<longrightarrow>
             list_all (in_bounds [qx g, qy g, nv]) (stencil i j n)) \<longleftrightarrow> 3 \<le> ng g"
  proof
    assume a: "\<forall>i j n. ilo g - 2 \<le> i \<and> i \<le> ihi g + 2 \<and> jlo g - 2 \<le> j \<and> j \<le> jhi g + 2 \<and> 0 \<le> n \<and> n < nv \<longrightarrow>
             list_all (in_bounds [qx g, qy g, nv]) (stencil i j n)"
    have "list_all (in_bounds [qx g, qy g, nv]) (stencil (ihi g + 2) (jlo g - 2) 0)"
      using a assms(1,2) by (simp add: grid_ok_def)
    then have "in_bounds [qx g, qy g, nv] [ihi g + 2 + 1, jlo g - 2 - 1, 0]"
      by (simp add: stencil_def)
    then have "ihi g + 2 + 1 < qx g"
      by (auto simp: in_bounds_def py_index_def split: if_splits sum.splits)
    then show "3 \<le> ng g" using assms(1) by (simp add: grid_ok_def)
  next
    assume n3: "3 \<le> ng g"
    show "\<forall>i j n. ilo g - 2 \<le> i \<and> i \<le> ihi g + 2 \<and> jlo g - 2 \<le> j \<and> j \<le> jhi g + 2 \<and> 0 \<le> n \<and> n < nv \<longrightarrow>
             list_all (in_bounds [qx g, qy g, nv]) (stencil i j n)"
    proof (intro allI impI)
      fix i j n
      assume r: "ilo g - 2 \<le> i \<and> i \<le> ihi g + 2 \<and> jlo g - 2 \<le> j \<and> j \<le> jhi g + 2 \<and> 0 \<le> n \<and> n < nv"
      then have "0 \<le> i - 1" "i + 1 < qx g" "0 \<le> j - 1" "j + 1 < qy g"
        using assms(1) n3 by (auto simp: grid_ok_def)
      with r show "list_all (in_bounds [qx g, qy g, nv]) (stencil i j n)"
        by (simp add: stencil_def in_bounds_def norm_idx3 del: norm_idx.simps)
    qed
  qed
next
  show "(\<exists>h'. transverse_correct g nv dt A F h = (Inr (), h')) \<longleftrightarrow> 3 \<le> ng g"
  proof
    assume "\<exists>h'. transverse_correct g nv dt A F h = (Inr (), h')"
    then show "3 \<le> ng g"
      using transverse_correct_fails[OF assms(1) _ assms(2,4), of dt] by (cases "ng g < 3") auto
  next
    assume n3: "3 \<le> ng g"
    have "\<forall>a\<in>{U_xl A, U_xr A, U_yl A, U_yr A, F_x F, F_y F}. shape (arr h a) = [qx g, qy g, nv]"
      using assms(4) by (simp add: shaped_def)
    from transverse_correct_spec[OF assms(1) n3 assms(3) this, of dt]
    show "\<exists>h'. transverse_correct g nv dt A F h = (Inr (), h')" by blast
  qed
qed

theorem transverse_correct_first_failure_witness:
  "grid_ok grid2 \<and> (0::int) < 4 \<and>
   distinct [U_xl states3, U_xr states3, U_yl states3, U_yr states3, F_x fluxes3, F_y fluxes3] \<and>
   shaped grid2 4 states3 fluxes3 heap2 \<and> ng grid2 = 2 \<and>
   (\<exists>h'. correct_row grid2 4 2 states3 fluxes3 0 heap2 = (Inl IndexError, h') \<and>
          transverse_correct grid2 4 2 states3 fluxes3 heap2 = (Inl IndexError, h')) \<and>
   getitem 5 [- 1, 1, 0] heap2 = (Inr 9, heap2) \<and>
   \<not> list_all (in_bounds [5, 5, 4]) (stencil 4 0 0)"
proof -
  have a: "grid_ok grid2" "(0::int) < 4"
    "distinct [U_xl states3, U_xr states3, U_yl states3, U_yr states3, F_x fluxes3, F_y fluxes3]"
    "shaped grid2 4 states3 fluxes3 heap2"
    by (simp_all add: grid_ok_def grid2_def states3_def fluxes3_def shaped_def heap2_def)
  have n: "ng grid2 = 2" by (simp add: grid2_def)
  from transverse_correct_first_failure[OF a, of 2] n
  have 1: "\<exists>h1 h2 h3.
              while_le (ilo grid2 - 2) (ihi grid2 + 1)
                (\<lambda>i. while_lt 0 4 (correct_cell grid2 2 states3 fluxes3 (jlo grid2 - 2) i)) heap2 = (Inr (), h1) \<and>
              correct_one (U_xl states3) (F_y fluxes3) 2 (dy grid2) [ihi grid2 + 2, jlo grid2 - 2, 0]
                [ihi grid2 + 2 - 1, jlo grid2 - 2 + 1, 0] [ihi grid2 + 2 - 1, jlo grid2 - 2, 0] h1 = (Inr (), h2) \<and>
              correct_one (U_xr states3) (F_y fluxes3) 2 (dy grid2) [ihi grid2 + 2, jlo grid2 - 2, 0]
                [ihi grid2 + 2, jlo grid2 - 2 + 1, 0] [ihi grid2 + 2, jlo grid2 - 2, 0] h2 = (Inr (), h3) \<and>
              getitem (F_x fluxes3) [ihi grid2 + 2 + 1, jlo grid2 - 2 - 1, 0] h3 = (Inl IndexError, h3) \<and>
              correct_one (U_yl states3) (F_x fluxes3) 2 (dx grid2) [ihi grid2 + 2, jlo grid2 - 2, 0]
                [ihi grid2 + 2 + 1, jlo grid2 - 2 - 1, 0] [ihi grid2 + 2, jlo grid2 - 2 - 1, 0] h3 = (Inl IndexError, h3) \<and>
              correct_cell grid2 2 states3 fluxes3 (jlo grid2 - 2) (ihi grid2 + 2) 0 h1 = (Inl IndexError, h3) \<and>
              correct_row grid2 4 2 states3 fluxes3 (jlo grid2 - 2) heap2 = (Inl IndexError, h3) \<and>
              transverse_correct grid2 4 2 states3 fluxes3 heap2 = (Inl IndexError, h3)"
    and 2: "getitem (F_y fluxes3) [ilo grid2 - 2 - 1, jlo grid2 - 2 + 1, 0] heap2 =
             (Inr (elts (arr heap2 (F_y fluxes3)) [qx grid2 - 1, jlo grid2 - 2 + 1, 0]), heap2)"
    by blast+
  have j0: "jlo grid2 - 2 = 0" by (simp add: grid2_def)
  from 1 have r: "\<exists>h'. correct_row grid2 4 2 states3 fluxes3 0 heap2 = (Inl IndexError, h') \<and>
          transverse_correct grid2 4 2 states3 fluxes3 heap2 = (Inl IndexError, h')"
    unfolding j0 by blast
  from 2 have gi: "getitem 5 [- 1, 1, 0] heap2 = (Inr 9, heap2)"
    by (simp add: grid2_def fluxes3_def heap2_def)
  have "\<not> list_all (in_bounds [5, 5, 4]) (stencil 4 0 0)"
    by (simp add: stencil_def in_bounds_def py_index_def)
  with a n r gi show ?thesis by (intro conjI)
qed

text \<open>
  The read \<open>F_y[., jhi+3]\<close> at \<open>j = jhi+2\<close> is not made: on the smallest grid with two
  ghost layers the run of the loop is the run of its first row \<open>j = jlo-2 = 0\<close>, which
  raises, and \<open>jhi+2 = 4\<close> is a later row.
\<close>

theorem transverse_correct_stops_in_first_row:
  "fst (correct_row grid2 4 2 states3 fluxes3 (jlo grid2 - 2) heap2) = Inl IndexError \<and>
   transverse_correct grid2 4 2 states3 fluxes3 heap2 =
     correct_row grid2 4 2 states3 fluxes3 (jlo grid2 - 2) heap2 \<and>
   jlo grid2 - 2 = 0 \<and> jhi grid2 + 2 = 4"
proof -
  have a: "grid_ok grid2" "ng grid2 = 2" "(0::int) < 4" "shaped grid2 4 states3 fluxes3 heap2"
    by (simp_all add: grid_ok_def grid2_def states3_def fluxes3_def shaped_def heap2_def)
  from first_row_failure[OF a, of 2]
  obtain h3 where r: "correct_row grid2 4 2 states3 fluxes3 (jlo grid2 - 2) heap2 = (Inl IndexError, h3)"
    "transverse_correct grid2 4 2 states3 fluxes3 heap2 = (Inl IndexError, h3)"
    by blast
  have "jlo grid2 - 2 = 0" "jhi grid2 + 2 = 4" by (simp_all add: grid2_def)
  with r show ?thesis by simp
qed

subsection \<open>The primitive variables\<close>

text \<open>
  Claim C5. The first step of unsplitFluxes derives, for every cell of the padded grid,
  \<open>u = xmom/dens\<close>, \<open>v = ymom/dens\<close>, \<open>e = (ener - 0.5*(xmom^2 + ymom^2)/dens)/dens\<close> and
  \<open>p = max (pres dens e) smallp\<close> with \<open>smallp = 1e-10\<close>, \<open>pres\<close> being the pressure of the
  equation of state. The rest of the routine runs from the store so obtained and never
  writes to the array \<open>p\<close>: in the store in which the routine ends, by a return or by an
  exception, that array is what the derivation made it. So in every cell with \<open>dens > 0\<close>
  the pressure is at least \<open>1e-10\<close> after the derivation and at the end of the routine.
\<close>

theorem primitive_variables_floor:
  assumes "data_ok d h"
  shows "\<exists>ua va pa h1.
     primitive_variables K d (h\<lparr>timers := timers h @ [Begin ''unsplitFluxes'']\<rparr>) =
       (Inr \<lparr>prim_r = Comp (data d) (var_index d ''density''), prim_u = Whole ua,
             prim_v = Whole va, prim_p = Whole pa\<rparr>, h1) \<and>
     unsplitFluxes K vars gamma d dt h =
       and_then (states_from K vars gamma d dt
                   \<lparr>prim_r = Comp (data d) (var_index d ''density''), prim_u = Whole ua,
                    prim_v = Whole va, prim_p = Whole pa\<rparr>)
                (fluxes_from K vars gamma d dt) h1 \<and>
     arr (snd (unsplitFluxes K vars gamma d dt h)) pa = arr h1 pa \<and>
     (\<forall>i j. 0 \<le> i \<and> i < qx (grid d) \<and> 0 \<le> j \<and> j < qy (grid d) \<longrightarrow>
        (let dens = elts (arr h (data d)) [i, j, var_index d ''density''];
             xmom = elts (arr h (data d)) [i, j, var_index d ''x-momentum''];
             ymom = elts (arr h (data d)) [i, j, var_index d ''y-momentum''];
             ener = elts (arr h (data d)) [i, j, var_index d ''energy''];
             e = (ener - 0.5 * (xmom ^ 2 + ymom ^ 2) / dens) / dens
         in elts (arr h1 ua) [i, j] = xmom / dens \<and> elts (arr h1 va) [i, j] = ymom / dens \<and>
            elts (arr h1 pa) [i, j] = max (pres K dens e) (1 / 10 ^ 10) \<and>
            (0 < dens \<longrightarrow> 1 / 10 ^ 10 \<le> elts (arr h1 pa) [i, j] \<and>
               1 / 10 ^ 10 \<le> elts (arr (snd (unsplitFluxes K vars gamma d dt h)) pa) [i, j])))"
proof -
  let ?h0 = "h\<lparr>timers := timers h @ [Begin ''unsplitFluxes'']\<rparr>"
  let ?Q = "\<lparr>prim_r = Comp (data d) (var_index d ''density''), prim_u = Whole (nxt ?h0),
             prim_v = Whole (nxt ?h0 + 1), prim_p = Whole (nxt ?h0 + 4)\<rparr>"
  have ok: "data_ok d ?h0" using assms by (simp add: data_ok_timers)
  from primitive_variables_run[OF ok, of K]
  obtain h1 where r: "primitive_variables K d ?h0 = (Inr ?Q, h1)" "nxt h1 = nxt ?h0 + 5"
    and c: "\<forall>i j. 0 \<le> i \<and> i < qx (grid d) \<and> 0 \<le> j \<and> j < qy (grid d) \<longrightarrow>
        (elts (arr ?h0 (data d)) [i, j, var_index d ''density''],
         elts (arr h1 (nxt ?h0)) [i, j], elts (arr h1 (nxt ?h0 + 1)) [i, j], elts (arr h1 (nxt ?h0 + 4)) [i, j]) =
        prim_cell K (elts (arr ?h0 (data d)) [i, j, var_index d ''density''],
                     elts (arr ?h0 (data d)) [i, j, var_index d ''x-momentum''],
                     elts (arr ?h0 (data d)) [i, j, var_index d ''y-momentum''],
                     elts (arr ?h0 (data d)) [i, j, var_index d ''energy''])"
    by blast
  note u = unsplitFluxes_after_prims[OF r(1), of vars gamma dt]
  obtain r' h' where e: "and_then (states_from K vars gamma d dt ?Q) (fluxes_from K vars gamma d dt) h1 = (r', h')"
    by (cases "and_then (states_from K vars gamma d dt ?Q) (fluxes_from K vars gamma d dt) h1")
  from keepsD[OF keeps_after_prims order_refl e] have k: "\<forall>a<nxt h1. arr h' a = arr h1 a"
    by simp
  have lt: "nxt ?h0 + 4 < nxt h1" using r(2) by simp
  have same: "arr (snd (unsplitFluxes K vars gamma d dt h)) (nxt ?h0 + 4) = arr h1 (nxt ?h0 + 4)"
    unfolding u e snd_conv by (rule k[rule_format, OF lt])
  have cells: "\<forall>i j. 0 \<le> i \<and> i < qx (grid d) \<and> 0 \<le> j \<and> j < qy (grid d) \<longrightarrow>
        (let dens = elts (arr h (data d)) [i, j, var_index d ''density''];
             xmom = elts (arr h (data d)) [i, j, var_index d ''x-momentum''];
             ymom = elts (arr h (data d)) [i, j, var_index d ''y-momentum''];
             ener = elts (arr h (data d)) [i, j, var_index d ''energy''];
             e = (ener - 0.5 * (xmom ^ 2 + ymom ^ 2) / dens) / dens
         in elts (arr h1 (nxt ?h0)) [i, j] = xmom / dens \<and> elts (arr h1 (nxt ?h0 + 1)) [i, j] = ymom / dens \<and>
            elts (arr h1 (nxt ?h0 + 4)) [i, j] = max (pres K dens e) (1 / 10 ^ 10) \<and>
            (0 < dens \<longrightarrow> 1 / 10 ^ 10 \<le> elts (arr h1 (nxt ?h0 + 4)) [i, j] \<and>
               1 / 10 ^ 10 \<le> elts (arr (snd (unsplitFluxes K vars gamma d dt h)) (nxt ?h0 + 4)) [i, j]))"
  proof (intro allI impI)
    fix i j assume "0 \<le> i \<and> i < qx (grid d) \<and> 0 \<le> j \<and> j < qy (grid d)"
    with c have "(elts (arr ?h0 (data d)) [i, j, var_index d ''density''],
         elts (arr h1 (nxt ?h0)) [i, j], elts (arr h1 (nxt ?h0 + 1)) [i, j], elts (arr h1 (nxt ?h0 + 4)) [i, j]) =
        prim_cell K (elts (arr ?h0 (data d)) [i, j, var_index d ''density''],
                     elts (arr ?h0 (data d)) [i, j, var_index d ''x-momentum''],
                     elts (arr ?h0 (data d)) [i, j, var_index d ''y-momentum''],
                     elts (arr ?h0 (data d)) [i, j, var_index d ''energy''])"
      by blast
    then show "let dens = elts (arr h (data d)) [i, j, var_index d ''density''];
             xmom = elts (arr h (data d)) [i, j, var_index d ''x-momentum''];
             ymom = elts (arr h (data d)) [i, j, var_index d ''y-momentum''];
             ener = elts (arr h (data d)) [i, j, var_index d ''energy''];
             e = (ener - 0.5 * (xmom ^ 2 + ymom ^ 2) / dens) / dens
         in elts (arr h1 (nxt ?h0)) [i, j] = xmom / dens \<and> elts (arr h1 (nxt ?h0 + 1)) [i, j] = ymom / dens \<and>
            elts (arr h1 (nxt ?h0 + 4)) [i, j] = max (pres K dens e) (1 / 10 ^ 10) \<and>
            (0 < dens \<longrightarrow> 1 / 10 ^ 10 \<le> elts (arr h1 (nxt ?h0 + 4)) [i, j] \<and>
               1 / 10 ^ 10 \<le> elts (arr (snd (unsplitFluxes K vars gamma d dt h)) (nxt ?h0 + 4)) [i, j])"
      unfolding same by (simp add: prim_cell_def Let_def smallp_def)
  qed
  show ?thesis
    apply (rule exI[of _ "nxt ?h0"], rule exI[of _ "nxt ?h0 + 1"], rule exI[of _ "nxt ?h0 + 4"],
        rule exI[of _ h1])
    apply (intro conjI)
       apply (rule r(1))
      apply (rule u)
     apply (rule same)
    apply (rule cells)
    done
qed

theorem primitive_variables_floor_witness:
  "data_ok data0 heap0 \<and>
   (\<exists>ua va pa h1.
      primitive_variables kernels0 data0 (heap0\<lparr>timers := timers heap0 @ [Begin ''unsplitFluxes'']\<rparr>) =
        (Inr \<lparr>prim_r = Comp 0 0, prim_u = Whole ua, prim_v = Whole va, prim_p = Whole pa\<rparr>, h1) \<and>
      elts (arr h1 ua) [3, 3] = 3 / 2 \<and> elts (arr h1 va) [3, 3] = 2 \<and>
      elts (arr h1 pa) [3, 3] = 1 / 10 ^ 10 \<and>
      1 / 10 ^ 10 \<le> elts (arr (snd (unsplitFluxes kernels0 vars0 1.4 data0 0.1 heap0)) pa) [3, 3])"
proof -
  have vi: "var_index data0 ''density'' = 0" "var_index data0 ''x-momentum'' = 1"
    "var_index data0 ''y-momentum'' = 2" "var_index data0 ''energy'' = 3" "data data0 = 0"
    "qx (grid data0) = 7" "qy (grid data0) = 7"
    by (simp_all add: var_index_def data0_def grid3_def)
  from primitive_variables_floor[OF data0_ok, where K = kernels0 and vars = vars0 and gamma = "1.4" and dt = "0.1"]
  obtain ua va pa h1 where
    r: "primitive_variables kernels0 data0 (heap0\<lparr>timers := timers heap0 @ [Begin ''unsplitFluxes'']\<rparr>) =
        (Inr \<lparr>prim_r = Comp 0 0, prim_u = Whole ua, prim_v = Whole va, prim_p = Whole pa\<rparr>, h1)"
    and c: "\<And>i j. 0 \<le> i \<and> i < 7 \<and> 0 \<le> j \<and> j < 7 \<longrightarrow>
        (let dens = elts (arr heap0 0) [i, j, 0];
             xmom = elts (arr heap0 0) [i, j, 1];
             ymom = elts (arr heap0 0) [i, j, 2];
             ener = elts (arr heap0 0) [i, j, 3];
             e = (ener - 0.5 * (xmom ^ 2 + ymom ^ 2) / dens) / dens
         in elts (arr h1 ua) [i, j] = xmom / dens \<and> elts (arr h1 va) [i, j] = ymom / dens \<and>
            elts (arr h1 pa) [i, j] = max (pres kernels0 dens e) (1 / 10 ^ 10) \<and>
            (0 < dens \<longrightarrow> 1 / 10 ^ 10 \<le> elts (arr h1 pa) [i, j] \<and>
               1 / 10 ^ 10 \<le> elts (arr (snd (unsplitFluxes kernels0 vars0 1.4 data0 0.1 heap0)) pa) [i, j]))"
    unfolding vi by blast
  from c[of 3 3] have "elts (arr h1 ua) [3, 3] = 3 / 2 \<and> elts (arr h1 va) [3, 3] = 2 \<and>
      elts (arr h1 pa) [3, 3] = 1 / 10 ^ 10 \<and>
      1 / 10 ^ 10 \<le> elts (arr (snd (unsplitFluxes kernels0 vars0 1.4 data0 0.1 heap0)) pa) [3, 3]"
    by (simp add: heap0_def Let_def kernels0_def gamma_law_pres_def)
  with r data0_ok show ?thesis by blast
qed

subsection \<open>Back to conserved variables\<close>




subsection \<open>The two Riemann passes\<close>



subsection \<open>The conserved arrays are read only\<close>

lemma unsplitFluxes_frame:
  assumes "unsplitFluxes K vars gamma myData dt h = (r, h')"
  shows "nxt h \<le> nxt h' \<and> (\<forall>a<nxt h. arr h' a = arr h a) \<and>
     (case r of Inl _ \<Rightarrow> True | Inr F \<Rightarrow> nxt h \<le> F_x F \<and> nxt h \<le> F_y F)"
  by (rule keepsD[OF keeps_unsplitFluxes order_refl assms])

lemma fluxes_frame:
  assumes "fluxes K my_data rp ivars sol h = (r, h')"
  shows "nxt h \<le> nxt h' \<and> (\<forall>a<nxt h. arr h' a = arr h a) \<and>
     (case r of Inl _ \<Rightarrow> True | Inr F \<Rightarrow> nxt h \<le> F_x F \<and> nxt h \<le> F_y F)"
  by (rule keepsD[OF keeps_fluxes order_refl assms])

text \<open>
  Claim C8. Whatever the data object, the time step and the collaborators, and whether
  the routine returns or raises: every object that the store held when unsplitFluxes was
  called (the caller's conserved arrays among them) is in the final store what it was on
  entry, shape and elements, and the two flux arrays that are returned are objects made
  during the call. The same holds for the fluxes routine of compressible_rk.
\<close>

theorem flux_routines_frame:
  "(case unsplitFluxes K vars gamma myData dt h of
      (r, h') \<Rightarrow>
        (\<forall>a<nxt h. arr h' a = arr h a) \<and>
        (case r of Inl _ \<Rightarrow> True | Inr F \<Rightarrow> nxt h \<le> F_x F \<and> nxt h \<le> F_y F)) \<and>
   (case fluxes K' my_data rp ivars sol h of
      (r, h') \<Rightarrow>
        (\<forall>a<nxt h. arr h' a = arr h a) \<and>
        (case r of Inl _ \<Rightarrow> True | Inr F \<Rightarrow> nxt h \<le> F_x F \<and> nxt h \<le> F_y F))"
proof
  show "case unsplitFluxes K vars gamma myData dt h of
      (r, h') \<Rightarrow>
        (\<forall>a<nxt h. arr h' a = arr h a) \<and>
        (case r of Inl _ \<Rightarrow> True | Inr F \<Rightarrow> nxt h \<le> F_x F \<and> nxt h \<le> F_y F)"
  proof (cases "unsplitFluxes K vars gamma myData dt h")
    case (Pair r h')
    from unsplitFluxes_frame[OF Pair] have "(\<forall>a<nxt h. arr h' a = arr h a) \<and>
        (case r of Inl _ \<Rightarrow> True | Inr F \<Rightarrow> nxt h \<le> F_x F \<and> nxt h \<le> F_y F)"
      by (rule conjunct2)
    then show ?thesis unfolding Pair prod.case .
  qed
next
  show "case fluxes K' my_data rp ivars sol h of
      (r, h') \<Rightarrow>
        (\<forall>a<nxt h. arr h' a = arr h a) \<and>
        (case r of Inl _ \<Rightarrow> True | Inr F \<Rightarrow> nxt h \<le> F_x F \<and> nxt h \<le> F_y F)"
  proof (cases "fluxes K' my_data rp ivars sol h")
    case (Pair r h')
    from fluxes_frame[OF Pair] have "(\<forall>a<nxt h. arr h' a = arr h a) \<and>
        (case r of Inl _ \<Rightarrow> True | Inr F \<Rightarrow> nxt h \<le> F_x F \<and> nxt h \<le> F_y F)"
      by (rule conjunct2)
    then show ?thesis unfolding Pair prod.case .
  qed
qed

theorem flux_routines_frame_witness:
  "arr (snd (unsplitFluxes kernels0 vars0 1.4 data0 0.1 heap0)) (data data0) = arr heap0 (data data0) \<and>
   arr (snd (fluxes rk_kernels0 data0 rp0 vars0 solid0 heap0)) (data data0) = arr heap0 (data data0)"
proof -
  have lt: "data data0 < nxt heap0" by (simp add: data0_def heap0_def)
  obtain r1 h1 where u1: "unsplitFluxes kernels0 vars0 1.4 data0 0.1 heap0 = (r1, h1)"
    by (cases "unsplitFluxes kernels0 vars0 1.4 data0 0.1 heap0")
  obtain r2 h2 where u2: "fluxes rk_kernels0 data0 rp0 vars0 solid0 heap0 = (r2, h2)"
    by (cases "fluxes rk_kernels0 data0 rp0 vars0 solid0 heap0")
  note f = flux_routines_frame[where K = kernels0 and vars = vars0 and gamma = "1.4" and myData = data0
      and dt = "0.1" and h = heap0 and K' = rk_kernels0 and my_data = data0 and rp = rp0
      and ivars = vars0 and sol = solid0, unfolded u1 u2 prod.case]
  from f have a1: "\<forall>a<nxt heap0. arr h1 a = arr heap0 a" by (rule conjunct1[OF conjunct1])
  from f have a2: "\<forall>a<nxt heap0. arr h2 a = arr heap0 a" by (rule conjunct1[OF conjunct2])
  from a1 lt have "arr h1 (data data0) = arr heap0 (data data0)" by simp
  moreover from a2 lt have "arr h2 (data data0) = arr heap0 (data data0)" by simp
  ultimately show ?thesis unfolding u1 u2 snd_conv by (rule conjI)
qed

end
